(* ===== verification/Cpp_Prelude.thy ===== *)
theory Cpp_Prelude
  imports Main "HOL-Library.Word" "HOL-Library.Char_ord" "HOL-Library.List_Lexorder"
begin

text \<open>
  The prelude of the Stage A fixture development: the machine types of the C++ sources,
  the exceptions they throw, computations that act on a world and may throw (with the rules that
  invert a successful run), and the parts of \<^verbatim>\<open>std::string\<close> the sources use.

  A C++ function that may throw and calls virtual or native operations is modelled as a
  function \<open>'w \<Rightarrow> (exn + 'a) \<times> 'w\<close>: it takes the world, and returns either the exception
  (\<open>Inl\<close>) or the result (\<open>Inr\<close>), together with the world it leaves behind.  A C++ function that
  may throw and touches no state is a value of \<open>exn + 'a\<close>.
\<close>

named_theorems run_iff "equivalences that take a successful run apart"
named_theorems run_simps "evaluation of the computation combinators on a world"

section \<open>Machine types\<close>

type_synonym u8 = "8 word"
type_synonym u16 = "16 word"
type_synonym u32 = "32 word"
type_synonym u64 = "64 word"
type_synonym bytes = "u8 list"

text \<open>\<open>wchar_t\<close> has 16 bits on Windows, and a HANDLE is a pointer: null is 0 and
  INVALID\_HANDLE\_VALUE is the pointer with all bits set.\<close>

type_synonym wstring = "u16 list"
type_synonym handle = u64

definition null_handle :: handle where
  "null_handle = 0"

definition invalid_handle_value :: handle where
  "invalid_handle_value = - 1"

definition valid_handle :: "handle \<Rightarrow> bool" where
  "valid_handle h \<longleftrightarrow> h \<noteq> null_handle \<and> h \<noteq> invalid_handle_value"

section \<open>Errors and exceptions\<close>

text \<open>\<open>ErrorKind\<close> and \<open>ObservationFailure\<close>, the typed exception of the fixture.  The
  message of the base class \<open>std::runtime_error\<close> is the field \<open>f_message\<close>.\<close>

datatype error_kind =
    Err_none | Err_malformed | Err_oversized | Err_incomplete | Err_sharing_conflict
  | Err_reparse | Err_identity_drift | Err_unexpected_entry | Err_native_failure
  | Err_binding_failure | Err_hash_failure

record observation_failure =
  f_kind :: error_kind
  f_object :: string
  f_profile :: string
  f_step :: string
  f_message :: string
  f_ntstatus :: int
  f_has_ntstatus :: bool
  f_win32_error :: u32
  f_has_win32_error :: bool

text \<open>The constructor with its default arguments, and with all of them.\<close>

definition observation_failure_full ::
  "error_kind \<Rightarrow> string \<Rightarrow> string \<Rightarrow> string \<Rightarrow> string \<Rightarrow> int \<Rightarrow> bool \<Rightarrow> u32 \<Rightarrow> bool \<Rightarrow> observation_failure"
where
  "observation_failure_full k ob pr st msg nt has_nt win has_win =
     \<lparr>f_kind = k, f_object = ob, f_profile = pr, f_step = st, f_message = msg,
      f_ntstatus = nt, f_has_ntstatus = has_nt, f_win32_error = win, f_has_win32_error = has_win\<rparr>"

definition observation_failure_of ::
  "error_kind \<Rightarrow> string \<Rightarrow> string \<Rightarrow> string \<Rightarrow> string \<Rightarrow> observation_failure"
where
  "observation_failure_of k ob pr st msg = observation_failure_full k ob pr st msg 0 False 0 False"

text \<open>
  What a computation can raise.  \<open>Observation\<close> and \<open>Std\<close> are caught by
  \<^verbatim>\<open>catch (const std::exception&)\<close>, \<open>Foreign\<close> (an exception that does not derive from
  \<^verbatim>\<open>std::exception\<close>) only by \<^verbatim>\<open>catch (...)\<close>.  \<open>Undefined\<close> is not an exception: it stands for
  undefined behaviour (an access outside an object) and no handler catches it.
\<close>

datatype std_class =
  Length_error | Invalid_argument | Logic_error | Runtime_error | Out_of_range | Bad_alloc | Other_std

datatype exn =
    Observation observation_failure
  | Std std_class string
  | Foreign
  | Undefined

primrec is_std :: "exn \<Rightarrow> bool" where
  "is_std (Observation f) \<longleftrightarrow> True"
| "is_std (Std c m) \<longleftrightarrow> True"
| "is_std Foreign \<longleftrightarrow> False"
| "is_std Undefined \<longleftrightarrow> False"

primrec what :: "exn \<Rightarrow> string" where
  "what (Observation f) = f_message f"
| "what (Std c m) = m"
| "what Foreign = []"
| "what Undefined = []"

section \<open>Computations on a world\<close>

type_synonym ('w, 'a) cpp = "'w \<Rightarrow> (exn + 'a) \<times> 'w"

definition returnM :: "'a \<Rightarrow> ('w, 'a) cpp" where
  "returnM x = (\<lambda>w. (Inr x, w))"

definition throwM :: "exn \<Rightarrow> ('w, 'a) cpp" where
  "throwM e = (\<lambda>w. (Inl e, w))"

definition bindM :: "('w, 'a) cpp \<Rightarrow> ('a \<Rightarrow> ('w, 'b) cpp) \<Rightarrow> ('w, 'b) cpp" where
  "bindM m f = (\<lambda>w. case m w of (Inl e, w') \<Rightarrow> (Inl e, w') | (Inr x, w') \<Rightarrow> f x w')"

text \<open>\<open>guardM b e\<close> is the statement \<^verbatim>\<open>if (!b) throw e;\<close>, \<open>liftM\<close> a call of a stateless
  function that may throw.\<close>

definition guardM :: "bool \<Rightarrow> exn \<Rightarrow> ('w, unit) cpp" where
  "guardM b e = (if b then returnM () else throwM e)"

definition liftM :: "exn + 'a \<Rightarrow> ('w, 'a) cpp" where
  "liftM r = (\<lambda>w. (r, w))"

text \<open>\<open>catchM m h\<close> runs \<open>m\<close> and gives any exception to \<open>h\<close>; undefined behaviour is passed on.
  \<open>catch_std\<close> is \<^verbatim>\<open>catch (const std::exception& failure)\<close> with the handler applied to
  \<^verbatim>\<open>failure.what()\<close>; \<open>catch_chain\<close> is the chain \<^verbatim>\<open>catch (const ObservationFailure&)\<close>,
  \<^verbatim>\<open>catch (const std::exception&)\<close>, \<^verbatim>\<open>catch (...)\<close>.\<close>

definition catchM :: "('w, 'a) cpp \<Rightarrow> (exn \<Rightarrow> ('w, 'a) cpp) \<Rightarrow> ('w, 'a) cpp" where
  "catchM m h = (\<lambda>w. case m w of
       (Inl e, w') \<Rightarrow> (if e = Undefined then (Inl Undefined, w') else h e w')
     | (Inr x, w') \<Rightarrow> (Inr x, w'))"

definition catch_std :: "('w, 'a) cpp \<Rightarrow> (string \<Rightarrow> ('w, 'a) cpp) \<Rightarrow> ('w, 'a) cpp" where
  "catch_std m h = catchM m (\<lambda>e. if is_std e then h (what e) else throwM e)"

definition catch_chain ::
  "('w, 'a) cpp \<Rightarrow> (observation_failure \<Rightarrow> ('w, 'a) cpp) \<Rightarrow> (string \<Rightarrow> ('w, 'a) cpp) \<Rightarrow>
   ('w, 'a) cpp \<Rightarrow> ('w, 'a) cpp"
where
  "catch_chain m on_obs on_std on_any = catchM m (\<lambda>e. case e of
       Observation f \<Rightarrow> on_obs f | Std c msg \<Rightarrow> on_std msg | Foreign \<Rightarrow> on_any | Undefined \<Rightarrow> throwM Undefined)"

text \<open>A scope whose destructor \<open>d\<close> runs when \<open>m\<close> is left, normally or by an exception.\<close>

definition scopeM :: "('w, 'a) cpp \<Rightarrow> ('w \<Rightarrow> 'w) \<Rightarrow> ('w, 'a) cpp" where
  "scopeM m d = (\<lambda>w. case m w of (r, w') \<Rightarrow> (r, d w'))"

text \<open>A range-based \<^verbatim>\<open>for\<close> over a sequence.\<close>

primrec forM :: "'a list \<Rightarrow> ('a \<Rightarrow> ('w, unit) cpp) \<Rightarrow> ('w, unit) cpp" where
  "forM [] f = returnM ()"
| "forM (x # xs) f = bindM (f x) (\<lambda>_. forM xs f)"

text \<open>
  A function with a local object that its handlers still see after an exception is a computation
  on the pair of that object and the world: \<open>outerM\<close> runs a computation of the world there,
  \<open>localM\<close> updates the object, and \<open>with_local\<close> runs the whole with an initial object.
\<close>

definition outerM :: "('w, 'a) cpp \<Rightarrow> ('l \<times> 'w, 'a) cpp" where
  "outerM m = (\<lambda>(l, w). case m w of (r, w') \<Rightarrow> (r, (l, w')))"

definition localM :: "('l \<Rightarrow> 'l) \<Rightarrow> ('l \<times> 'w, unit) cpp" where
  "localM f = (\<lambda>(l, w). (Inr (), (f l, w)))"

definition readM :: "('l \<Rightarrow> 'a) \<Rightarrow> ('l \<times> 'w, 'a) cpp" where
  "readM f = (\<lambda>(l, w). (Inr (f l), (l, w)))"

definition with_local :: "'l \<Rightarrow> ('l \<times> 'w, unit) cpp \<Rightarrow> ('w, 'l) cpp" where
  "with_local l m = (\<lambda>w. case m (l, w) of
       (Inr u, (l', w')) \<Rightarrow> (Inr l', w')
     | (Inl e, (l', w')) \<Rightarrow> (Inl e, w'))"

text \<open>The same chaining for stateless functions that may throw.\<close>

definition bindE :: "exn + 'a \<Rightarrow> ('a \<Rightarrow> exn + 'b) \<Rightarrow> exn + 'b" where
  "bindE m f = (case m of Inl e \<Rightarrow> Inl e | Inr x \<Rightarrow> f x)"

definition guardE :: "bool \<Rightarrow> exn \<Rightarrow> exn + unit" where
  "guardE b e = (if b then Inr () else Inl e)"

text \<open>Which exceptions a computation can raise, whatever world it starts in.\<close>

definition raises_only :: "(exn \<Rightarrow> bool) \<Rightarrow> ('w, 'a) cpp \<Rightarrow> bool" where
  "raises_only P m \<longleftrightarrow> (\<forall>w e w'. m w = (Inl e, w') \<longrightarrow> P e)"

section \<open>Rules for computations\<close>

named_theorems raise_iff "equivalences that take a failed run apart"
named_theorems raises_intros "introduction rules for the exceptions of a computation"

lemma returnM_run [run_simps]: "returnM x w = (Inr x, w)"
  by (simp add: returnM_def)

lemma throwM_run [run_simps]: "throwM e w = (Inl e, w)"
  by (simp add: throwM_def)

lemma liftM_run [run_simps]: "liftM r w = (r, w)"
  by (simp add: liftM_def)

lemma guardM_run [run_simps]:
  "guardM b e w = (if b then (Inr (), w) else (Inl e, w))"
  by (simp add: guardM_def run_simps)

lemma outerM_run [run_simps]: "outerM m (l, w) = (case m w of (r, w') \<Rightarrow> (r, (l, w')))"
  by (simp add: outerM_def)

lemma localM_run [run_simps]: "localM f (l, w) = (Inr (), (f l, w))"
  by (simp add: localM_def)

lemma readM_run [run_simps]: "readM f (l, w) = (Inr (f l), (l, w))"
  by (simp add: readM_def)

lemma bindM_run [run_simps]:
  "m w = (Inr x, w') \<Longrightarrow> bindM m f w = f x w'"
  "m w = (Inl e, w') \<Longrightarrow> bindM m f w = (Inl e, w')"
  by (simp_all add: bindM_def)

lemma forM_run [run_simps]:
  "forM [] f w = (Inr (), w)"
  "forM (x # xs) f w = bindM (f x) (\<lambda>_. forM xs f) w"
  by (simp_all add: run_simps)

lemma catchM_run [run_simps]:
  "m w = (Inr x, w') \<Longrightarrow> catchM m h w = (Inr x, w')"
  "m w = (Inl e, w') \<Longrightarrow> e \<noteq> Undefined \<Longrightarrow> catchM m h w = h e w'"
  "m w = (Inl Undefined, w') \<Longrightarrow> catchM m h w = (Inl Undefined, w')"
  by (simp_all add: catchM_def)

lemma scopeM_run [run_simps]: "m w = (r, w') \<Longrightarrow> scopeM m d w = (r, d w')"
  by (simp add: scopeM_def)

lemma bindM_assoc: "bindM (bindM m f) g = bindM m (\<lambda>x. bindM (f x) g)"
  by (rule ext) (simp add: bindM_def split: prod.splits sum.splits)

lemma bindM_returnM: "bindM (returnM x) f = f x"
  by (rule ext) (simp add: bindM_def returnM_def)

subsection \<open>Successful runs\<close>

lemma returnM_ok [run_iff]: "returnM x w = (Inr y, w') \<longleftrightarrow> y = x \<and> w' = w"
  by (auto simp: returnM_def)

lemma throwM_ok [run_iff]: "throwM e w = (Inr y, w') \<longleftrightarrow> False"
  by (simp add: throwM_def)

lemma liftM_ok [run_iff]: "liftM r w = (Inr y, w') \<longleftrightarrow> r = Inr y \<and> w' = w"
  by (auto simp: liftM_def)

lemma guardM_ok [run_iff]: "guardM b e w = (Inr y, w') \<longleftrightarrow> b \<and> w' = w"
  by (auto simp: guardM_def returnM_def throwM_def)

lemma bindM_ok [run_iff]:
  "bindM m f w = (Inr y, w') \<longleftrightarrow> (\<exists>x w1. m w = (Inr x, w1) \<and> f x w1 = (Inr y, w'))"
  by (auto simp: bindM_def split: prod.splits sum.splits)

lemma scopeM_ok [run_iff]:
  "scopeM m d w = (Inr y, w') \<longleftrightarrow> (\<exists>w1. m w = (Inr y, w1) \<and> w' = d w1)"
  by (auto simp: scopeM_def split: prod.splits)

lemma outerM_ok [run_iff]:
  "outerM m lw = (Inr y, lw') \<longleftrightarrow> (\<exists>w'. m (snd lw) = (Inr y, w') \<and> lw' = (fst lw, w'))"
  by (auto simp: outerM_def split: prod.splits)

lemma localM_ok [run_iff]: "localM f lw = (Inr y, lw') \<longleftrightarrow> lw' = (f (fst lw), snd lw)"
  by (auto simp: localM_def split: prod.splits)

lemma readM_ok [run_iff]: "readM f lw = (Inr y, lw') \<longleftrightarrow> y = f (fst lw) \<and> lw' = lw"
  by (auto simp: readM_def split: prod.splits)

lemma with_local_ok [run_iff]:
  "with_local l m w = (Inr l', w') \<longleftrightarrow> m (l, w) = (Inr (), (l', w'))"
  by (auto simp: with_local_def split: prod.splits sum.splits)

lemma catchM_ok:
  "catchM m h w = (Inr y, w') \<longleftrightarrow>
     m w = (Inr y, w') \<or> (\<exists>e w1. e \<noteq> Undefined \<and> m w = (Inl e, w1) \<and> h e w1 = (Inr y, w'))"
  by (auto simp: catchM_def split: prod.splits sum.splits)

text \<open>A handler that only throws again does not change what a successful run returns.\<close>

definition rethrows :: "(exn \<Rightarrow> ('w, 'a) cpp) \<Rightarrow> bool" where
  "rethrows h \<longleftrightarrow> (\<forall>e w x w'. h e w \<noteq> (Inr x, w'))"

lemma catchM_rethrows_ok: "rethrows h \<Longrightarrow> catchM m h w = (Inr y, w') \<longleftrightarrow> m w = (Inr y, w')"
  by (auto simp: catchM_ok rethrows_def)

lemma catch_std_throw_ok [run_iff]:
  "catch_std m (\<lambda>s. throwM (h s)) w = (Inr y, w') \<longleftrightarrow> m w = (Inr y, w')"
  unfolding catch_std_def
  by (rule catchM_rethrows_ok) (simp add: rethrows_def throwM_def)

lemma catch_chain_throw_ok [run_iff]:
  "catch_chain m (\<lambda>f. throwM (g f)) (\<lambda>s. throwM (h s)) (throwM e) w = (Inr y, w') \<longleftrightarrow>
     m w = (Inr y, w')"
  unfolding catch_chain_def
  by (rule catchM_rethrows_ok) (simp add: rethrows_def throwM_def split: exn.split)

lemma catchM_throw_ok [run_iff]:
  "catchM m (\<lambda>e. throwM (h e)) w = (Inr y, w') \<longleftrightarrow> m w = (Inr y, w')"
  by (rule catchM_rethrows_ok) (simp add: rethrows_def throwM_def)

lemma bindE_ok [run_iff]: "bindE m f = Inr y \<longleftrightarrow> (\<exists>x. m = Inr x \<and> f x = Inr y)"
  by (auto simp: bindE_def split: sum.splits)

lemma guardE_ok [run_iff]: "guardE b e = Inr y \<longleftrightarrow> b"
  by (auto simp: guardE_def)

lemma bindE_run [run_simps]:
  "bindE (Inr x) f = f x"
  "bindE (Inl e) f = Inl e"
  by (simp_all add: bindE_def)

lemma guardE_run [run_simps]: "guardE b e = (if b then Inr () else Inl e)"
  by (simp add: guardE_def)

subsection \<open>Failed runs\<close>

lemma returnM_fails [raise_iff]: "returnM x w = (Inl e, w') \<longleftrightarrow> False"
  by (simp add: returnM_def)

lemma throwM_fails [raise_iff]: "throwM e w = (Inl e', w') \<longleftrightarrow> e' = e \<and> w' = w"
  by (auto simp: throwM_def)

lemma liftM_fails [raise_iff]: "liftM r w = (Inl e, w') \<longleftrightarrow> r = Inl e \<and> w' = w"
  by (auto simp: liftM_def)

lemma guardM_fails [raise_iff]: "guardM b e w = (Inl e', w') \<longleftrightarrow> \<not> b \<and> e' = e \<and> w' = w"
  by (auto simp: guardM_def returnM_def throwM_def)

lemma bindM_fails [raise_iff]:
  "bindM m f w = (Inl e, w') \<longleftrightarrow>
     m w = (Inl e, w') \<or> (\<exists>x w1. m w = (Inr x, w1) \<and> f x w1 = (Inl e, w'))"
  by (auto simp: bindM_def split: prod.splits sum.splits)

lemma scopeM_fails [raise_iff]:
  "scopeM m d w = (Inl e, w') \<longleftrightarrow> (\<exists>w1. m w = (Inl e, w1) \<and> w' = d w1)"
  by (auto simp: scopeM_def split: prod.splits)

lemma outerM_fails [raise_iff]:
  "outerM m lw = (Inl e, lw') \<longleftrightarrow> (\<exists>w'. m (snd lw) = (Inl e, w') \<and> lw' = (fst lw, w'))"
  by (auto simp: outerM_def split: prod.splits)

lemma localM_fails [raise_iff]: "localM f lw = (Inl e, lw') \<longleftrightarrow> False"
  by (auto simp: localM_def split: prod.splits)

lemma readM_fails [raise_iff]: "readM f lw = (Inl e, lw') \<longleftrightarrow> False"
  by (auto simp: readM_def split: prod.splits)

lemma catchM_fails [raise_iff]:
  "catchM m h w = (Inl e, w') \<longleftrightarrow>
     e = Undefined \<and> m w = (Inl Undefined, w') \<or>
     (\<exists>e1 w1. e1 \<noteq> Undefined \<and> m w = (Inl e1, w1) \<and> h e1 w1 = (Inl e, w'))"
  by (auto simp: catchM_def split: prod.splits sum.splits)

lemma with_local_fails [raise_iff]:
  "with_local l m w = (Inl e, w') \<longleftrightarrow> (\<exists>l'. m (l, w) = (Inl e, (l', w')))"
  by (auto simp: with_local_def split: prod.splits sum.splits)

lemma bindE_fails [raise_iff]:
  "bindE m f = Inl e \<longleftrightarrow> m = Inl e \<or> (\<exists>x. m = Inr x \<and> f x = Inl e)"
  by (auto simp: bindE_def split: sum.splits)

lemma guardE_fails [raise_iff]: "guardE b e = Inl e' \<longleftrightarrow> \<not> b \<and> e' = e"
  by (auto simp: guardE_def)

subsection \<open>The exceptions of a computation\<close>

lemma raises_onlyI: "(\<And>w e w'. m w = (Inl e, w') \<Longrightarrow> P e) \<Longrightarrow> raises_only P m"
  by (simp add: raises_only_def)

lemma raises_onlyD: "raises_only P m \<Longrightarrow> m w = (Inl e, w') \<Longrightarrow> P e"
  by (auto simp: raises_only_def)

lemma raises_only_mono: "raises_only P m \<Longrightarrow> (\<And>e. P e \<Longrightarrow> Q e) \<Longrightarrow> raises_only Q m"
  by (auto simp: raises_only_def)

lemma raises_only_returnM [raises_intros]: "raises_only P (returnM x)"
  by (simp add: raises_only_def raise_iff)

lemma raises_only_throwM [raises_intros]: "P e \<Longrightarrow> raises_only P (throwM e)"
  by (simp add: raises_only_def raise_iff)

lemma raises_only_guardM [raises_intros]: "(\<not> b \<Longrightarrow> P e) \<Longrightarrow> raises_only P (guardM b e)"
  by (simp add: raises_only_def raise_iff)

lemma raises_only_liftM: "(\<And>e. r = Inl e \<Longrightarrow> P e) \<Longrightarrow> raises_only P (liftM r)"
  by (simp add: raises_only_def raise_iff)

lemma raises_only_bindM [raises_intros]:
  "raises_only P m \<Longrightarrow> (\<And>x. raises_only P (f x)) \<Longrightarrow> raises_only P (bindM m f)"
  unfolding raises_only_def by (auto simp: raise_iff) blast+

lemma raises_only_bindM_dep:
  "raises_only P m \<Longrightarrow> (\<And>x w w'. m w = (Inr x, w') \<Longrightarrow> raises_only P (f x)) \<Longrightarrow> raises_only P (bindM m f)"
  unfolding raises_only_def by (auto simp: raise_iff) blast+

lemma raises_only_scopeM [raises_intros]: "raises_only P m \<Longrightarrow> raises_only P (scopeM m d)"
  unfolding raises_only_def by (auto simp: raise_iff)

lemma raises_only_outerM [raises_intros]: "raises_only P m \<Longrightarrow> raises_only P (outerM m)"
  unfolding raises_only_def by (auto simp: raise_iff)

lemma raises_only_localM [raises_intros]: "raises_only P (localM f)"
  unfolding raises_only_def by (simp add: raise_iff)

lemma raises_only_readM [raises_intros]: "raises_only P (readM f)"
  unfolding raises_only_def by (simp add: raise_iff)

lemma raises_only_with_local [raises_intros]: "raises_only P m \<Longrightarrow> raises_only P (with_local l m)"
  unfolding raises_only_def by (simp add: raise_iff) blast

lemma raises_only_if [raises_intros]:
  "(b \<Longrightarrow> raises_only P m) \<Longrightarrow> (\<not> b \<Longrightarrow> raises_only P n) \<Longrightarrow> raises_only P (if b then m else n)"
  by simp

lemma raises_only_forM [raises_intros]:
  "(\<And>x. x \<in> set xs \<Longrightarrow> raises_only P (f x)) \<Longrightarrow> raises_only P (forM xs f)"
  by (induction xs) (auto intro!: raises_intros)

lemma raises_only_catchM:
  assumes "raises_only Q m" and "\<And>e. Q e \<Longrightarrow> e \<noteq> Undefined \<Longrightarrow> raises_only P (h e)"
    and "Q Undefined \<Longrightarrow> P Undefined"
  shows "raises_only P (catchM m h)"
  using assms unfolding raises_only_def by (auto simp: raise_iff) blast+

text \<open>The handler chains never let a typed exception through unless a handler throws one.\<close>

lemma raises_only_catch_std:
  assumes "raises_only Q m" and "\<And>s. raises_only P (h s)"
    and "\<And>e. Q e \<Longrightarrow> \<not> is_std e \<Longrightarrow> P e"
  shows "raises_only P (catch_std m h)"
  unfolding catch_std_def
  by (rule raises_only_catchM [OF assms(1)]) (auto intro!: raises_intros intro: assms)

lemma raises_only_catch_chain:
  assumes "raises_only Q m" and "\<And>f. Q (Observation f) \<Longrightarrow> raises_only P (on_obs f)"
    and "\<And>s. raises_only P (on_std s)" and "raises_only P on_any"
    and "Q Undefined \<Longrightarrow> P Undefined"
  shows "raises_only P (catch_chain m on_obs on_std on_any)"
  unfolding catch_chain_def
  by (rule raises_only_catchM [OF assms(1)]) (auto intro: assms split: exn.split)

subsection \<open>Computations that always return\<close>

text \<open>\<open>returns m x\<close>: in every world \<open>m\<close> returns \<open>x\<close>.  \<open>takes m l x l'\<close>: with the local object \<open>l\<close>
  the computation returns \<open>x\<close> and leaves \<open>l'\<close>, in every world.\<close>

definition returns :: "('w, 'a) cpp \<Rightarrow> 'a \<Rightarrow> bool" where
  "returns m x \<longleftrightarrow> (\<forall>w. \<exists>w'. m w = (Inr x, w'))"

definition takes :: "('l \<times> 'w, 'a) cpp \<Rightarrow> 'l \<Rightarrow> 'a \<Rightarrow> 'l \<Rightarrow> bool" where
  "takes m l x l' \<longleftrightarrow> (\<forall>w. \<exists>w'. m (l, w) = (Inr x, (l', w')))"

named_theorems returns_intros "introduction rules for computations that return"

lemma returns_returnM [returns_intros]: "returns (returnM x) x"
  by (simp add: returns_def run_simps)

lemma returns_liftM [returns_intros]: "r = Inr x \<Longrightarrow> returns (liftM r) x"
  by (simp add: returns_def run_simps)

lemma returns_guardM [returns_intros]: "b \<Longrightarrow> returns (guardM b e) ()"
  by (simp add: returns_def run_simps)

lemma returns_bindM [returns_intros]: "returns m x \<Longrightarrow> returns (f x) y \<Longrightarrow> returns (bindM m f) y"
  unfolding returns_def by (metis bindM_run(1))

lemma returns_catchM [returns_intros]: "returns m x \<Longrightarrow> returns (catchM m h) x"
  unfolding returns_def by (metis catchM_run(1))

lemma returns_catch_std [returns_intros]: "returns m x \<Longrightarrow> returns (catch_std m h) x"
  unfolding catch_std_def by (rule returns_catchM)

lemma returns_scopeM [returns_intros]: "returns m x \<Longrightarrow> returns (scopeM m d) x"
  unfolding returns_def by (metis scopeM_run)

lemma returns_with_local: "takes m l () l' \<Longrightarrow> returns (with_local l m) l'"
  unfolding returns_def takes_def by (metis with_local_ok)

lemma takes_returnM [returns_intros]: "takes (returnM x) l x l"
  by (simp add: takes_def run_simps)

lemma takes_liftM [returns_intros]: "r = Inr x \<Longrightarrow> takes (liftM r) l x l"
  by (simp add: takes_def run_simps)

lemma takes_guardM [returns_intros]: "b \<Longrightarrow> takes (guardM b e) l () l"
  by (simp add: takes_def run_simps)

lemma takes_outerM [returns_intros]: "returns m x \<Longrightarrow> takes (outerM m) l x l"
  unfolding returns_def takes_def by (auto simp: run_simps split: prod.splits) (metis Pair_inject)

lemma takes_localM [returns_intros]: "takes (localM f) l () (f l)"
  by (simp add: takes_def run_simps)

lemma takes_readM [returns_intros]: "takes (readM f) l (f l) l"
  by (simp add: takes_def run_simps)

lemma takes_bindM [returns_intros]: "takes m l x l1 \<Longrightarrow> takes (f x) l1 y l2 \<Longrightarrow> takes (bindM m f) l y l2"
  unfolding takes_def by (metis bindM_run(1))

lemma takes_catchM [returns_intros]: "takes m l x l' \<Longrightarrow> takes (catchM m h) l x l'"
  unfolding takes_def by (metis catchM_run(1))

lemma takes_catch_std [returns_intros]: "takes m l x l' \<Longrightarrow> takes (catch_std m h) l x l'"
  unfolding catch_std_def by (rule takes_catchM)

lemma takes_scopeM [returns_intros]: "takes m l x l' \<Longrightarrow> takes (scopeM m (\<lambda>(l, w). (l, d w))) l x l'"
  unfolding takes_def by (metis (mono_tags, lifting) old.prod.case scopeM_run)

end
