(* ===== verification/Std_Text.thy ===== *)
theory Std_Text
  imports Cpp_Prelude
begin

text \<open>
  The text operations the fixture uses: searching and replacing in a \<^verbatim>\<open>std::string\<close>,
  \<^verbatim>\<open>std::to_string\<close> on unsigned values, and lower-case hexadecimal output, with the facts the
  components share: decimal text is canonical and can be read back, hexadecimal text is
  injective and is made of hexadecimal digits only.
\<close>

unbundle bit_operations_syntax

section \<open>Searching and replacing\<close>

text \<open>\<open>find_sub key s\<close> is \<^verbatim>\<open>s.find(key)\<close>: the first position where \<open>key\<close> occurs, \<open>None\<close> for
  \<^verbatim>\<open>npos\<close>.  A search from a later position is a search in the dropped text.\<close>

fun find_sub :: "'a list \<Rightarrow> 'a list \<Rightarrow> nat option" where
  "find_sub key s =
     (if take (length key) s = key then Some 0
      else case s of [] \<Rightarrow> None | _ # t \<Rightarrow> map_option Suc (find_sub key t))"

definition replace_at :: "nat \<Rightarrow> nat \<Rightarrow> string \<Rightarrow> string \<Rightarrow> string" where
  "replace_at at n v s = take at s @ v @ drop (at + n) s"

definition has_any_of :: "string \<Rightarrow> string \<Rightarrow> bool" where
  "has_any_of cs s \<longleftrightarrow> list_ex (\<lambda>c. c \<in> set cs) s"

section \<open>Decimal and hexadecimal text\<close>

definition is_digit :: "char \<Rightarrow> bool" where
  "is_digit c \<longleftrightarrow> CHR ''0'' \<le> c \<and> c \<le> CHR ''9''"

definition digit_char :: "nat \<Rightarrow> char" where
  "digit_char d = char_of (48 + d)"

definition digit_value :: "char \<Rightarrow> nat" where
  "digit_value c = of_char c - 48"

fun to_decimal :: "nat \<Rightarrow> string" where
  "to_decimal n = (if n < 10 then [digit_char n] else to_decimal (n div 10) @ [digit_char (n mod 10)])"

declare to_decimal.simps [simp del]

definition decimal_value :: "string \<Rightarrow> nat" where
  "decimal_value s = foldl (\<lambda>a c. 10 * a + digit_value c) 0 s"

definition hex_alphabet :: string where
  "hex_alphabet = ''0123456789abcdef''"

definition hex_byte :: "u8 \<Rightarrow> string" where
  "hex_byte b = [hex_alphabet ! unat (drop_bit 4 b), hex_alphabet ! unat (b AND 15)]"

definition hex_bytes :: "bytes \<Rightarrow> string" where
  "hex_bytes bs = concat (map hex_byte bs)"

definition is_hex_char :: "char \<Rightarrow> bool" where
  "is_hex_char c \<longleftrightarrow> is_digit c \<or> (CHR ''a'' \<le> c \<and> c \<le> CHR ''f'')"

section \<open>Facts about words\<close>

lemma unat_of_nat_small: "n < 2 ^ LENGTH('a) \<Longrightarrow> unat (of_nat n :: 'a::len word) = n"
  by (simp add: unat_of_nat)

section \<open>Facts about searching\<close>

declare find_sub.simps [simp del]

lemma find_sub_prefix: "find_sub key (key @ s) = Some 0"
  by (simp add: find_sub.simps)

text \<open>A text without the first character of the key has no occurrence, and prefixing such a text
  shifts the first occurrence.\<close>

lemma find_sub_skip:
  assumes "k \<notin> set xs"
  shows "find_sub (k # ks) (xs @ s) = map_option ((+) (length xs)) (find_sub (k # ks) s)"
  using assms
proof (induction xs)
  case Nil
  then show ?case by (simp add: option.map_ident)
next
  case (Cons x xs)
  then have "find_sub (k # ks) ((x # xs) @ s) = map_option Suc (find_sub (k # ks) (xs @ s))"
    by (subst find_sub.simps) auto
  with Cons show ?case by (simp add: option.map_comp comp_def)
qed

lemma find_sub_none:
  assumes "k \<notin> set xs"
  shows "find_sub (k # ks) xs = None"
  using find_sub_skip [OF assms, of ks "[]"] by (simp add: find_sub.simps)

lemma find_sub_mismatch:
  assumes "take (length key) (x # xs) \<noteq> key"
  shows "find_sub key (x # xs) = map_option Suc (find_sub key xs)"
  using assms by (subst find_sub.simps) simp

lemma has_any_of_iff: "has_any_of cs s \<longleftrightarrow> (\<exists>c \<in> set s. c \<in> set cs)"
  by (simp add: has_any_of_def list_ex_iff)

section \<open>Facts about decimal text\<close>

lemma char_le_iff: "(c :: char) \<le> d \<longleftrightarrow> (of_char c :: nat) \<le> of_char d"
  by (simp add: less_eq_char_def)

lemma is_digit_iff: "is_digit c \<longleftrightarrow> 48 \<le> (of_char c :: nat) \<and> (of_char c :: nat) \<le> 57"
  by (simp add: is_digit_def char_le_iff)

lemma digit_char_value: "d < 10 \<Longrightarrow> digit_value (digit_char d) = d"
  by (simp add: digit_value_def digit_char_def)

lemma digit_char_digit: "d < 10 \<Longrightarrow> is_digit (digit_char d)"
  by (simp add: is_digit_iff digit_char_def)

lemma digit_value_char: "is_digit c \<Longrightarrow> digit_char (digit_value c) = c"
  by (simp add: is_digit_iff digit_value_def digit_char_def)

lemma digit_value_less: "is_digit c \<Longrightarrow> digit_value c < 10"
  by (auto simp: is_digit_iff digit_value_def)

lemma to_decimal_digits: "list_all is_digit (to_decimal n)"
proof (induction n rule: to_decimal.induct)
  case (1 n)
  then show ?case by (subst to_decimal.simps) (simp add: digit_char_digit)
qed

lemma to_decimal_nonempty: "to_decimal n \<noteq> []"
  by (subst to_decimal.simps) simp

lemma decimal_value_snoc: "decimal_value (s @ [c]) = 10 * decimal_value s + digit_value c"
  by (simp add: decimal_value_def)

lemma decimal_value_Nil: "decimal_value [] = 0"
  by (simp add: decimal_value_def)

lemma decimal_value_to_decimal: "decimal_value (to_decimal n) = n"
proof (induction n rule: to_decimal.induct)
  case (1 n)
  show ?case
  proof (cases "n < 10")
    case True
    then show ?thesis
      by (subst to_decimal.simps) (simp add: decimal_value_def digit_char_value)
  next
    case False
    with 1 show ?thesis
      by (subst to_decimal.simps) (simp add: decimal_value_snoc digit_char_value)
  qed
qed

lemma to_decimal_inject: "to_decimal m = to_decimal n \<longleftrightarrow> m = n"
  by (metis decimal_value_to_decimal)

text \<open>Canonical decimal text: digits only, at least one, and no leading zero unless it is
  \<^verbatim>\<open>0\<close> itself.\<close>

definition canonical_decimal :: "string \<Rightarrow> bool" where
  "canonical_decimal s \<longleftrightarrow> s \<noteq> [] \<and> list_all is_digit s \<and> (hd s = CHR ''0'' \<longrightarrow> length s = 1)"

lemma digit_char_0: "digit_char 0 = CHR ''0''"
  by (simp add: digit_char_def char_of_def bit_simps)

lemma digit_value_zero: "is_digit c \<Longrightarrow> digit_value c = 0 \<longleftrightarrow> c = CHR ''0''"
  using digit_value_char [of c] digit_char_0 by (auto simp: digit_value_def)

lemma decimal_fold_grows: "a \<le> foldl (\<lambda>a c. 10 * a + digit_value c) a t"
proof (induction t arbitrary: a)
  case (Cons c t)
  have "a \<le> 10 * a + digit_value c" by simp
  also have "\<dots> \<le> foldl (\<lambda>a c. 10 * a + digit_value c) (10 * a + digit_value c) t" by (rule Cons)
  finally show ?case by simp
qed simp

lemma canonical_decimal_pos:
  assumes "canonical_decimal s" and "1 < length s"
  shows "1 \<le> decimal_value s"
proof -
  obtain c t where s: "s = c # t" using assms by (cases s) auto
  with assms have "digit_value c \<noteq> 0"
    by (auto simp: canonical_decimal_def digit_value_zero)
  with s decimal_fold_grows [of "digit_value c" t] show ?thesis by (simp add: decimal_value_def)
qed

text \<open>The printer produces exactly the canonical texts.\<close>

lemma to_decimal_value:
  assumes "canonical_decimal s"
  shows "to_decimal (decimal_value s) = s"
  using assms
proof (induction s rule: rev_induct)
  case Nil
  then show ?case by (simp add: canonical_decimal_def)
next
  case (snoc c s)
  then have c: "is_digit c" by (simp add: canonical_decimal_def)
  show ?case
  proof (cases "s = []")
    case True
    with c show ?thesis
      by (subst to_decimal.simps)
        (simp add: decimal_value_def digit_value_less digit_value_char)
  next
    case False
    with snoc.prems have can: "canonical_decimal s"
      by (auto simp: canonical_decimal_def hd_append)
    have "1 \<le> decimal_value s"
    proof (cases "1 < length s")
      case True
      with can show ?thesis by (rule canonical_decimal_pos)
    next
      case one: False
      with False obtain d where "s = [d]" by (cases s) auto
      with snoc.prems have "is_digit d" "d \<noteq> CHR ''0''"
        by (auto simp: canonical_decimal_def)
      then have "digit_value d \<noteq> 0" by (simp add: digit_value_zero)
      with \<open>s = [d]\<close> show ?thesis by (simp add: decimal_value_def)
    qed
    with snoc.IH [OF can] c show ?thesis
      by (subst to_decimal.simps) (simp add: decimal_value_snoc digit_value_less digit_value_char)
  qed
qed

lemma to_decimal_hd: "hd (to_decimal n) = CHR ''0'' \<Longrightarrow> n = 0"
proof (induction n rule: to_decimal.induct)
  case (1 n)
  show ?case
  proof (cases "n < 10")
    case True
    with "1.prems" show ?thesis
      by (subst (asm) to_decimal.simps)
        (metis digit_char_0 digit_char_value list.sel(1) zero_less_numeral)
  next
    case False
    with "1.prems" have "hd (to_decimal (n div 10)) = CHR ''0''"
      by (subst (asm) to_decimal.simps) (simp add: to_decimal_nonempty)
    with "1.IH" False have "n div 10 = 0" by simp
    with False show ?thesis by simp
  qed
qed

lemma to_decimal_canonical: "canonical_decimal (to_decimal n)"
proof -
  have "hd (to_decimal n) = CHR ''0'' \<Longrightarrow> length (to_decimal n) = 1"
    by (drule to_decimal_hd) (simp add: to_decimal.simps)
  then show ?thesis
    by (simp add: canonical_decimal_def to_decimal_digits to_decimal_nonempty)
qed

lemma canonical_decimal_iff: "canonical_decimal s \<longleftrightarrow> (\<exists>n. s = to_decimal n)"
  by (metis to_decimal_canonical to_decimal_value)

text \<open>The value of a prefix is at most the value of the text: reading never shrinks.\<close>

lemma decimal_value_append: "decimal_value s \<le> decimal_value (s @ t)"
proof (induction t rule: rev_induct)
  case (snoc c t)
  then show ?case
    by (simp add: decimal_value_snoc flip: append_assoc)
qed simp

section \<open>Facts about hexadecimal text\<close>

lemma unat_high_nibble: "unat (drop_bit 4 (b :: u8)) = unat b div 16"
  by (simp add: unat_drop_bit_eq) (simp add: drop_bit_eq_div)

lemma unat_low_nibble: "unat (b AND 15 :: u8) = unat b mod 16"
proof -
  have "b AND 15 = take_bit 4 b"
    by (simp add: take_bit_eq_mask mask_eq_exp_minus_1)
  then have "unat (b AND 15) = take_bit 4 (unat b)"
    by (simp only: unsigned_take_bit_eq)
  then show ?thesis
    by (simp add: take_bit_eq_mod)
qed

lemma high_nibble_bound: "unat (drop_bit 4 (b :: u8)) < 16"
  using unsigned_less [of b, where ?'a = nat] by (simp add: unat_high_nibble)

lemma low_nibble_bound: "unat (b AND 15 :: u8) < 16"
  by (simp add: unat_low_nibble)

lemma hex_alphabet_nth_inject:
  "i < 16 \<Longrightarrow> j < 16 \<Longrightarrow> hex_alphabet ! i = hex_alphabet ! j \<longleftrightarrow> i = j"
  by (rule nth_eq_iff_index_eq) (simp_all add: hex_alphabet_def)

lemma hex_alphabet_chars: "i < 16 \<Longrightarrow> is_hex_char (hex_alphabet ! i)"
proof -
  have "list_all is_hex_char hex_alphabet"
    by (simp add: hex_alphabet_def is_hex_char_def is_digit_def char_le_iff)
  moreover assume "i < 16"
  ultimately show ?thesis
    by (auto simp: list_all_length hex_alphabet_def)
qed

lemma length_hex_byte [simp]: "length (hex_byte b) = 2"
  by (simp add: hex_byte_def)

lemma length_hex_bytes [simp]: "length (hex_bytes bs) = 2 * length bs"
  by (induction bs) (simp_all add: hex_bytes_def)

lemma hex_bytes_chars: "list_all is_hex_char (hex_bytes bs)"
  by (induction bs)
    (simp_all add: hex_bytes_def hex_byte_def hex_alphabet_chars high_nibble_bound low_nibble_bound)

lemma hex_byte_inject: "hex_byte a = hex_byte b \<longleftrightarrow> a = b"
proof
  assume "hex_byte a = hex_byte b"
  then have "unat (drop_bit 4 a) = unat (drop_bit 4 b)" "unat (a AND 15) = unat (b AND 15)"
    using hex_alphabet_nth_inject [OF high_nibble_bound high_nibble_bound]
      hex_alphabet_nth_inject [OF low_nibble_bound low_nibble_bound]
    unfolding hex_byte_def by blast+
  then have "unat a div 16 = unat b div 16" "unat a mod 16 = unat b mod 16"
    unfolding unat_high_nibble unat_low_nibble .
  then have "unat a = unat b" by (metis div_mult_mod_eq)
  then show "a = b" by (simp add: word_eq_iff_unsigned [where ?'a = nat])
qed simp

lemma hex_bytes_inject: "hex_bytes a = hex_bytes b \<longleftrightarrow> a = b"
proof
  show "hex_bytes a = hex_bytes b \<Longrightarrow> a = b"
  proof (induction a arbitrary: b)
    case Nil
    then show ?case by (cases b) (simp_all add: hex_bytes_def hex_byte_def)
  next
    case (Cons x a)
    then obtain y b' where "b = y # b'"
      by (cases b) (simp_all add: hex_bytes_def hex_byte_def)
    with Cons show ?case by (simp add: hex_bytes_def hex_byte_inject)
  qed
qed simp

text \<open>Digits and hexadecimal digits are none of the characters that separate or delimit the
  texts of the fixture.\<close>

lemma digit_not_special:
  "is_digit c \<Longrightarrow> c \<noteq> CHR ''<'' \<and> c \<noteq> CHR 0x09 \<and> c \<noteq> CHR 0x0A \<and> c \<noteq> CHR 0x22 \<and> c \<noteq> CHR ''}'' \<and> c \<noteq> CHR ''-''"
  by (auto simp: is_digit_iff)

lemma hex_not_special:
  "is_hex_char c \<Longrightarrow> c \<noteq> CHR ''<'' \<and> c \<noteq> CHR 0x09 \<and> c \<noteq> CHR 0x0A \<and> c \<noteq> CHR 0x22 \<and> c \<noteq> CHR 0x5C"
  by (auto simp: is_hex_char_def is_digit_def char_le_iff)

end
