(* ===== verification/Std_Map.thy ===== *)
theory Std_Map
  imports Cpp_Prelude
begin

text \<open>
  \<^verbatim>\<open>std::map\<close> as the sources use it: an association list in strictly ascending key order, which
  is also the order its range-based \<^verbatim>\<open>for\<close> visits.  Keys of type \<open>string\<close> compare as in C++
  (by unsigned bytes, a proper prefix first), which is the order of the library theories
  imported by the prelude.  The interface the components rely on is the locale \<open>ordered_map\<close>,
  and its client lemmas (a map filled from a list of pairs) are proved there once.
\<close>

section \<open>Sorted association lists\<close>

type_synonym ('k, 'v) std_map = "('k \<times> 'v) list"
type_synonym file_map = "(string, string) std_map"

definition map_invar :: "('k::linorder, 'v) std_map \<Rightarrow> bool" where
  "map_invar m \<longleftrightarrow> sorted_wrt (<) (map fst m)"

text \<open>\<open>map_at\<close> is \<^verbatim>\<open>m.at(k)\<close> up to its exception, \<open>map_contains\<close> is \<^verbatim>\<open>m.contains(k)\<close>,
  \<open>map_emplace\<close> keeps a mapping that is there already, \<open>map_assign\<close> is \<^verbatim>\<open>m[k] = v\<close>.\<close>

definition map_at :: "('k, 'v) std_map \<Rightarrow> 'k \<Rightarrow> 'v option" where
  "map_at m k = map_of m k"

definition map_contains :: "('k, 'v) std_map \<Rightarrow> 'k \<Rightarrow> bool" where
  "map_contains m k \<longleftrightarrow> map_of m k \<noteq> None"

fun map_emplace :: "'k::linorder \<Rightarrow> 'v \<Rightarrow> ('k, 'v) std_map \<Rightarrow> ('k, 'v) std_map" where
  "map_emplace k v [] = [(k, v)]"
| "map_emplace k v ((k', v') # m) =
     (if k < k' then (k, v) # (k', v') # m
      else if k = k' then (k', v') # m
      else (k', v') # map_emplace k v m)"

fun map_assign :: "'k::linorder \<Rightarrow> 'v \<Rightarrow> ('k, 'v) std_map \<Rightarrow> ('k, 'v) std_map" where
  "map_assign k v [] = [(k, v)]"
| "map_assign k v ((k', v') # m) =
     (if k < k' then (k, v) # (k', v') # m
      else if k = k' then (k, v) # m
      else (k', v') # map_assign k v m)"

section \<open>The interface and its clients\<close>

locale ordered_map =
  fixes empty_map :: 'm
    and emplace :: "'k::linorder \<Rightarrow> 'v \<Rightarrow> 'm \<Rightarrow> 'm"
    and lookup :: "'m \<Rightarrow> 'k \<Rightarrow> 'v option"
    and entries :: "'m \<Rightarrow> ('k \<times> 'v) list"
    and invar :: "'m \<Rightarrow> bool"
  assumes invar_empty: "invar empty_map"
    and invar_emplace: "invar m \<Longrightarrow> invar (emplace k v m)"
    and lookup_empty: "lookup empty_map = Map.empty"
    and lookup_emplace:
      "invar m \<Longrightarrow> lookup (emplace k v m) = (if lookup m k = None then (lookup m)(k \<mapsto> v) else lookup m)"
    and entries_sorted: "invar m \<Longrightarrow> sorted_wrt (<) (map fst (entries m))"
    and lookup_entries: "invar m \<Longrightarrow> lookup m = map_of (entries m)"
begin

text \<open>Filling a map from a list of pairs: with distinct keys nothing is dropped, and the entries
  come out in key order whatever the order of the list.\<close>

primrec fill :: "('k \<times> 'v) list \<Rightarrow> 'm \<Rightarrow> 'm" where
  "fill [] m = m"
| "fill (kv # kvs) m = fill kvs (emplace (fst kv) (snd kv) m)"

lemma fill_invar: "invar m \<Longrightarrow> invar (fill kvs m)"
  by (induction kvs arbitrary: m) (simp_all add: invar_emplace)

lemma fill_lookup: "invar m \<Longrightarrow> lookup (fill kvs m) = map_of kvs ++ lookup m"
proof (induction kvs arbitrary: m)
  case (Cons kv kvs)
  then have "lookup (fill (kv # kvs) m) = map_of kvs ++ lookup (emplace (fst kv) (snd kv) m)"
    by (simp add: invar_emplace)
  with Cons.prems show ?case
    by (auto simp: lookup_emplace map_add_def fun_eq_iff split: option.splits)
qed simp

lemma fill_empty_lookup: "lookup (fill kvs empty_map) = map_of kvs"
  by (simp add: fill_lookup invar_empty lookup_empty)

lemma entries_distinct: "invar m \<Longrightarrow> distinct (map fst (entries m))"
  using entries_sorted [of m] strict_sorted_iff by blast

lemma entries_graph: "invar m \<Longrightarrow> set (entries m) = {(k, v). lookup m k = Some v}"
  by (auto simp: lookup_entries entries_distinct)

text \<open>The entries are determined by what the lookups return.\<close>

lemma entries_unique:
  assumes "invar m" and "invar n" and "lookup m = lookup n"
  shows "entries m = entries n"
proof -
  have "set (entries m) = set (entries n)"
    using assms by (simp add: entries_graph)
  then show ?thesis
    using map_sorted_distinct_set_unique [of fst "entries m" "entries n"]
      assms entries_sorted strict_sorted_iff
    by (metis entries_distinct distinct_map sup.idem)
qed

lemma fill_entries_set:
  assumes "distinct (map fst kvs)"
  shows "set (entries (fill kvs empty_map)) = set kvs"
  using assms by (auto simp: entries_graph fill_invar invar_empty fill_empty_lookup)

lemma fill_entries_keys:
  assumes "distinct (map fst kvs)"
  shows "map fst (entries (fill kvs empty_map)) = sort (map fst kvs)"
proof -
  have "sorted (map fst (entries (fill kvs empty_map)))"
    "distinct (map fst (entries (fill kvs empty_map)))"
    using entries_sorted [OF fill_invar [OF invar_empty], of kvs] strict_sorted_iff by blast+
  moreover have "set (map fst (entries (fill kvs empty_map))) = set (map fst kvs)"
    using fill_entries_set [OF assms] by simp
  ultimately show ?thesis
    using assms by (metis sorted_distinct_set_unique sorted_sort distinct_sort set_sort)
qed

end

section \<open>The sorted association list provides it\<close>

lemma map_emplace_keys: "fst ` set (map_emplace k v m) = insert k (fst ` set m)"
  by (induction k v m rule: map_emplace.induct) auto

lemma map_assign_keys: "fst ` set (map_assign k v m) = insert k (fst ` set m)"
  by (induction k v m rule: map_assign.induct) auto

lemma map_emplace_above:
  "(\<forall>kv \<in> set (map_emplace k v m). l < fst kv) \<longleftrightarrow> l < k \<and> (\<forall>kv \<in> set m. l < fst kv)"
  by (induction k v m rule: map_emplace.induct) auto

lemma map_assign_above:
  "(\<forall>kv \<in> set (map_assign k v m). l < fst kv) \<longleftrightarrow> l < k \<and> (\<forall>kv \<in> set m. l < fst kv)"
  by (induction k v m rule: map_assign.induct) auto

lemma map_emplace_invar: "map_invar m \<Longrightarrow> map_invar (map_emplace k v m)"
  by (induction k v m rule: map_emplace.induct)
    (auto simp: map_invar_def map_emplace_above dest: order.strict_trans)

lemma map_assign_invar: "map_invar m \<Longrightarrow> map_invar (map_assign k v m)"
  by (induction k v m rule: map_assign.induct)
    (auto simp: map_invar_def map_assign_above dest: order.strict_trans)

lemma map_of_emplace:
  "map_invar m \<Longrightarrow> map_of (map_emplace k v m) = (if map_of m k = None then (map_of m)(k \<mapsto> v) else map_of m)"
proof (induction k v m rule: map_emplace.induct)
  case (2 k v k' v' m)
  have "k < k' \<Longrightarrow> map_of ((k', v') # m) k = None"
    using "2.prems" by (force simp: map_invar_def map_of_eq_None_iff)
  with 2 show ?case
    by (auto simp: map_invar_def fun_eq_iff)
qed auto

lemma map_of_assign: "map_invar m \<Longrightarrow> map_of (map_assign k v m) = (map_of m)(k \<mapsto> v)"
  by (induction k v m rule: map_assign.induct) (auto simp: map_invar_def fun_eq_iff)

interpretation sorted_map: ordered_map "[]" map_emplace map_at "\<lambda>m. m" map_invar
  by unfold_locales
    (simp_all add: map_invar_def [of "[]"] map_at_def fun_eq_iff map_emplace_invar map_of_emplace,
     simp add: map_invar_def)

text \<open>Filling from a list that is in order already gives that list.\<close>

lemma fill_sorted: "map_invar kvs \<Longrightarrow> sorted_map.fill kvs [] = kvs"
  by (rule sorted_map.entries_unique)
    (simp_all add: sorted_map.fill_invar sorted_map.invar_empty sorted_map.fill_empty_lookup map_at_def fun_eq_iff)

lemma map_invar_zip: "map_invar m \<Longrightarrow> length vs = length m \<Longrightarrow> map_invar (zip (map fst m) vs)"
  by (simp add: map_invar_def)

end
