(* ===== verification/Contracts.thy ===== *)
theory Contracts
  imports Std_Text Std_Map
begin

text \<open>
  The contracts unit (\<^verbatim>\<open>contracts.hpp\<close>, \<^verbatim>\<open>contracts.cpp\<close>): verdicts and evidence, SHA-256 through
  the BCrypt provider, the canonical digest of a mutable file set, the two frozen fixture cases,
  the P10 template and its rendering, the P11 head record, and the strict decoder of the
  writer's result.

  The BCrypt provider is native code: it is the parameter \<open>bc\<close> of the definitions that hash, a
  record of the calls the source makes.  What the documentation promises of it is the
  predicate \<open>bcrypt_computes\<close>, a hypothesis of the theorems that need it.
\<close>

section \<open>Data\<close>

datatype verdict =
  Accept_current | Reject_restored_old | Reject_deleted | Reject_mismatch | Stop_inconclusive

record evidence =
  e_verdict :: verdict
  e_error :: error_kind
  e_attempt_id :: string
  e_utc_time :: string
  e_case_id :: string
  e_object :: string
  e_profile :: string
  e_step :: string
  e_detail :: string
  e_native_call :: string
  e_native_arguments :: string
  e_process_id :: string
  e_token_user_sid :: string
  e_broker_server_id :: string
  e_p11_before_sha256 :: string
  e_p11_after_sha256 :: string
  e_ntstatus :: int
  e_win32_error :: u32
  e_has_ntstatus :: bool
  e_has_win32_error :: bool
  e_process_reached :: bool
  e_broker_read_reached :: bool
  e_snapshot_complete :: bool
  e_before_inventory :: "string list"
  e_after_inventory :: "string list"
  e_held_file_ids :: file_map
  e_content_sha256 :: file_map
  e_expected_digest :: string
  e_observed_digest :: string
  e_p11_sha256 :: string

definition evidence_init :: evidence where
  "evidence_init = \<lparr>e_verdict = Stop_inconclusive, e_error = Err_none, e_attempt_id = [],
     e_utc_time = [], e_case_id = [], e_object = [], e_profile = [], e_step = [], e_detail = [],
     e_native_call = [], e_native_arguments = [], e_process_id = [], e_token_user_sid = [],
     e_broker_server_id = [], e_p11_before_sha256 = [], e_p11_after_sha256 = [],
     e_ntstatus = 0, e_win32_error = 0, e_has_ntstatus = False, e_has_win32_error = False,
     e_process_reached = False, e_broker_read_reached = False, e_snapshot_complete = False,
     e_before_inventory = [], e_after_inventory = [], e_held_file_ids = [],
     e_content_sha256 = [], e_expected_digest = [], e_observed_digest = [], e_p11_sha256 = []\<rparr>"

record writer_result =
  artifact_sha256 :: string
  artifact_bytes :: u32

record fixture_case =
  c_id :: string
  c_state :: string
  c_status :: string
  c_generation :: u32
  c_worker_runs :: u32
  c_old_files :: file_map
  c_latest_files :: file_map
  c_old_digest :: string
  c_latest_digest :: string

record sid_set =
  sid_writer :: string
  sid_controller :: string
  sid_broker :: string

record p10_build_hashes =
  h_broker :: string
  h_controller :: string
  h_writer :: string
  h_capture :: string

section \<open>Formats\<close>

definition hex64 :: "string \<Rightarrow> bool" where
  "hex64 s \<longleftrightarrow> length s = 64 \<and> list_all is_hex_char s"

text \<open>The loop of \<open>sid\<close> over the characters after \<^verbatim>\<open>S-1-\<close>; \<open>digit\<close> is the local of that name.\<close>

fun sid_scan :: "bool \<Rightarrow> string \<Rightarrow> bool" where
  "sid_scan digit [] \<longleftrightarrow> digit"
| "sid_scan digit (c # cs) \<longleftrightarrow>
     (if c = CHR ''-'' then (if \<not> digit then False else sid_scan False cs)
      else if is_digit c then sid_scan True cs
      else False)"

definition sid :: "string \<Rightarrow> bool" where
  "sid s \<longleftrightarrow>
     (if length s < 5 \<or> take 4 s \<noteq> ''S-1-'' \<or> last s = CHR ''-'' then False
      else sid_scan False (drop 4 s))"

text \<open>The loop of \<open>quoted\<close>; \<open>out\<close> is the text built so far.\<close>

fun quoted_loop :: "string \<Rightarrow> string \<Rightarrow> exn + string" where
  "quoted_loop out [] = Inr (out @ [CHR 0x22])"
| "quoted_loop out (c # cs) =
     (let out1 = (if c = CHR 0x22 \<or> c = CHR 0x5C then out @ [CHR 0x5C] else out)
      in if (of_char c :: nat) < 0x20 then Inl (Std Invalid_argument ''control character'')
         else quoted_loop (out1 @ [c]) cs)"

definition quoted :: "string \<Rightarrow> exn + string" where
  "quoted s = quoted_loop [CHR 0x22] s"

definition decimal :: "u32 \<Rightarrow> string" where
  "decimal n = to_decimal (unat n)"

section \<open>SHA-256 through BCrypt\<close>

text \<open>
  The provider calls of \<open>sha256\<close>: each takes the world and returns its NTSTATUS, the values it
  writes, and the new world.  Handles are numbers and 0 is the null handle.
\<close>

record 'w bcrypt =
  bc_open_algorithm :: "'w \<Rightarrow> (int \<times> nat) \<times> 'w"
  bc_create_hash :: "nat \<Rightarrow> 'w \<Rightarrow> (int \<times> nat) \<times> 'w"
  bc_hash_data :: "nat \<Rightarrow> string \<Rightarrow> 'w \<Rightarrow> int \<times> 'w"
  bc_finish_hash :: "nat \<Rightarrow> 'w \<Rightarrow> (int \<times> bytes) \<times> 'w"
  bc_destroy_hash :: "nat \<Rightarrow> 'w \<Rightarrow> 'w"
  bc_close_algorithm :: "nat \<Rightarrow> 'w \<Rightarrow> 'w"

definition ulong_max :: nat where
  "ulong_max = 4294967295"

text \<open>The three provider calls under \<^verbatim>\<open>if (status >= 0)\<close>: the status, the hash handle and the
  digest buffer after them.  The buffer starts as 32 zero bytes.\<close>

definition sha256_calls :: "'w bcrypt \<Rightarrow> nat \<Rightarrow> string \<Rightarrow> 'w \<Rightarrow> (int \<times> nat \<times> bytes) \<times> 'w" where
  "sha256_calls bc alg bs w =
     (case bc_create_hash bc alg w of ((st, hash), w1) \<Rightarrow>
      if \<not> 0 \<le> st then ((st, hash, replicate 32 0), w1) else
      (case bc_hash_data bc hash bs w1 of (st2, w2) \<Rightarrow>
       if \<not> 0 \<le> st2 then ((st2, hash, replicate 32 0), w2) else
       (case bc_finish_hash bc hash w2 of ((st3, digest), w3) \<Rightarrow> ((st3, hash, digest), w3))))"

definition sha256 :: "'w bcrypt \<Rightarrow> string \<Rightarrow> ('w, string) cpp" where
  "sha256 bc bs = (\<lambda>w.
     if ulong_max < length bs then (Inl (Std Length_error ''SHA-256 input too large''), w)
     else case bc_open_algorithm bc w of ((st0, alg), w0) \<Rightarrow>
       if st0 < 0 then (Inl (Std Runtime_error ''BCryptOpenAlgorithmProvider''), w0)
       else case sha256_calls bc alg bs w0 of ((st, hash, digest), w1) \<Rightarrow>
         let w2 = (if hash \<noteq> 0 then bc_destroy_hash bc hash w1 else w1);
             w3 = bc_close_algorithm bc alg w2
         in if st < 0 then (Inl (Std Runtime_error ''BCrypt SHA-256''), w3)
            else (Inr (hex_bytes digest), w3))"

section \<open>The canonical digest of a mutable file set\<close>

definition bad_child_name :: "string \<Rightarrow> bool" where
  "bad_child_name name \<longleftrightarrow> name = [] \<or> name = ''.'' \<or> name = ''..'' \<or>
     has_any_of [CHR ''/'', CHR 0x5C, CHR 0x0D, CHR 0x0A, CHR 0x09] name"

definition manifest_header :: string where
  "manifest_header = ''S1PF-MUTABLE-SET-V1'' @ [CHR 0x0A]"

definition manifest_line :: "string \<Rightarrow> nat \<Rightarrow> string \<Rightarrow> string" where
  "manifest_line name n digest =
     name @ [CHR 0x09] @ ''regular'' @ [CHR 0x09] @ to_decimal n @ [CHR 0x09] @ digest @ [CHR 0x0A]"

fun manifest_loop :: "'w bcrypt \<Rightarrow> string \<Rightarrow> file_map \<Rightarrow> ('w, string) cpp" where
  "manifest_loop bc manifest [] = returnM manifest"
| "manifest_loop bc manifest ((name, bs) # files) =
     bindM (guardM (\<not> bad_child_name name) (Std Invalid_argument ''invalid child name'')) (\<lambda>_.
     bindM (sha256 bc bs) (\<lambda>digest.
     manifest_loop bc (manifest @ manifest_line name (length bs) digest) files))"

definition mutable_digest :: "'w bcrypt \<Rightarrow> file_map \<Rightarrow> ('w, string) cpp" where
  "mutable_digest bc files = bindM (manifest_loop bc manifest_header files) (sha256 bc)"

section \<open>The frozen fixture cases\<close>

definition lock_bytes :: string where
  "lock_bytes = ''S1PF-LOCK-V1'' @ [CHR 0x0A]"

definition state_bytes :: "string \<Rightarrow> string \<Rightarrow> string \<Rightarrow> string" where
  \<open>state_bytes generation runs terminal =
     ''{"generation":'' @ generation @ '',"worker_runs":'' @ runs @ '',"terminal":'' @ terminal @
     ''}'' @ [CHR 0x0A]\<close>

definition frozen_case_data :: "fixture_case list" where
  "frozen_case_data =
     [\<lparr>c_id = ''spent-budget-active'', c_state = ''INIT'', c_status = ''ACTIVE'',
       c_generation = 1, c_worker_runs = 1,
       c_old_files = [(''lock.bin'', lock_bytes), (''state.json'', state_bytes ''0'' ''0'' ''false''),
         (''witness.txt'', ''S1PF-WITNESS-V1:0:0:ACTIVE'' @ [CHR 0x0A])],
       c_latest_files = [(''lock.bin'', lock_bytes), (''state.json'', state_bytes ''1'' ''1'' ''false''),
         (''witness.txt'', ''S1PF-WITNESS-V1:1:1:ACTIVE'' @ [CHR 0x0A])],
       c_old_digest = [], c_latest_digest = []\<rparr>,
      \<lparr>c_id = ''spent-budget-terminal'', c_state = ''HALT_HUMAN'', c_status = ''FAILED'',
       c_generation = 2, c_worker_runs = 1,
       c_old_files = [(''lock.bin'', lock_bytes), (''state.json'', state_bytes ''0'' ''0'' ''false''),
         (''witness.txt'', ''S1PF-WITNESS-V1:0:0:ACTIVE'' @ [CHR 0x0A])],
       c_latest_files = [(''lock.bin'', lock_bytes), (''state.json'', state_bytes ''2'' ''1'' ''true''),
         (''witness.txt'', ''S1PF-WITNESS-V1:2:1:FAILED'' @ [CHR 0x0A])],
       c_old_digest = [], c_latest_digest = []\<rparr>]"

text \<open>The loop that fills in the digests.\<close>

fun digest_cases :: "'w bcrypt \<Rightarrow> fixture_case list \<Rightarrow> ('w, fixture_case list) cpp" where
  "digest_cases bc [] = returnM []"
| "digest_cases bc (c # cs) =
     bindM (mutable_digest bc (c_old_files c)) (\<lambda>old.
     bindM (mutable_digest bc (c_latest_files c)) (\<lambda>latest.
     bindM (digest_cases bc cs) (\<lambda>rest.
     returnM (c\<lparr>c_old_digest := old, c_latest_digest := latest\<rparr> # rest))))"

definition fixture_cases :: "'w bcrypt \<Rightarrow> ('w, fixture_case list) cpp" where
  "fixture_cases bc = digest_cases bc frozen_case_data"

section \<open>The P10 template and its rendering\<close>

definition backslashes :: "nat \<Rightarrow> string" where
  "backslashes n = replicate n (CHR 0x5C)"

definition p10_text_0 :: string where
  \<open>p10_text_0 =
     ''{"schema_version":1,'' @ ''"run_id":"260926_A",'' @ ''"namespace_id":"s1pf-260926-a",'' @
     ''"repository_id":"s1pf-repo-260926-a",'' @ ''"task_id":"s1pf-task-260926-a-01",'' @
     ''"broker_path":"C:'' @ backslashes 2 @ ''S1PF_260926_A'' @ backslashes 2 @ ''bin'' @
     backslashes 2 @ ''broker.exe",'' @ ''"controller_path":"C:'' @ backslashes 2 @ ''S1PF_260926_A'' @
     backslashes 2 @ ''bin'' @ backslashes 2 @ ''controller.exe",'' @ ''"writer_path":"C:'' @
     backslashes 2 @ ''S1PF_260926_A'' @ backslashes 2 @ ''bin'' @ backslashes 2 @ ''writer.exe",'' @
     ''"capture_path":"C:'' @ backslashes 2 @ ''S1PF_260926_A'' @ backslashes 2 @ ''bin'' @
     backslashes 2 @ ''native_capture.exe",'' @ ''"pipe":"'' @ backslashes 4 @ ''.'' @ backslashes 2 @
     ''pipe'' @ backslashes 2 @ ''S1PF-broker-260926-A",'' @
     ''"broker_service":"S1PF_Broker_260926_A",'' @
     ''"controller_service":"S1PF_Controller_260926_A",'' @ ''"marker":"S1PF-260926-A-STAGE-A-V1",'' @
     ''"a1_sid":"''\<close>

definition p10_text_1 :: string where
  \<open>p10_text_1 = ''","a2_sid":"''\<close>

definition p10_text_2 :: string where
  \<open>p10_text_2 = ''","a3_sid":"''\<close>

definition p10_text_3 :: string where
  \<open>p10_text_3 = ''","broker_sha256":"''\<close>

definition p10_text_4 :: string where
  \<open>p10_text_4 = ''","controller_sha256":"''\<close>

definition p10_text_5 :: string where
  \<open>p10_text_5 = ''","writer_sha256":"''\<close>

definition p10_text_6 :: string where
  \<open>p10_text_6 = ''","capture_sha256":"''\<close>

definition p10_text_7 :: string where
  \<open>p10_text_7 = ''","active_old_digest":"''\<close>

definition p10_head :: string where
  "p10_head =
     p10_text_0 @ ''<PENDING_G2_A1_SID>'' @ p10_text_1 @ ''<PENDING_G2_A2_SID>'' @ p10_text_2 @
     ''<PENDING_G2_A3_SID>'' @ p10_text_3 @ ''<PENDING_G1_BROKER_SHA256>'' @ p10_text_4 @
     ''<PENDING_G1_CONTROLLER_SHA256>'' @ p10_text_5 @ ''<PENDING_G1_WRITER_SHA256>'' @ p10_text_6 @
     ''<PENDING_G1_CAPTURE_SHA256>'' @ p10_text_7"

definition p10_template :: "'w bcrypt \<Rightarrow> ('w, string) cpp" where
  \<open>p10_template bc =
     bindM (fixture_cases bc) (\<lambda>c1.
     bindM (fixture_cases bc) (\<lambda>c2.
     bindM (fixture_cases bc) (\<lambda>c3.
     bindM (fixture_cases bc) (\<lambda>c4.
     returnM (p10_head @ c_old_digest (c1 ! 0) @ ''","active_latest_digest":"'' @
       c_latest_digest (c2 ! 0) @ ''","terminal_old_digest":"'' @ c_old_digest (c3 ! 1) @
       ''","terminal_latest_digest":"'' @ c_latest_digest (c4 ! 1) @ ''"}'')))))\<close>

text \<open>The local lambda \<open>replace_one\<close>: the slot must occur exactly once.\<close>

definition replace_one :: "string \<Rightarrow> string \<Rightarrow> string \<Rightarrow> exn + string" where
  "replace_one key v out =
     (case find_sub key out of
        None \<Rightarrow> Inl (Std Logic_error ''template slot'')
      | Some at \<Rightarrow>
          if find_sub key (drop (at + length key) out) \<noteq> None
          then Inl (Std Logic_error ''template slot'')
          else Inr (replace_at at (length key) v out))"

definition render_slots :: "sid_set \<Rightarrow> p10_build_hashes \<Rightarrow> string \<Rightarrow> exn + string" where
  "render_slots sids hashes out =
     bindE (replace_one ''<PENDING_G2_A1_SID>'' (sid_writer sids) out) (\<lambda>out.
     bindE (replace_one ''<PENDING_G2_A2_SID>'' (sid_controller sids) out) (\<lambda>out.
     bindE (replace_one ''<PENDING_G2_A3_SID>'' (sid_broker sids) out) (\<lambda>out.
     bindE (replace_one ''<PENDING_G1_BROKER_SHA256>'' (h_broker hashes) out) (\<lambda>out.
     bindE (replace_one ''<PENDING_G1_CONTROLLER_SHA256>'' (h_controller hashes) out) (\<lambda>out.
     bindE (replace_one ''<PENDING_G1_WRITER_SHA256>'' (h_writer hashes) out) (\<lambda>out.
     replace_one ''<PENDING_G1_CAPTURE_SHA256>'' (h_capture hashes) out))))))"

definition distinct_sids :: "sid_set \<Rightarrow> bool" where
  "distinct_sids sids \<longleftrightarrow> sid (sid_writer sids) \<and> sid (sid_controller sids) \<and> sid (sid_broker sids) \<and>
     sid_writer sids \<noteq> sid_controller sids \<and> sid_writer sids \<noteq> sid_broker sids \<and>
     sid_controller sids \<noteq> sid_broker sids"

definition reviewed_hashes :: "p10_build_hashes \<Rightarrow> bool" where
  "reviewed_hashes hashes \<longleftrightarrow> hex64 (h_broker hashes) \<and> hex64 (h_controller hashes) \<and>
     hex64 (h_writer hashes) \<and> hex64 (h_capture hashes)"

definition render_p10 :: "'w bcrypt \<Rightarrow> sid_set \<Rightarrow> p10_build_hashes \<Rightarrow> ('w, string) cpp" where
  "render_p10 bc sids hashes =
     bindM (guardM (distinct_sids sids) (Std Invalid_argument ''distinct created SIDs required'')) (\<lambda>_.
     bindM (guardM (reviewed_hashes hashes) (Std Invalid_argument ''reviewed executable hashes required'')) (\<lambda>_.
     bindM (p10_template bc) (\<lambda>out.
     liftM (render_slots sids hashes out))))"

section \<open>The P11 head record\<close>

definition render_p11 :: "fixture_case \<Rightarrow> string \<Rightarrow> exn + string" where
  \<open>render_p11 fixture rendered_p10_sha256 =
     bindE (guardE (hex64 rendered_p10_sha256) (Std Invalid_argument ''rendered P10 hash required'')) (\<lambda>_.
     bindE (quoted rendered_p10_sha256) (\<lambda>p10.
     bindE (quoted (c_id fixture)) (\<lambda>case_id.
     bindE (quoted (c_latest_digest fixture)) (\<lambda>latest.
     Inr (''{"schema_version":1,"marker":"S1PF-260926-A-STAGE-A-V1","p10_sha256":'' @ p10 @
       '',"case_id":'' @ case_id @ '',"latest_digest":'' @ latest @
       '',"generation":'' @ decimal (c_generation fixture) @
       '',"worker_runs":'' @ decimal (c_worker_runs fixture) @
       '',"terminal":'' @ (if c_status fixture = ''FAILED'' then ''true'' else ''false'') @ ''}'')))))\<close>

section \<open>The writer result\<close>

definition wr_prefix :: string where
  \<open>wr_prefix = ''{"schema_version":1,"artifact_sha256":"''\<close>

definition wr_middle :: string where
  \<open>wr_middle = ''","artifact_bytes":''\<close>

text \<open>The decimal loop, on the 32-bit accumulator \<open>artifact_bytes\<close>.\<close>

fun wr_decimal :: "u32 \<Rightarrow> string \<Rightarrow> exn + u32" where
  "wr_decimal acc [] = Inr acc"
| "wr_decimal acc (c # cs) =
     (let d = of_nat (digit_value c) :: u32
      in if \<not> is_digit c \<or> (1048576 - d) div 10 < acc
         then Inl (Std Invalid_argument ''writer result decimal range'')
         else wr_decimal (acc * 10 + d) cs)"

definition parse_writer_result :: "string \<Rightarrow> exn + writer_result" where
  "parse_writer_result bs =
     bindE (guardE (\<not> 256 < length bs) (Std Length_error ''writer result over 256 bytes'')) (\<lambda>_.
     bindE (guardE (take (length wr_prefix) bs = wr_prefix)
       (Std Invalid_argument ''writer result prefix'')) (\<lambda>_.
     let bs1 = drop (length wr_prefix) bs in
     bindE (guardE (\<not> (length bs1 < 64 + length wr_middle + 2 \<or> \<not> hex64 (take 64 bs1)))
       (Std Invalid_argument ''writer result digest'')) (\<lambda>_.
     let bs2 = drop 64 bs1 in
     bindE (guardE (take (length wr_middle) bs2 = wr_middle)
       (Std Invalid_argument ''writer result fields'')) (\<lambda>_.
     let bs3 = drop (length wr_middle) bs2 in
     bindE (guardE (\<not> (length bs3 < 2 \<or> last bs3 \<noteq> CHR ''}'' \<or> (bs3 ! 0 = CHR ''0'' \<and> length bs3 \<noteq> 2)))
       (Std Invalid_argument ''writer result decimal'')) (\<lambda>_.
     bindE (wr_decimal 0 (butlast bs3)) (\<lambda>n.
     Inr \<lparr>artifact_sha256 = take 64 bs1, artifact_bytes = n\<rparr>))))))"

definition writer_result_evidence :: "string \<Rightarrow> string \<Rightarrow> u32 \<Rightarrow> exn + evidence" where
  "writer_result_evidence bs actual_m5_sha256 actual_m5_bytes =
     (let e = evidence_init\<lparr>e_object := ''M4/writer-result.json'', e_profile := ''data-only-v1'',
                e_step := ''parse-and-correlate''\<rparr>
      in case parse_writer_result bs of
           Inr parsed \<Rightarrow>
             if artifact_sha256 parsed \<noteq> actual_m5_sha256 \<or> artifact_bytes parsed \<noteq> actual_m5_bytes
             then Inr (e\<lparr>e_verdict := Reject_mismatch, e_detail := ''M5 correlation mismatch''\<rparr>)
             else Inr (e\<lparr>e_verdict := Accept_current, e_detail := ''DATA_ACCEPTED only''\<rparr>)
         | Inl (Std Length_error msg) \<Rightarrow> Inr (e\<lparr>e_error := Err_oversized, e_detail := msg\<rparr>)
         | Inl (Std Invalid_argument msg) \<Rightarrow> Inr (e\<lparr>e_error := Err_malformed, e_detail := msg\<rparr>)
         | Inl ex \<Rightarrow> Inl ex)"

section \<open>Names\<close>

primrec verdict_name :: "verdict \<Rightarrow> string" where
  "verdict_name Accept_current = ''ACCEPT_CURRENT''"
| "verdict_name Reject_restored_old = ''REJECT_RESTORED_OLD''"
| "verdict_name Reject_deleted = ''REJECT_DELETED''"
| "verdict_name Reject_mismatch = ''REJECT_MISMATCH''"
| "verdict_name Stop_inconclusive = ''STOP_INCONCLUSIVE''"

primrec error_name :: "error_kind \<Rightarrow> string" where
  "error_name Err_none = ''NONE''"
| "error_name Err_malformed = ''MALFORMED''"
| "error_name Err_oversized = ''OVERSIZED''"
| "error_name Err_incomplete = ''INCOMPLETE''"
| "error_name Err_sharing_conflict = ''SHARING_CONFLICT''"
| "error_name Err_reparse = ''REPARSE''"
| "error_name Err_identity_drift = ''IDENTITY_DRIFT''"
| "error_name Err_unexpected_entry = ''UNEXPECTED_ENTRY''"
| "error_name Err_native_failure = ''NATIVE_FAILURE''"
| "error_name Err_binding_failure = ''BINDING_FAILURE''"
| "error_name Err_hash_failure = ''HASH_FAILURE''"

section \<open>What the provider promises, and what hashing then returns\<close>

text \<open>The documented behaviour of the BCrypt hashing calls: a create, hash-data, finish sequence
  whose three statuses are successes leaves the 32-byte digest \<open>H\<close> of the hashed bytes.\<close>

definition digest32 :: "(string \<Rightarrow> bytes) \<Rightarrow> bool" where
  "digest32 H \<longleftrightarrow> (\<forall>bs. length (H bs) = 32)"

definition bcrypt_computes :: "'w bcrypt \<Rightarrow> (string \<Rightarrow> bytes) \<Rightarrow> bool" where
  "bcrypt_computes bc H \<longleftrightarrow> digest32 H \<and>
     (\<forall>alg bs w st h w1 st2 w2 st3 d w3.
        bc_create_hash bc alg w = ((st, h), w1) \<and> 0 \<le> st \<and>
        bc_hash_data bc h bs w1 = (st2, w2) \<and> 0 \<le> st2 \<and>
        bc_finish_hash bc h w2 = ((st3, d), w3) \<and> 0 \<le> st3 \<longrightarrow> d = H bs)"

text \<open>A provider that satisfies it for any 32-byte function: it keeps the hashed bytes in its
  world.\<close>

definition bcrypt_of :: "(string \<Rightarrow> bytes) \<Rightarrow> string bcrypt" where
  "bcrypt_of H = \<lparr>bc_open_algorithm = (\<lambda>w. ((0, 1), w)), bc_create_hash = (\<lambda>alg w. ((0, 1), [])),
     bc_hash_data = (\<lambda>h bs w. (0, bs)), bc_finish_hash = (\<lambda>h w. ((0, H w), w)),
     bc_destroy_hash = (\<lambda>h w. w), bc_close_algorithm = (\<lambda>alg w. w)\<rparr>"

text \<open>A concrete 32-byte function for the witnesses: the first 32 bytes, padded with zeros.\<close>

definition pad_digest :: "string \<Rightarrow> bytes" where
  "pad_digest s = take 32 (map of_char s @ replicate 32 0)"

locale digest_service =
  fixes computes :: "'p \<Rightarrow> (string \<Rightarrow> bytes) \<Rightarrow> bool"
    and hash :: "'p \<Rightarrow> string \<Rightarrow> ('w, string) cpp"
  assumes hash_value: "computes p H \<Longrightarrow> hash p bs w = (Inr r, w') \<Longrightarrow> r = hex_bytes (H bs)"
    and hash_size: "computes p H \<Longrightarrow> length (H bs) = 32"
begin

lemma hash_agrees:
  "computes p H \<Longrightarrow> hash p bs w = (Inr r, w') \<Longrightarrow> hash p bs v = (Inr r', v') \<Longrightarrow> r = r'"
  using hash_value by blast

lemma hash_hex64: "computes p H \<Longrightarrow> hash p bs w = (Inr r, w') \<Longrightarrow> hex64 r"
  using hash_value [of p H bs w r w'] hash_size [of p H bs]
  by (simp add: hex64_def hex_bytes_chars)

text \<open>Equal digests of different texts are a collision of the underlying function.\<close>

lemma hash_collision:
  "computes p H \<Longrightarrow> hash p bs w = (Inr r, w') \<Longrightarrow> hash p bs' v = (Inr r, v') \<Longrightarrow> H bs = H bs'"
  using hash_value hex_bytes_inject by metis

end

lemma sha256_ok:
  assumes "sha256 bc bs w = (Inr r, w')"
  shows "\<exists>alg w0 hash digest st w1. sha256_calls bc alg bs w0 = ((st, hash, digest), w1) \<and> 0 \<le> st \<and>
    r = hex_bytes digest \<and> length bs \<le> ulong_max"
  using assms
  by (auto simp: sha256_def Let_def split: if_splits prod.splits) (metis linorder_not_less)+

lemma sha256_calls_ok:
  assumes "sha256_calls bc alg bs w = ((st, hash, digest), w')" and "0 \<le> st" and "bcrypt_computes bc H"
  shows "digest = H bs"
  using assms unfolding bcrypt_computes_def sha256_calls_def
  by (auto split: prod.splits if_splits) blast

interpretation bcrypt_hash: digest_service bcrypt_computes sha256
proof
  fix p :: "'w bcrypt" and H bs w r w'
  assume c: "bcrypt_computes p H"
  show "length (H bs) = 32" using c by (simp add: bcrypt_computes_def digest32_def)
  assume "sha256 p bs w = (Inr r, w')"
  from sha256_ok [OF this] sha256_calls_ok [OF _ _ c] show "r = hex_bytes (H bs)" by blast
qed

lemma bcrypt_of_computes: "digest32 H \<Longrightarrow> bcrypt_computes (bcrypt_of H) H"
  by (auto simp: bcrypt_computes_def bcrypt_of_def)

lemma sha256_bcrypt_of [run_simps]:
  "sha256 (bcrypt_of H) bs w = (if length bs \<le> ulong_max then (Inr (hex_bytes (H bs)), bs)
     else (Inl (Std Length_error ''SHA-256 input too large''), w))"
  by (simp add: sha256_def sha256_calls_def bcrypt_of_def)

lemma pad_digest32: "digest32 pad_digest"
  by (auto simp: digest32_def pad_digest_def min_def)

lemma pad_digest_computes: "bcrypt_computes (bcrypt_of pad_digest) pad_digest"
  by (rule bcrypt_of_computes [OF pad_digest32])

text \<open>Hashing raises standard exceptions only.\<close>

abbreviation std_only :: "exn \<Rightarrow> bool" where
  "std_only e \<equiv> \<exists>c m. e = Std c m"

lemma sha256_raises [raises_intros]: "raises_only std_only (sha256 bc bs)"
  by (auto simp: raises_only_def sha256_def Let_def split: if_splits prod.splits)

lemma manifest_loop_raises [raises_intros]: "raises_only std_only (manifest_loop bc m files)"
  by (induction bc m files rule: manifest_loop.induct) (auto intro!: raises_intros)

lemma mutable_digest_raises [raises_intros]: "raises_only std_only (mutable_digest bc files)"
  by (auto simp: mutable_digest_def intro!: raises_intros)

lemma digest_cases_raises [raises_intros]: "raises_only std_only (digest_cases bc cs)"
  by (induction bc cs rule: digest_cases.induct) (auto intro!: raises_intros)

lemma fixture_cases_raises [raises_intros]: "raises_only std_only (fixture_cases bc)"
  by (auto simp: fixture_cases_def intro!: raises_intros)

lemma p10_template_raises [raises_intros]: "raises_only std_only (p10_template bc)"
  by (auto simp: p10_template_def intro!: raises_intros)

lemma replace_one_fails: "replace_one k v out = Inl e \<Longrightarrow> e = Std Logic_error ''template slot''"
  by (auto simp: replace_one_def split: option.splits if_splits)

lemma render_slots_fails: "render_slots sids hashes out = Inl e \<Longrightarrow> e = Std Logic_error ''template slot''"
  by (auto simp: render_slots_def raise_iff dest: replace_one_fails)

lemma render_p10_raises [raises_intros]: "raises_only std_only (render_p10 bc sids hashes)"
  by (auto simp: render_p10_def intro!: raises_intros raises_only_liftM dest: render_slots_fails)

section \<open>The mutable-set digest binds the file set\<close>

definition manifest_of :: "(string \<Rightarrow> bytes) \<Rightarrow> file_map \<Rightarrow> string" where
  "manifest_of H files = manifest_header @
     concat (map (\<lambda>(name, bs). manifest_line name (length bs) (hex_bytes (H bs))) files)"

lemma manifest_loop_value:
  assumes "bcrypt_computes bc H" and "manifest_loop bc m files w = (Inr r, w')"
  shows "r = m @ concat (map (\<lambda>(name, bs). manifest_line name (length bs) (hex_bytes (H bs))) files) \<and>
    list_all (\<lambda>(name, bs). \<not> bad_child_name name) files"
  using assms(2)
proof (induction files arbitrary: m w)
  case (Cons f files)
  obtain name bs where f: "f = (name, bs)" by (cases f)
  from Cons.prems [unfolded f] obtain d w1 w2 where ok: "\<not> bad_child_name name"
    and d: "sha256 bc bs w1 = (Inr d, w2)"
    and rest: "manifest_loop bc (m @ manifest_line name (length bs) d) files w2 = (Inr r, w')"
    by (auto simp: run_iff)
  with Cons.IH [OF rest] bcrypt_hash.hash_value [OF assms(1) d] f show ?case by simp
qed (simp add: run_iff)

lemma mutable_digest_value:
  assumes "bcrypt_computes bc H" and "mutable_digest bc files w = (Inr d, w')"
  shows "d = hex_bytes (H (manifest_of H files)) \<and> list_all (\<lambda>(name, bs). \<not> bad_child_name name) files"
  using assms manifest_loop_value [OF assms(1)] bcrypt_hash.hash_value [OF assms(1)]
  unfolding mutable_digest_def manifest_of_def by (auto simp: run_iff)

lemma manifest_loop_bcrypt_of:
  assumes "list_all (\<lambda>(name, bs). \<not> bad_child_name name \<and> length bs \<le> ulong_max) files"
  shows "\<exists>w'. manifest_loop (bcrypt_of H) m files w =
    (Inr (m @ concat (map (\<lambda>(name, bs). manifest_line name (length bs) (hex_bytes (H bs))) files)), w')"
  using assms
proof (induction files arbitrary: m w)
  case (Cons f files)
  then show ?case by (cases f) (auto simp: run_simps simp flip: append_assoc)
qed (simp add: run_simps)

lemma mutable_digest_bcrypt_of:
  assumes "list_all (\<lambda>(name, bs). \<not> bad_child_name name \<and> length bs \<le> ulong_max) files"
    and "length (manifest_of H files) \<le> ulong_max"
  shows "mutable_digest (bcrypt_of H) files w =
    (Inr (hex_bytes (H (manifest_of H files))), manifest_of H files)"
proof -
  obtain w' where "manifest_loop (bcrypt_of H) manifest_header files w = (Inr (manifest_of H files), w')"
    using manifest_loop_bcrypt_of [OF assms(1), of H manifest_header w] by (auto simp: manifest_of_def)
  then show ?thesis using assms(2) by (simp add: mutable_digest_def run_simps)
qed

lemma good_name_no_sep: "\<not> bad_child_name name \<Longrightarrow> CHR 0x09 \<notin> set name \<and> CHR 0x0A \<notin> set name"
  by (auto simp: bad_child_name_def has_any_of_iff)

text \<open>A field up to its separator determines the rest: the parsing step of the injectivity
  argument.\<close>

lemma append_sep_eq:
  "c \<notin> set xs \<Longrightarrow> c \<notin> set ys \<Longrightarrow> xs @ c # s = ys @ c # t \<longleftrightarrow> xs = ys \<and> s = t"
proof (induction xs arbitrary: ys)
  case Nil
  then show ?case by (cases ys) auto
next
  case (Cons x xs)
  then show ?case by (cases ys) auto
qed

lemma manifest_line_eq:
  assumes "\<not> bad_child_name n1" and "\<not> bad_child_name n2"
  shows "manifest_line n1 l1 (hex_bytes d1) @ s = manifest_line n2 l2 (hex_bytes d2) @ t \<longleftrightarrow>
    n1 = n2 \<and> l1 = l2 \<and> d1 = d2 \<and> s = t"
proof -
  have dec: "CHR 0x09 \<notin> set (to_decimal l)" for l
    using to_decimal_digits [of l] digit_not_special by (auto simp: list_all_iff)
  have hex: "CHR 0x0A \<notin> set (hex_bytes d)" for d
    using hex_bytes_chars [of d] hex_not_special by (auto simp: list_all_iff)
  show ?thesis
    using assms good_name_no_sep [OF assms(1)] good_name_no_sep [OF assms(2)]
    by (simp add: manifest_line_def append_sep_eq dec hex to_decimal_inject hex_bytes_inject)
qed

lemma manifest_of_inject:
  assumes "list_all (\<lambda>(name, bs). \<not> bad_child_name name) f"
    and "list_all (\<lambda>(name, bs). \<not> bad_child_name name) g"
    and "manifest_of H f = manifest_of H g"
  shows "map (\<lambda>(name, bs). (name, length bs, H bs)) f = map (\<lambda>(name, bs). (name, length bs, H bs)) g"
proof -
  let ?body = "\<lambda>f. concat (map (\<lambda>(name, bs). manifest_line name (length bs) (hex_bytes (H bs))) f)"
  have "?body f = ?body g" using assms(3) by (simp add: manifest_of_def)
  then show ?thesis using assms(1,2)
  proof (induction f arbitrary: g)
    case Nil
    then show ?case by (cases g) (auto simp: manifest_line_def)
  next
    case (Cons x f)
    then obtain y g' where g: "g = y # g'"
      by (cases g) (auto simp: manifest_line_def split: prod.splits)
    with Cons show ?case
      by (cases x; cases y) (auto simp: manifest_line_eq)
  qed
qed

text \<open>The texts that are hashed for a file map: its manifest and its contents.\<close>

definition digested :: "(string \<Rightarrow> bytes) \<Rightarrow> file_map \<Rightarrow> string set" where
  "digested H f = insert (manifest_of H f) (snd ` set f)"

lemma file_map_eq_from_hashes:
  assumes "map (\<lambda>(name, bs). (name, length bs, H bs)) f = map (\<lambda>(name, bs). (name, length bs, H bs)) g"
    and "\<And>x y. x \<in> snd ` set f \<Longrightarrow> y \<in> snd ` set g \<Longrightarrow> H x = H y \<Longrightarrow> x = y"
  shows "f = g"
proof (rule nth_equalityI)
  show len: "length f = length g" using assms(1) map_eq_imp_length_eq by blast
  fix i assume i: "i < length f"
  obtain n c n' c' where fg: "f ! i = (n, c)" "g ! i = (n', c')" by (cases "f ! i"; cases "g ! i")
  have "(n, c) \<in> set f" "(n', c') \<in> set g" using i len fg nth_mem by (metis, metis)
  then have "c \<in> snd ` set f" "c' \<in> snd ` set g" by force+
  moreover have "n = n' \<and> H c = H c'"
    using arg_cong [OF assms(1), of "\<lambda>xs. xs ! i"] i len fg by simp
  ultimately show "f ! i = g ! i" using assms(2) fg by simp
qed

text \<open>\<^bold>\<open>C14.\<close> The digest of a mutable set binds the set: two file maps with the same
  \<open>mutable_digest\<close> are the same map, unless a collision of the hash function is found among the
  very texts that were hashed for them (the two manifests and the file contents).  Names, lengths
  and contents are all covered, and no separator can be confused with a part of a name.\<close>

theorem mutable_digest_binds:
  assumes "bcrypt_computes bc H"
    and "mutable_digest bc f w = (Inr d, w')" and "mutable_digest bc g v = (Inr d, v')"
  shows "f = g \<or> (\<exists>x \<in> digested H f. \<exists>y \<in> digested H g. x \<noteq> y \<and> H x = H y)"
proof (rule disjCI)
  assume nocoll: "\<not> (\<exists>x \<in> digested H f. \<exists>y \<in> digested H g. x \<noteq> y \<and> H x = H y)"
  from mutable_digest_value [OF assms(1,2)] mutable_digest_value [OF assms(1,3)]
  have names: "list_all (\<lambda>(name, bs). \<not> bad_child_name name) f"
      "list_all (\<lambda>(name, bs). \<not> bad_child_name name) g"
    and "H (manifest_of H f) = H (manifest_of H g)"
    by (auto simp: hex_bytes_inject)
  with nocoll have "manifest_of H f = manifest_of H g" by (auto simp: digested_def)
  with names have "map (\<lambda>(name, bs). (name, length bs, H bs)) f = map (\<lambda>(name, bs). (name, length bs, H bs)) g"
    by (rule manifest_of_inject)
  then show "f = g"
    by (rule file_map_eq_from_hashes) (use nocoll in \<open>auto simp: digested_def\<close>)
qed

theorem mutable_digest_binds_witness:
  "\<exists>x \<in> digested pad_digest [(''a'', ''x'')]. \<exists>y \<in> digested pad_digest [(''a'', ''y'')].
     x \<noteq> y \<and> pad_digest x = pad_digest y"
proof -
  have "length (manifest_of pad_digest [(''a'', [c])]) \<le> ulong_max" for c
    by (simp add: manifest_of_def manifest_header_def manifest_line_def pad_digest_def
        to_decimal.simps ulong_max_def)
  then have run: "mutable_digest (bcrypt_of pad_digest) [(''a'', [c])] [] =
      (Inr (hex_bytes (pad_digest (manifest_of pad_digest [(''a'', [c])]))), manifest_of pad_digest [(''a'', [c])])" for c
    by (intro mutable_digest_bcrypt_of) (simp_all add: bad_child_name_def has_any_of_def ulong_max_def)
  have same: "pad_digest (manifest_of pad_digest [(''a'', ''x'')]) = pad_digest (manifest_of pad_digest [(''a'', ''y'')])"
    by (simp add: pad_digest_def manifest_of_def manifest_header_def manifest_line_def to_decimal.simps)
  from mutable_digest_binds [OF pad_digest_computes run [of "CHR ''x''"] run [of "CHR ''y''", folded same]]
  show ?thesis by simp
qed

section \<open>The decoder of the writer result accepts exactly the canonical texts\<close>

definition writer_result_text :: "string \<Rightarrow> nat \<Rightarrow> string" where
  "writer_result_text h n = wr_prefix @ h @ wr_middle @ to_decimal n @ ''}''"

text \<open>The overflow test of the loop, read on numbers.\<close>

lemma wr_range_test:
  assumes "is_digit c" and "unat acc \<le> 1048576"
  shows "(1048576 - (of_nat (digit_value c) :: u32)) div 10 < acc \<longleftrightarrow>
      1048576 < 10 * unat acc + digit_value c"
proof -
  have d: "digit_value c \<le> 9" using digit_value_less [OF assms(1)] by simp
  have u: "unat (of_nat (digit_value c) :: u32) = digit_value c"
    using d by (intro unat_of_nat_small) simp
  have "of_nat (digit_value c) \<le> (1048576 :: u32)"
    using d u by (simp add: word_le_nat_alt)
  then have "unat ((1048576 - (of_nat (digit_value c) :: u32)) div 10) = (1048576 - digit_value c) div 10"
    using u by (simp add: unat_div unat_sub)
  then show ?thesis using d by (auto simp: word_less_nat_alt)
qed

lemma wr_step_value:
  assumes "is_digit c" and "10 * unat acc + digit_value c \<le> 1048576"
  shows "unat (acc * 10 + of_nat (digit_value c) :: u32) = 10 * unat acc + digit_value c"
proof -
  have "unat (of_nat (10 * unat acc + digit_value c) :: u32) = 10 * unat acc + digit_value c"
    using assms(2) by (intro unat_of_nat_small) simp
  moreover have "acc * 10 + of_nat (digit_value c) = (of_nat (10 * unat acc + digit_value c) :: u32)"
    by simp
  ultimately show ?thesis by (simp only:)
qed

lemma wr_decimal_iff:
  assumes "unat acc \<le> 1048576"
  shows "wr_decimal acc cs = Inr n \<longleftrightarrow> list_all is_digit cs \<and>
    foldl (\<lambda>a c. 10 * a + digit_value c) (unat acc) cs \<le> 1048576 \<and>
    unat n = foldl (\<lambda>a c. 10 * a + digit_value c) (unat acc) cs"
  using assms
proof (induction cs arbitrary: acc)
  case Nil
  then show ?case by (auto simp: word_eq_iff_unsigned [where ?'a = nat])
next
  case (Cons c cs)
  show ?case
  proof (cases "is_digit c \<and> 10 * unat acc + digit_value c \<le> 1048576")
    case True
    then have step: "unat (acc * 10 + of_nat (digit_value c) :: u32) = 10 * unat acc + digit_value c"
      using wr_step_value by blast
    have "wr_decimal acc (c # cs) = wr_decimal (acc * 10 + of_nat (digit_value c)) cs"
      using True wr_range_test [OF _ Cons.prems] by (simp add: Let_def)
    with Cons.IH [of "acc * 10 + of_nat (digit_value c)"] True step show ?thesis by simp
  next
    case False
    then have "wr_decimal acc (c # cs) = Inl (Std Invalid_argument ''writer result decimal range'')"
      using wr_range_test [OF _ Cons.prems, of c] by (auto simp: Let_def)
    moreover have "\<not> (list_all is_digit (c # cs) \<and>
        foldl (\<lambda>a c. 10 * a + digit_value c) (unat acc) (c # cs) \<le> 1048576)"
      using False decimal_fold_grows [of "10 * unat acc + digit_value c" cs] by auto
    ultimately show ?thesis by auto
  qed
qed

lemma wr_decimal_value:
  "wr_decimal 0 cs = Inr n \<longleftrightarrow> list_all is_digit cs \<and> decimal_value cs \<le> 1048576 \<and> unat n = decimal_value cs"
  using wr_decimal_iff [of 0 cs n] by (simp add: decimal_value_def)

lemma writer_result_body:
  assumes "\<not> (length s < 2 \<or> last s \<noteq> CHR ''}'' \<or> (s ! 0 = CHR ''0'' \<and> length s \<noteq> 2))"
    and "list_all is_digit (butlast s)"
  shows "s = to_decimal (decimal_value (butlast s)) @ ''}''"
proof -
  have ne: "s \<noteq> []" "butlast s \<noteq> []" using assms(1) by (cases s; force)+
  moreover have "hd (butlast s) = s ! 0"
    using ne by (cases s) auto
  ultimately have "canonical_decimal (butlast s)"
    using assms by (auto simp: canonical_decimal_def)
  then have "to_decimal (decimal_value (butlast s)) = butlast s" by (rule to_decimal_value)
  then show ?thesis using assms(1) ne append_butlast_last_id [of s] by simp
qed

lemma writer_result_body_text:
  "\<not> (length (to_decimal n @ ''}'') < 2 \<or> last (to_decimal n @ ''}'') \<noteq> CHR ''}'' \<or>
      ((to_decimal n @ ''}'') ! 0 = CHR ''0'' \<and> length (to_decimal n @ ''}'') \<noteq> 2))"
proof -
  have "to_decimal n \<noteq> []" by (rule to_decimal_nonempty)
  moreover have "(to_decimal n @ ''}'') ! 0 = hd (to_decimal n)"
    using to_decimal_nonempty [of n] by (cases "to_decimal n") auto
  moreover have "hd (to_decimal n) = CHR ''0'' \<Longrightarrow> length (to_decimal n) = 1"
    using to_decimal_canonical [of n] by (simp add: canonical_decimal_def)
  ultimately show ?thesis by (cases "to_decimal n") auto
qed

lemma length_to_decimal_bound: "n \<le> 1048576 \<Longrightarrow> length (to_decimal n) \<le> 7"
  by (simp add: to_decimal.simps)

lemma take_prefix_eq: "take (length p) s = p \<longleftrightarrow> (\<exists>t. s = p @ t)"
  by (metis append_eq_conv_conj append_take_drop_id)

lemma parse_writer_result_canonical:
  "parse_writer_result bs = Inr r \<longleftrightarrow>
     hex64 (artifact_sha256 r) \<and> unat (artifact_bytes r) \<le> 1048576 \<and>
     bs = writer_result_text (artifact_sha256 r) (unat (artifact_bytes r))"
proof
  assume "parse_writer_result bs = Inr r"
  then obtain n where pre: "take (length wr_prefix) bs = wr_prefix"
    and hex: "hex64 (take 64 (drop (length wr_prefix) bs))"
    and mid: "take (length wr_middle) (drop 64 (drop (length wr_prefix) bs)) = wr_middle"
    and body: "\<not> (length (drop (length wr_middle) (drop 64 (drop (length wr_prefix) bs))) < 2 \<or>
      last (drop (length wr_middle) (drop 64 (drop (length wr_prefix) bs))) \<noteq> CHR ''}'' \<or>
      (drop (length wr_middle) (drop 64 (drop (length wr_prefix) bs)) ! 0 = CHR ''0'' \<and>
       length (drop (length wr_middle) (drop 64 (drop (length wr_prefix) bs))) \<noteq> 2))"
    and dec: "wr_decimal 0 (butlast (drop (length wr_middle) (drop 64 (drop (length wr_prefix) bs)))) = Inr n"
    and r: "r = \<lparr>artifact_sha256 = take 64 (drop (length wr_prefix) bs), artifact_bytes = n\<rparr>"
    unfolding parse_writer_result_def Let_def by (auto simp only: run_iff sum.inject)
  from pre obtain s1 where s1: "bs = wr_prefix @ s1" by (auto simp: take_prefix_eq)
  from mid obtain s3 where s3: "drop 64 s1 = wr_middle @ s3" by (auto simp: take_prefix_eq s1)
  have s3': "drop (length wr_middle) (drop 64 (drop (length wr_prefix) bs)) = s3" by (simp add: s1 s3)
  from dec [unfolded s3'] have digits: "list_all is_digit (butlast s3)"
    and n: "unat n = decimal_value (butlast s3)" "unat n \<le> 1048576" by (auto simp: wr_decimal_value)
  from writer_result_body [OF body [unfolded s3'] digits] have "s3 = to_decimal (unat n) @ ''}''"
    by (simp add: n)
  then have "bs = wr_prefix @ take 64 s1 @ wr_middle @ to_decimal (unat n) @ ''}''"
    using s1 s3 append_take_drop_id [of 64 s1] by simp
  with r n hex s1 show "hex64 (artifact_sha256 r) \<and> unat (artifact_bytes r) \<le> 1048576 \<and>
     bs = writer_result_text (artifact_sha256 r) (unat (artifact_bytes r))"
    by (simp add: writer_result_text_def)
next
  assume a: "hex64 (artifact_sha256 r) \<and> unat (artifact_bytes r) \<le> 1048576 \<and>
     bs = writer_result_text (artifact_sha256 r) (unat (artifact_bytes r))"
  let ?h = "artifact_sha256 r" and ?t = "to_decimal (unat (artifact_bytes r))"
  have h: "length ?h = 64" using a by (simp add: hex64_def)
  have len: "length bs \<le> 256" "\<not> length (?h @ wr_middle @ ?t @ ''}'') < 64 + length wr_middle + 2"
    using a h length_to_decimal_bound [of "unat (artifact_bytes r)"] to_decimal_nonempty [of "unat (artifact_bytes r)"]
    by (simp_all add: writer_result_text_def wr_prefix_def wr_middle_def Suc_le_eq)
  have dec: "wr_decimal 0 ?t = Inr (artifact_bytes r)"
    using a by (simp add: wr_decimal_value to_decimal_digits decimal_value_to_decimal)
  show "parse_writer_result bs = Inr r"
    using a h len dec writer_result_body_text [of "unat (artifact_bytes r)"]
    by (simp add: parse_writer_result_def Let_def run_simps writer_result_text_def butlast_append)
qed

lemma wr_decimal_fails: "wr_decimal acc cs = Inl e \<Longrightarrow> e = Std Invalid_argument ''writer result decimal range''"
  by (induction acc cs rule: wr_decimal.induct) (auto simp: Let_def split: if_splits)

lemma parse_writer_result_fails:
  assumes "parse_writer_result bs = Inl e"
  shows "\<exists>m. e = Std (if 256 < length bs then Length_error else Invalid_argument) m"
proof (cases "256 < length bs")
  case True
  with assms show ?thesis by (auto simp: parse_writer_result_def bindE_def guardE_def)
next
  case False
  have "\<exists>m. e = Std Invalid_argument m"
    using assms False unfolding parse_writer_result_def Let_def by (auto simp only: raise_iff dest: wr_decimal_fails)
  with False show ?thesis by simp
qed

text \<open>\<open>writer_result_of bs h n\<close>: the text is the canonical one for the digest and the length.\<close>

definition writer_result_of :: "string \<Rightarrow> string \<Rightarrow> u32 \<Rightarrow> bool" where
  "writer_result_of bs h n \<longleftrightarrow> hex64 h \<and> unat n \<le> 1048576 \<and> bs = writer_result_text h (unat n)"

lemma parse_writer_result_of:
  "parse_writer_result bs = Inr r \<longleftrightarrow> writer_result_of bs (artifact_sha256 r) (artifact_bytes r)"
  by (simp add: writer_result_of_def parse_writer_result_canonical)

lemma parse_fails_iff: "(\<exists>e. parse_writer_result bs = Inl e) \<longleftrightarrow> (\<nexists>h n. writer_result_of bs h n)"
proof (cases "parse_writer_result bs")
  case (Inl e)
  have "\<not> writer_result_of bs h n" for h n
    using Inl parse_writer_result_of [of bs "\<lparr>artifact_sha256 = h, artifact_bytes = n\<rparr>"] by auto
  with Inl show ?thesis by blast
next
  case (Inr r)
  with parse_writer_result_of [of bs r] show ?thesis by auto
qed

text \<open>\<^bold>\<open>C20.\<close> The decoder of the writer result is strict: it returns a digest and a length
  exactly for the one canonical text of that digest and that length (64 lower-case hexadecimal
  digits, decimal digits without leading zero, at most 1048576), so no two accepted texts decode
  to the same value and the 32-bit accumulator never wraps around.\<close>

theorem parse_writer_result_iff:
  "parse_writer_result bs = Inr r \<longleftrightarrow>
     hex64 (artifact_sha256 r) \<and> unat (artifact_bytes r) \<le> 1048576 \<and>
     bs = writer_result_text (artifact_sha256 r) (unat (artifact_bytes r))"
  by (rule parse_writer_result_canonical)

text \<open>\<^bold>\<open>C21.\<close> The evidence for the writer result, on every text, without an exception: the canonical text of the
  digest and length actually observed gives \<^verbatim>\<open>accept_current\<close>; the canonical text of another digest or
  length gives \<^verbatim>\<open>reject_mismatch\<close>, both without an error; a text of more than 256 bytes gives the error
  \<^verbatim>\<open>oversized\<close> and any other text the error \<^verbatim>\<open>malformed\<close>, both with the verdict \<^verbatim>\<open>stop_inconclusive\<close>.  Apart
  from the verdict, the error, the detail and the fixed object, profile and step the evidence is empty.\<close>

theorem writer_result_evidence_accepts_iff:
  "\<exists>detail. writer_result_evidence bs h n = Inr (evidence_init\<lparr>
     e_object := ''M4/writer-result.json'', e_profile := ''data-only-v1'', e_step := ''parse-and-correlate'',
     e_verdict := (if writer_result_of bs h n then Accept_current
       else if \<exists>h' n'. writer_result_of bs h' n' then Reject_mismatch else Stop_inconclusive),
     e_error := (if \<exists>h' n'. writer_result_of bs h' n' then Err_none
       else if 256 < length bs then Err_oversized else Err_malformed),
     e_detail := detail\<rparr>)"
proof (cases "parse_writer_result bs")
  case (Inr r)
  then have r: "writer_result_of bs (artifact_sha256 r) (artifact_bytes r)" by (simp add: parse_writer_result_of)
  have "artifact_sha256 r = h \<and> artifact_bytes r = n" if "writer_result_of bs h n"
    using that Inr parse_writer_result_of [of bs "\<lparr>artifact_sha256 = h, artifact_bytes = n\<rparr>"] by auto
  with r have "artifact_sha256 r = h \<and> artifact_bytes r = n \<longleftrightarrow> writer_result_of bs h n" by blast
  moreover have "\<exists>h' n'. writer_result_of bs h' n'" using r by blast
  ultimately show ?thesis
    using Inr by (auto simp: writer_result_evidence_def Let_def evidence_init_def)
next
  case (Inl e)
  then have none: "\<not> writer_result_of bs h' n'" for h' n' using parse_fails_iff [of bs] by blast
  from parse_writer_result_fails [OF Inl] obtain m
    where "e = Std (if 256 < length bs then Length_error else Invalid_argument) m" by blast
  with Inl none show ?thesis by (auto simp: writer_result_evidence_def Let_def evidence_init_def)
qed

end
