(* ===== verification/Rendering.thy ===== *)
theory Rendering
  imports Contracts
begin

text \<open>
  Properties of the rendered records of the contracts unit: the SID grammar, the P10 rendering
  (every slot of the template is found exactly once and the result is the template with the
  slots filled in), and the P11 head record (its length, and that it determines the case and the
  P10 digest it was rendered from).
\<close>

section \<open>The SID grammar\<close>

text \<open>The specification: \<^verbatim>\<open>S-1-\<close> followed by one or more nonempty groups of digits, separated by
  hyphens.\<close>

fun dash_join :: "string list \<Rightarrow> string" where
  "dash_join [] = []"
| "dash_join [g] = g"
| "dash_join (g # h # gs) = g @ CHR ''-'' # dash_join (h # gs)"

definition digit_groups :: "string list \<Rightarrow> bool" where
  "digit_groups gs \<longleftrightarrow> gs \<noteq> [] \<and> list_all (\<lambda>g. g \<noteq> [] \<and> list_all is_digit g) gs"

lemma digit_not_dash [simp]: "\<not> is_digit (CHR ''-'')"
  by (simp add: is_digit_iff)

lemma sid_scan_digits: "list_all is_digit g \<Longrightarrow> sid_scan d (g @ s) = sid_scan (d \<or> g \<noteq> []) s"
proof (induction g arbitrary: d)
  case (Cons c g)
  then have "c \<noteq> CHR ''-''" "is_digit c" by auto
  with Cons show ?case by simp
qed simp

lemma sid_scan_join: "digit_groups gs \<Longrightarrow> sid_scan False (dash_join gs)"
proof (induction gs rule: dash_join.induct)
  case (2 g)
  then show ?case using sid_scan_digits [of g False "[]"] by (simp add: digit_groups_def)
next
  case (3 g h gs)
  then show ?case
    using sid_scan_digits [of g False "CHR ''-'' # dash_join (h # gs)"] by (simp add: digit_groups_def)
qed (simp add: digit_groups_def)

text \<open>What the scan accepts splits into groups; \<open>d\<close> tells whether a digit of the first group was
  read before.\<close>

lemma sid_scan_groups:
  "sid_scan d s \<Longrightarrow> \<exists>g gs. s = dash_join (g # gs) \<and> list_all is_digit g \<and> (d \<or> g \<noteq> []) \<and>
     list_all (\<lambda>g. g \<noteq> [] \<and> list_all is_digit g) gs"
proof (induction d s rule: sid_scan.induct)
  case (1 d)
  then have "[] = dash_join ([] # []) \<and> list_all is_digit [] \<and> (d \<or> [] \<noteq> []) \<and>
      list_all (\<lambda>g. g \<noteq> [] \<and> list_all is_digit g) []" by simp
  then show ?case by blast
next
  case (2 d c cs)
  show ?case
  proof (cases "c = CHR ''-''")
    case True
    with "2.prems" have d: d and "sid_scan False cs" by (auto split: if_splits)
    with "2.IH"(1) True obtain g gs where "cs = dash_join (g # gs)" "list_all is_digit g" "g \<noteq> []"
      "list_all (\<lambda>g. g \<noteq> [] \<and> list_all is_digit g) gs" by auto
    with True d have "c # cs = dash_join ([] # g # gs) \<and> list_all is_digit [] \<and> (d \<or> [] \<noteq> []) \<and>
        list_all (\<lambda>g. g \<noteq> [] \<and> list_all is_digit g) (g # gs)" by simp
    then show ?thesis by blast
  next
    case False
    with "2.prems" have c: "is_digit c" and "sid_scan True cs" by (auto split: if_splits)
    with "2.IH"(2) False obtain g gs where g: "cs = dash_join (g # gs)" "list_all is_digit g"
      "list_all (\<lambda>g. g \<noteq> [] \<and> list_all is_digit g) gs" by auto
    then have "c # cs = dash_join ((c # g) # gs)" by (cases gs) auto
    with g c have "c # cs = dash_join ((c # g) # gs) \<and> list_all is_digit (c # g) \<and> (d \<or> c # g \<noteq> []) \<and>
        list_all (\<lambda>g. g \<noteq> [] \<and> list_all is_digit g) gs" by simp
    then show ?thesis by blast
  qed
qed

lemma dash_join_nonempty: "digit_groups gs \<Longrightarrow> dash_join gs \<noteq> []"
  by (cases gs rule: dash_join.cases) (auto simp: digit_groups_def)

lemma dash_join_last: "digit_groups gs \<Longrightarrow> last (dash_join gs) \<noteq> CHR ''-''"
proof (induction gs rule: dash_join.induct)
  case (2 g)
  then have "is_digit (last g)" by (auto simp: digit_groups_def list_all_iff)
  then show ?case by auto
next
  case (3 g h gs)
  then have "digit_groups (h # gs)" by (simp add: digit_groups_def)
  with 3 dash_join_nonempty [OF this] show ?case by simp
qed (simp add: digit_groups_def)

text \<open>\<^bold>\<open>C25.\<close> The SID check accepts exactly the texts \<^verbatim>\<open>S-1-\<close> followed by nonempty groups of
  decimal digits separated by single hyphens.\<close>

theorem sid_grammar: "sid s \<longleftrightarrow> (\<exists>gs. digit_groups gs \<and> s = ''S-1-'' @ dash_join gs)"
proof
  assume s: "sid s"
  then have pre: "take 4 s = ''S-1-''" and scan: "sid_scan False (drop 4 s)"
    by (auto simp: sid_def split: if_splits)
  from sid_scan_groups [OF scan] obtain g gs where "drop 4 s = dash_join (g # gs)" "digit_groups (g # gs)"
    by (auto simp: digit_groups_def)
  with pre append_take_drop_id [of 4 s] show "\<exists>gs. digit_groups gs \<and> s = ''S-1-'' @ dash_join gs"
    by metis
next
  assume "\<exists>gs. digit_groups gs \<and> s = ''S-1-'' @ dash_join gs"
  then obtain gs where gs: "digit_groups gs" and s: "s = ''S-1-'' @ dash_join gs" by blast
  with dash_join_nonempty [OF gs] dash_join_last [OF gs] sid_scan_join [OF gs] show "sid s"
    by (cases "dash_join gs") (auto simp: sid_def)
qed

lemma sid_scan_chars: "sid_scan d s \<Longrightarrow> list_all (\<lambda>c. is_digit c \<or> c = CHR ''-'') s"
  by (induction d s rule: sid_scan.induct) (auto split: if_splits)

lemma sid_not_special:
  assumes "sid s"
  shows "CHR ''<'' \<notin> set s \<and> CHR 0x22 \<notin> set s"
proof -
  from assms have pre: "take 4 s = ''S-1-''" and scan: "sid_scan False (drop 4 s)"
    by (auto simp: sid_def split: if_splits)
  have "set s = set (take 4 s) \<union> set (drop 4 s)"
    by (metis append_take_drop_id set_append)
  moreover have "CHR ''<'' \<notin> set (drop 4 s) \<and> CHR 0x22 \<notin> set (drop 4 s)"
    using sid_scan_chars [OF scan] digit_not_special by (auto simp: list_all_iff)
  ultimately show ?thesis by (simp add: pre)
qed

section \<open>Filling the slots of a template\<close>

text \<open>A slot is a text in angle brackets.  A template is a list of pieces, each a text before a
  slot, the slot and the value for it, followed by a tail.\<close>

definition is_slot :: "string \<Rightarrow> bool" where
  "is_slot k \<longleftrightarrow> (\<exists>b. k = CHR ''<'' # b @ [CHR ''>''] \<and> CHR ''<'' \<notin> set b \<and> CHR ''>'' \<notin> set b)"

type_synonym piece = "string \<times> string \<times> string"

fun template_text :: "piece list \<Rightarrow> string \<Rightarrow> string" where
  "template_text [] tail = tail"
| "template_text ((t, k, v) # ps) tail = t @ k @ template_text ps tail"

fun filled_text :: "piece list \<Rightarrow> string \<Rightarrow> string" where
  "filled_text [] tail = tail"
| "filled_text ((t, k, v) # ps) tail = t @ v @ filled_text ps tail"

fun replace_all :: "(string \<times> string) list \<Rightarrow> string \<Rightarrow> exn + string" where
  "replace_all [] out = Inr out"
| "replace_all ((k, v) # kvs) out = bindE (replace_one k v out) (replace_all kvs)"

definition slot_free :: "string \<Rightarrow> bool" where
  "slot_free t \<longleftrightarrow> CHR ''<'' \<notin> set t"

definition good_pieces :: "piece list \<Rightarrow> bool" where
  "good_pieces ps \<longleftrightarrow> list_all (\<lambda>(t, k, v). slot_free t \<and> is_slot k \<and> slot_free v) ps \<and>
     distinct (map (\<lambda>(t, k, v). k) ps)"

text \<open>Slots are prefix-free: a different slot does not match.\<close>

lemma slot_prefix:
  assumes "is_slot k" and "is_slot k'" and "take (length k) (k' @ s) = k"
  shows "k = k'"
proof -
  obtain b b' where b: "k = CHR ''<'' # b @ [CHR ''>'']" "CHR ''>'' \<notin> set b"
    and b': "k' = CHR ''<'' # b' @ [CHR ''>'']" "CHR ''>'' \<notin> set b'"
    using assms by (auto simp: is_slot_def)
  obtain y where "k' @ s = k @ y" using assms(3) by (metis append_take_drop_id)
  then have "b' @ CHR ''>'' # s = b @ CHR ''>'' # y" using b b' by simp
  then show ?thesis using b b' by (simp add: append_sep_eq)
qed

lemma find_slot_free:
  assumes "is_slot k" and "slot_free t"
  shows "find_sub k (t @ s) = map_option ((+) (length t)) (find_sub k s)"
  using assms find_sub_skip by (auto simp: is_slot_def slot_free_def)

lemma find_slot_other:
  assumes "is_slot k" and "is_slot k'" and "k \<noteq> k'" and "find_sub k s = None"
  shows "find_sub k (k' @ s) = None"
proof -
  obtain b' where b': "k' = CHR ''<'' # b' @ [CHR ''>'']" "slot_free (b' @ [CHR ''>''])"
    using assms(2) by (auto simp: is_slot_def slot_free_def)
  have "take (length k) (k' @ s) \<noteq> k" using slot_prefix [OF assms(1,2)] assms(3) by blast
  then have "find_sub k (k' @ s) = map_option Suc (find_sub k ((b' @ [CHR ''>'']) @ s))"
    using find_sub_mismatch [of k "CHR ''<''" "(b' @ [CHR ''>'']) @ s"] b' by simp
  then show ?thesis
    by (simp only: find_slot_free [OF assms(1) b'(2)] assms(4) option.map)
qed

lemma find_slot_absent:
  assumes "is_slot k" and "good_pieces ps" and "k \<notin> (\<lambda>(t, k, v). k) ` set ps" and "slot_free tail"
  shows "find_sub k (template_text ps tail) = None"
  using assms
proof (induction ps)
  case Nil
  then show ?case
    using find_slot_free [of k tail "[]"] by (auto simp: find_sub.simps is_slot_def)
next
  case (Cons p ps)
  obtain t k' v where p: "p = (t, k', v)" by (cases p)
  from Cons p have "find_sub k (k' @ template_text ps tail) = None"
    by (intro find_slot_other) (auto simp: good_pieces_def)
  with Cons.prems p show ?case
    by (simp add: find_slot_free good_pieces_def)
qed

lemma replace_one_slot:
  assumes "is_slot k" and "slot_free t" and "find_sub k s = None"
  shows "replace_one k v (t @ k @ s) = Inr (t @ v @ s)"
proof -
  have "find_sub k (t @ k @ s) = Some (length t)"
    using find_slot_free [OF assms(1,2)] by (simp add: find_sub_prefix)
  moreover have "drop (length t + length k) (t @ k @ s) = s" by simp
  ultimately show ?thesis
    using assms(3) by (simp add: replace_one_def replace_at_def)
qed

lemma replace_all_template:
  assumes "good_pieces ps" and "slot_free pre" and "slot_free tail"
  shows "replace_all (map (\<lambda>(t, k, v). (k, v)) ps) (pre @ template_text ps tail) =
    Inr (pre @ filled_text ps tail)"
  using assms
proof (induction ps arbitrary: pre)
  case (Cons p ps)
  obtain t k v where p: "p = (t, k, v)" by (cases p)
  have good: "is_slot k" "slot_free (pre @ t)" "slot_free (pre @ t @ v)" "good_pieces ps"
    "k \<notin> (\<lambda>(t, k, v). k) ` set ps"
    using Cons.prems p by (auto simp: good_pieces_def slot_free_def)
  have "find_sub k (template_text ps tail) = None"
    using find_slot_absent good Cons.prems by blast
  then have "replace_one k v ((pre @ t) @ k @ template_text ps tail) = Inr ((pre @ t) @ v @ template_text ps tail)"
    using good by (intro replace_one_slot)
  with Cons.IH [OF good(4,3) Cons.prems(3)] p show ?case by (simp add: run_simps)
qed simp

section \<open>The P10 rendering\<close>

definition p10_pieces :: "sid_set \<Rightarrow> p10_build_hashes \<Rightarrow> piece list" where
  "p10_pieces sids hashes =
     [(p10_text_0, ''<PENDING_G2_A1_SID>'', sid_writer sids),
      (p10_text_1, ''<PENDING_G2_A2_SID>'', sid_controller sids),
      (p10_text_2, ''<PENDING_G2_A3_SID>'', sid_broker sids),
      (p10_text_3, ''<PENDING_G1_BROKER_SHA256>'', h_broker hashes),
      (p10_text_4, ''<PENDING_G1_CONTROLLER_SHA256>'', h_controller hashes),
      (p10_text_5, ''<PENDING_G1_WRITER_SHA256>'', h_writer hashes),
      (p10_text_6, ''<PENDING_G1_CAPTURE_SHA256>'', h_capture hashes)]"

lemma p10_head_pieces: "p10_head @ tail = template_text (p10_pieces sids hashes) (p10_text_7 @ tail)"
  by (simp add: p10_head_def p10_pieces_def)

lemma render_slots_pieces:
  "render_slots sids hashes out = replace_all (map (\<lambda>(t, k, v). (k, v)) (p10_pieces sids hashes)) out"
  unfolding render_slots_def p10_pieces_def
  by (auto simp: bindE_def split: sum.split)

lemmas p10_texts = p10_text_0_def p10_text_1_def p10_text_2_def p10_text_3_def p10_text_4_def
  p10_text_5_def p10_text_6_def p10_text_7_def

lemma p10_texts_slot_free:
  "slot_free p10_text_0" "slot_free p10_text_1" "slot_free p10_text_2" "slot_free p10_text_3"
  "slot_free p10_text_4" "slot_free p10_text_5" "slot_free p10_text_6" "slot_free p10_text_7"
  by (simp_all add: slot_free_def p10_texts backslashes_def)

lemma is_slotI: "CHR ''<'' \<notin> set b \<Longrightarrow> CHR ''>'' \<notin> set b \<Longrightarrow> is_slot (CHR ''<'' # b @ [CHR ''>''])"
  by (auto simp: is_slot_def)

lemma p10_slots:
  "is_slot ''<PENDING_G2_A1_SID>''" "is_slot ''<PENDING_G2_A2_SID>''" "is_slot ''<PENDING_G2_A3_SID>''"
  "is_slot ''<PENDING_G1_BROKER_SHA256>''" "is_slot ''<PENDING_G1_CONTROLLER_SHA256>''"
  "is_slot ''<PENDING_G1_WRITER_SHA256>''" "is_slot ''<PENDING_G1_CAPTURE_SHA256>''"
  using is_slotI [of "''PENDING_G2_A1_SID''"] is_slotI [of "''PENDING_G2_A2_SID''"]
    is_slotI [of "''PENDING_G2_A3_SID''"] is_slotI [of "''PENDING_G1_BROKER_SHA256''"]
    is_slotI [of "''PENDING_G1_CONTROLLER_SHA256''"] is_slotI [of "''PENDING_G1_WRITER_SHA256''"]
    is_slotI [of "''PENDING_G1_CAPTURE_SHA256''"]
  by simp_all

lemma hex64_slot_free: "hex64 h \<Longrightarrow> slot_free h"
  using hex_not_special by (auto simp: hex64_def slot_free_def list_all_iff)

lemma sid_slot_free: "sid s \<Longrightarrow> slot_free s"
  using sid_not_special by (simp add: slot_free_def)

lemma p10_pieces_good:
  assumes "distinct_sids sids" and "reviewed_hashes hashes"
  shows "good_pieces (p10_pieces sids hashes)"
  using assms unfolding good_pieces_def p10_pieces_def distinct_sids_def reviewed_hashes_def
  by (simp add: p10_texts_slot_free p10_slots hex64_slot_free sid_slot_free)

lemma render_slots_template:
  assumes "distinct_sids sids" and "reviewed_hashes hashes" and "slot_free tail"
  shows "render_slots sids hashes (p10_head @ tail) =
    Inr (filled_text (p10_pieces sids hashes) (p10_text_7 @ tail))"
proof -
  have "slot_free (p10_text_7 @ tail)"
    using assms(3) p10_texts_slot_free(8) by (simp add: slot_free_def)
  from replace_all_template [OF p10_pieces_good [OF assms(1,2)] _ this, of "[]"]
  show ?thesis
    unfolding render_slots_pieces p10_head_pieces [of tail sids hashes] by (simp add: slot_free_def)
qed

text \<open>The frozen cases with their digests, and the rendered P10 text, as functions of the hash
  function that the provider computes.\<close>

definition with_digests :: "(string \<Rightarrow> bytes) \<Rightarrow> fixture_case \<Rightarrow> fixture_case" where
  "with_digests H c = c\<lparr>c_old_digest := hex_bytes (H (manifest_of H (c_old_files c))),
     c_latest_digest := hex_bytes (H (manifest_of H (c_latest_files c)))\<rparr>"

definition frozen_cases :: "(string \<Rightarrow> bytes) \<Rightarrow> fixture_case list" where
  "frozen_cases H = map (with_digests H) frozen_case_data"

definition p10_tail :: "string \<Rightarrow> string \<Rightarrow> string \<Rightarrow> string \<Rightarrow> string" where
  \<open>p10_tail a b c d = a @ ''","active_latest_digest":"'' @ b @ ''","terminal_old_digest":"'' @ c @
     ''","terminal_latest_digest":"'' @ d @ ''"}''\<close>

abbreviation frozen_tail :: "(string \<Rightarrow> bytes) \<Rightarrow> string" where
  "frozen_tail H \<equiv> p10_tail (c_old_digest (frozen_cases H ! 0)) (c_latest_digest (frozen_cases H ! 0))
     (c_old_digest (frozen_cases H ! 1)) (c_latest_digest (frozen_cases H ! 1))"

definition p10_text :: "(string \<Rightarrow> bytes) \<Rightarrow> sid_set \<Rightarrow> p10_build_hashes \<Rightarrow> string" where
  "p10_text H sids hashes = filled_text (p10_pieces sids hashes) (p10_text_7 @ frozen_tail H)"

lemma digest_cases_value:
  assumes "bcrypt_computes bc H" and "digest_cases bc cs w = (Inr r, w')"
  shows "r = map (with_digests H) cs"
  using assms(2)
proof (induction cs arbitrary: w r)
  case (Cons c cs)
  then obtain old latest rest w1 w2 where
    "mutable_digest bc (c_old_files c) w = (Inr old, w1)"
    "mutable_digest bc (c_latest_files c) w1 = (Inr latest, w2)"
    "digest_cases bc cs w2 = (Inr rest, w')" and r: "r = c\<lparr>c_old_digest := old, c_latest_digest := latest\<rparr> # rest"
    by (auto simp: run_iff)
  with Cons.IH mutable_digest_value [OF assms(1)] have
    "old = hex_bytes (H (manifest_of H (c_old_files c)))"
    "latest = hex_bytes (H (manifest_of H (c_latest_files c)))" "rest = map (with_digests H) cs"
    by blast+
  with r show ?case by (simp add: with_digests_def)
qed (simp add: run_iff)

lemma fixture_cases_value:
  "bcrypt_computes bc H \<Longrightarrow> fixture_cases bc w = (Inr cs, w') \<Longrightarrow> cs = frozen_cases H"
  unfolding fixture_cases_def frozen_cases_def by (rule digest_cases_value)

lemma frozen_digests_slot_free:
  assumes "c \<in> set (frozen_cases H)"
  shows "slot_free (c_old_digest c)" "slot_free (c_latest_digest c)"
  using assms hex_bytes_chars hex_not_special
  by (fastforce simp: frozen_cases_def with_digests_def slot_free_def list_all_iff)+

lemma frozen_cases_nth:
  "frozen_cases H ! 0 \<in> set (frozen_cases H)" "frozen_cases H ! 1 \<in> set (frozen_cases H)"
  by (simp_all add: frozen_cases_def frozen_case_data_def)

lemma frozen_tail_slot_free: "slot_free (frozen_tail H)"
proof -
  have "slot_free a \<Longrightarrow> slot_free b \<Longrightarrow> slot_free c \<Longrightarrow> slot_free d \<Longrightarrow> slot_free (p10_tail a b c d)" for a b c d
    by (simp add: p10_tail_def slot_free_def)
  then show ?thesis using frozen_digests_slot_free frozen_cases_nth by blast
qed

lemma p10_template_value:
  assumes "bcrypt_computes bc H" and "p10_template bc w = (Inr out, w')"
  shows "out = p10_head @ frozen_tail H"
proof -
  from assms(2) obtain c1 c2 c3 c4 w1 w2 w3 where
    "fixture_cases bc w = (Inr c1, w1)" "fixture_cases bc w1 = (Inr c2, w2)"
    "fixture_cases bc w2 = (Inr c3, w3)" "fixture_cases bc w3 = (Inr c4, w')"
    and out: "out = p10_head @ p10_tail (c_old_digest (c1 ! 0)) (c_latest_digest (c2 ! 0))
      (c_old_digest (c3 ! 1)) (c_latest_digest (c4 ! 1))"
    unfolding p10_template_def p10_tail_def by (auto simp only: run_iff)
  then have "c1 = frozen_cases H" "c2 = frozen_cases H" "c3 = frozen_cases H" "c4 = frozen_cases H"
    using fixture_cases_value [OF assms(1)] by blast+
  with out show ?thesis by simp
qed

lemma render_p10_value:
  assumes "bcrypt_computes bc H" and "render_p10 bc sids hashes w = (Inr out, w')"
  shows "out = p10_text H sids hashes \<and> distinct_sids sids \<and> reviewed_hashes hashes"
proof -
  from assms(2) obtain t where good: "distinct_sids sids" "reviewed_hashes hashes"
    and t: "p10_template bc w = (Inr t, w')" and out: "render_slots sids hashes t = Inr out"
    by (auto simp: render_p10_def run_iff)
  from render_slots_template [OF good frozen_tail_slot_free] out good show ?thesis
    by (simp add: p10_template_value [OF assms(1) t] p10_text_def)
qed

lemma render_p10_run:
  assumes "bcrypt_computes bc H" and "distinct_sids sids" and "reviewed_hashes hashes"
    and "p10_template bc w = (Inr t, w')"
  shows "render_p10 bc sids hashes w = (Inr (p10_text H sids hashes), w')"
proof -
  have "t = p10_head @ frozen_tail H" by (rule p10_template_value [OF assms(1,4)])
  then have "render_slots sids hashes t = Inr (p10_text H sids hashes)"
    unfolding p10_text_def by (simp only: render_slots_template [OF assms(2,3) frozen_tail_slot_free])
  then show ?thesis unfolding render_p10_def by (simp add: run_simps assms(2,3,4))
qed

text \<open>\<^bold>\<open>C22.\<close> Rendering P10 cannot fail on a slot: with three distinct well-formed SIDs and
  four well-formed image hashes it returns the template with every slot filled in whenever the
  frozen digests could be computed, and passes on the provider's failure otherwise.\<close>

theorem render_p10_total:
  assumes "bcrypt_computes bc H" and "distinct_sids sids" and "reviewed_hashes hashes"
  shows "render_p10 bc sids hashes w =
    (case p10_template bc w of (Inl e, w') \<Rightarrow> (Inl e, w') | (Inr _, w') \<Rightarrow> (Inr (p10_text H sids hashes), w'))"
proof (cases "p10_template bc w")
  case (Pair r w')
  then show ?thesis
  proof (cases r)
    case (Inl e)
    with Pair show ?thesis unfolding render_p10_def by (simp add: run_simps assms(2,3))
  next
    case (Inr t)
    with Pair show ?thesis by (simp add: render_p10_run [OF assms])
  qed
qed

text \<open>With the provider that always succeeds the frozen cases are computed, in every world.\<close>

lemma frozen_files_good:
  assumes "c \<in> set frozen_case_data" and "files = c_old_files c \<or> files = c_latest_files c"
  shows "list_all (\<lambda>(name, bs). \<not> bad_child_name name \<and> length bs \<le> ulong_max) files"
  using assms
  by (auto simp: frozen_case_data_def bad_child_name_def has_any_of_def ulong_max_def lock_bytes_def
      state_bytes_def)

lemma frozen_manifest_small:
  assumes "digest32 H" and "c \<in> set frozen_case_data"
    and "files = c_old_files c \<or> files = c_latest_files c"
  shows "length (manifest_of H files) \<le> ulong_max"
  using assms(2,3)
  by (auto simp: frozen_case_data_def manifest_of_def manifest_header_def manifest_line_def ulong_max_def
      lock_bytes_def state_bytes_def assms(1) [unfolded digest32_def] to_decimal.simps)

lemma digest_cases_bcrypt_of:
  assumes "digest32 H" and "set cs \<subseteq> set frozen_case_data"
  shows "\<exists>w'. digest_cases (bcrypt_of H) cs w = (Inr (map (with_digests H) cs), w')"
  using assms(2)
proof (induction cs arbitrary: w)
  case (Cons c cs)
  then have c: "c \<in> set frozen_case_data" by simp
  have "mutable_digest (bcrypt_of H) files v = (Inr (hex_bytes (H (manifest_of H files))), manifest_of H files)"
    if "files = c_old_files c \<or> files = c_latest_files c" for files v
    by (rule mutable_digest_bcrypt_of [OF frozen_files_good [OF c that] frozen_manifest_small [OF assms(1) c that]])
  then have old: "mutable_digest (bcrypt_of H) (c_old_files c) v =
      (Inr (hex_bytes (H (manifest_of H (c_old_files c)))), manifest_of H (c_old_files c))"
    and latest: "mutable_digest (bcrypt_of H) (c_latest_files c) v =
      (Inr (hex_bytes (H (manifest_of H (c_latest_files c)))), manifest_of H (c_latest_files c))" for v
    by blast+
  from Cons obtain w' where "digest_cases (bcrypt_of H) cs (manifest_of H (c_latest_files c)) =
      (Inr (map (with_digests H) cs), w')" by auto
  with old latest show ?case by (simp add: run_simps with_digests_def)
qed (simp add: run_simps)

lemma fixture_cases_bcrypt_of:
  assumes "digest32 H"
  shows "\<exists>w'. fixture_cases (bcrypt_of H) w = (Inr (frozen_cases H), w')"
  unfolding fixture_cases_def frozen_cases_def by (rule digest_cases_bcrypt_of [OF assms order_refl])

lemma p10_template_bcrypt_of:
  assumes "digest32 H"
  shows "\<exists>t w'. p10_template (bcrypt_of H) w = (Inr t, w')"
proof -
  obtain w1 where 1: "fixture_cases (bcrypt_of H) w = (Inr (frozen_cases H), w1)"
    using fixture_cases_bcrypt_of [OF assms] by blast
  obtain w2 where 2: "fixture_cases (bcrypt_of H) w1 = (Inr (frozen_cases H), w2)"
    using fixture_cases_bcrypt_of [OF assms] by blast
  obtain w3 where 3: "fixture_cases (bcrypt_of H) w2 = (Inr (frozen_cases H), w3)"
    using fixture_cases_bcrypt_of [OF assms] by blast
  obtain w4 where 4: "fixture_cases (bcrypt_of H) w3 = (Inr (frozen_cases H), w4)"
    using fixture_cases_bcrypt_of [OF assms] by blast
  show ?thesis unfolding p10_template_def by (simp add: run_simps 1 2 3 4)
qed

text \<open>Well-formed inputs for the witnesses.\<close>

definition sample_sids :: sid_set where
  "sample_sids = \<lparr>sid_writer = ''S-1-5-1'', sid_controller = ''S-1-5-2'', sid_broker = ''S-1-5-3''\<rparr>"

definition sample_hashes :: p10_build_hashes where
  "sample_hashes = \<lparr>h_broker = replicate 64 (CHR ''a''), h_controller = replicate 64 (CHR ''b''),
     h_writer = replicate 64 (CHR ''c''), h_capture = replicate 64 (CHR ''0'')\<rparr>"

lemma sample_sids_good: "distinct_sids sample_sids"
  by (simp add: distinct_sids_def sample_sids_def sid_def is_digit_def char_le_iff)

lemma sample_hashes_good: "reviewed_hashes sample_hashes"
  by (simp add: reviewed_hashes_def sample_hashes_def hex64_def list_all_iff is_hex_char_def is_digit_def
      char_le_iff)

theorem render_p10_total_witness:
  "\<exists>w'. render_p10 (bcrypt_of pad_digest) sample_sids sample_hashes [] =
     (Inr (p10_text pad_digest sample_sids sample_hashes), w')"
proof -
  obtain t w' where "p10_template (bcrypt_of pad_digest) [] = (Inr t, w')"
    using p10_template_bcrypt_of [OF pad_digest32] by blast
  then show ?thesis
    using render_p10_total [OF pad_digest_computes sample_sids_good sample_hashes_good, of "[]"] by simp
qed

text \<open>Every value in the P10 record is followed by a quotation mark that it cannot contain, so
  the record determines the values.\<close>

lemma hex64_no_quote: "hex64 h \<Longrightarrow> CHR 0x22 \<notin> set h"
  using hex_not_special by (auto simp: hex64_def list_all_iff)

lemma quote_sep_eq:
  assumes "CHR 0x22 \<notin> set a" and "CHR 0x22 \<notin> set b" and "t = CHR 0x22 # t'"
  shows "a @ t @ s = b @ t @ s' \<longleftrightarrow> a = b \<and> s = s'"
  using append_sep_eq [OF assms(1,2), of "t' @ s" "t' @ s'"] assms(3) by simp

lemma p10_texts_quote:
  "p10_text_1 = CHR 0x22 # tl p10_text_1" "p10_text_2 = CHR 0x22 # tl p10_text_2"
  "p10_text_3 = CHR 0x22 # tl p10_text_3" "p10_text_4 = CHR 0x22 # tl p10_text_4"
  "p10_text_5 = CHR 0x22 # tl p10_text_5" "p10_text_6 = CHR 0x22 # tl p10_text_6"
  "p10_text_7 = CHR 0x22 # tl p10_text_7"
  by (simp_all add: p10_texts)

lemma filled_p10_eq:
  assumes "distinct_sids s" "reviewed_hashes h" "distinct_sids s'" "reviewed_hashes h'"
    and "filled_text (p10_pieces s h) (p10_text_7 @ t) = filled_text (p10_pieces s' h') (p10_text_7 @ t')"
  shows "s = s' \<and> h = h'"
proof -
  note sq = quote_sep_eq [OF _ _ p10_texts_quote(1)] quote_sep_eq [OF _ _ p10_texts_quote(2)]
    quote_sep_eq [OF _ _ p10_texts_quote(3)] quote_sep_eq [OF _ _ p10_texts_quote(4)]
    quote_sep_eq [OF _ _ p10_texts_quote(5)] quote_sep_eq [OF _ _ p10_texts_quote(6)]
    quote_sep_eq [OF _ _ p10_texts_quote(7)]
  have free: "CHR 0x22 \<notin> set (sid_writer x)" "CHR 0x22 \<notin> set (sid_controller x)" "CHR 0x22 \<notin> set (sid_broker x)"
    if "distinct_sids x" for x using that sid_not_special by (auto simp: distinct_sids_def)
  have free': "CHR 0x22 \<notin> set (h_broker x)" "CHR 0x22 \<notin> set (h_controller x)" "CHR 0x22 \<notin> set (h_writer x)"
    "CHR 0x22 \<notin> set (h_capture x)"
    if "reviewed_hashes x" for x using that hex64_no_quote by (auto simp: reviewed_hashes_def)
  show ?thesis
    using assms(5) free [OF assms(1)] free [OF assms(3)] free' [OF assms(2)] free' [OF assms(4)]
    by (simp add: p10_pieces_def sq)
qed

text \<open>\<^bold>\<open>C23.\<close> The P10 record binds what it was rendered from: two successful renderings with
  the same bytes have the same three SIDs and the same four image hashes.\<close>

theorem render_p10_binds:
  assumes "bcrypt_computes bc H"
    and "render_p10 bc sids hashes w = (Inr out, w')" and "render_p10 bc sids' hashes' v = (Inr out, v')"
  shows "sids = sids' \<and> hashes = hashes'"
  using render_p10_value [OF assms(1,2)] render_p10_value [OF assms(1,3)] filled_p10_eq
  by (metis p10_text_def)

theorem render_p10_binds_witness:
  "\<exists>out out' w w'. render_p10 (bcrypt_of pad_digest) sample_sids sample_hashes [] = (Inr out, w) \<and>
     render_p10 (bcrypt_of pad_digest) (sample_sids\<lparr>sid_broker := ''S-1-5-4''\<rparr>) sample_hashes [] = (Inr out', w') \<and>
     out \<noteq> out'"
proof -
  let ?other = "sample_sids\<lparr>sid_broker := ''S-1-5-4''\<rparr>"
  have other: "distinct_sids ?other"
    by (simp add: distinct_sids_def sample_sids_def sid_def is_digit_def char_le_iff)
  obtain t w' where t: "p10_template (bcrypt_of pad_digest) [] = (Inr t, w')"
    using p10_template_bcrypt_of [OF pad_digest32] by blast
  obtain out w1 where out: "render_p10 (bcrypt_of pad_digest) sample_sids sample_hashes [] = (Inr out, w1)"
    using t render_p10_run [OF pad_digest_computes sample_sids_good sample_hashes_good] by blast
  obtain out' w2 where out': "render_p10 (bcrypt_of pad_digest) ?other sample_hashes [] = (Inr out', w2)"
    using t render_p10_run [OF pad_digest_computes other sample_hashes_good] by blast
  have "out \<noteq> out'"
  proof
    assume "out = out'"
    with out' have "render_p10 (bcrypt_of pad_digest) ?other sample_hashes [] = (Inr out, w2)" by simp
    from render_p10_binds [OF pad_digest_computes out this] show False by (simp add: sample_sids_def)
  qed
  with out out' show ?thesis by blast
qed

section \<open>Quoting\<close>

definition escape :: "char \<Rightarrow> string" where
  "escape c = (if c = CHR 0x22 \<or> c = CHR 0x5C then [CHR 0x5C, c] else [c])"

lemma escape_simps [simp]:
  "escape (CHR 0x22) = [CHR 0x5C, CHR 0x22]"
  "escape (CHR 0x5C) = [CHR 0x5C, CHR 0x5C]"
  "c \<noteq> CHR 0x22 \<Longrightarrow> c \<noteq> CHR 0x5C \<Longrightarrow> escape c = [c]"
  by (simp_all add: escape_def)

lemma quoted_loop_eq:
  "quoted_loop out s = (if list_all (\<lambda>c. 0x20 \<le> (of_char c :: nat)) s
     then Inr (out @ concat (map escape s) @ [CHR 0x22]) else Inl (Std Invalid_argument ''control character''))"
  by (induction out s rule: quoted_loop.induct) (auto simp: Let_def)

lemma quoted_eq:
  "quoted s = (if list_all (\<lambda>c. 0x20 \<le> (of_char c :: nat)) s
     then Inr (CHR 0x22 # concat (map escape s) @ [CHR 0x22]) else Inl (Std Invalid_argument ''control character''))"
  by (simp add: quoted_def quoted_loop_eq)

text \<open>Scanning an escaped text up to its closing quotation mark recovers the text and what
  follows it.\<close>

lemma escaped_sep_eq:
  "concat (map escape a) @ CHR 0x22 # s = concat (map escape b) @ CHR 0x22 # t \<longleftrightarrow> a = b \<and> s = t"
proof (induction a arbitrary: b)
  case Nil
  then show ?case by (cases b) (auto simp: escape_def split: if_splits)
next
  case (Cons x a)
  then show ?case by (cases b) (auto simp: escape_def split: if_splits)
qed

section \<open>The P11 head record\<close>

definition p11_text :: "fixture_case \<Rightarrow> string \<Rightarrow> string" where
  \<open>p11_text c p10 =
     ''{"schema_version":1,"marker":"S1PF-260926-A-STAGE-A-V1","p10_sha256":"'' @ p10 @
     ''","case_id":"'' @ c_id c @ ''","latest_digest":"'' @ c_latest_digest c @
     ''","generation":'' @ decimal (c_generation c) @ '',"worker_runs":'' @ decimal (c_worker_runs c) @
     '',"terminal":'' @ (if c_status c = ''FAILED'' then ''true'' else ''false'') @ ''}''\<close>

definition plain_text :: "string \<Rightarrow> bool" where
  "plain_text s \<longleftrightarrow> list_all (\<lambda>c. 0x20 \<le> (of_char c :: nat) \<and> c \<noteq> CHR 0x22 \<and> c \<noteq> CHR 0x5C) s"

lemma plain_quoted: "plain_text s \<Longrightarrow> quoted s = Inr (CHR 0x22 # s @ [CHR 0x22])"
proof -
  assume p: "plain_text s"
  then have "concat (map escape s) = s" by (induction s) (auto simp: plain_text_def)
  with p show ?thesis by (simp add: quoted_eq plain_text_def list_all_iff)
qed

lemma hex64_plain: "hex64 h \<Longrightarrow> plain_text h"
  by (auto simp: hex64_def plain_text_def list_all_iff is_hex_char_def is_digit_def char_le_iff)

lemma frozen_ids_plain: "c \<in> set (frozen_cases H) \<Longrightarrow> plain_text (c_id c)"
  by (auto simp: frozen_cases_def frozen_case_data_def with_digests_def plain_text_def)

lemma frozen_digests_hex64:
  assumes "digest32 H" and "c \<in> set (frozen_cases H)"
  shows "hex64 (c_old_digest c)" "hex64 (c_latest_digest c)"
  using assms hex_bytes_chars
  by (auto simp: frozen_cases_def with_digests_def hex64_def digest32_def)

lemma render_p11_text:
  assumes "hex64 p10" and "plain_text (c_id c)" and "hex64 (c_latest_digest c)"
  shows "render_p11 c p10 = Inr (p11_text c p10)"
  using assms by (simp add: render_p11_def run_simps plain_quoted hex64_plain p11_text_def)

lemma render_p11_frozen:
  assumes "digest32 H" and "c \<in> set (frozen_cases H)" and "hex64 p10"
  shows "render_p11 c p10 = Inr (p11_text c p10)"
  using assms by (simp add: render_p11_text frozen_ids_plain frozen_digests_hex64)

lemma p11_text_length_active:
  assumes "digest32 H" and "hex64 p10"
  shows "length (p11_text (frozen_cases H ! 0) p10) = 299"
proof -
  have "length (c_latest_digest (frozen_cases H ! 0)) = 64"
    using frozen_digests_hex64 [OF assms(1) frozen_cases_nth(1)] by (simp add: hex64_def)
  moreover have "c_id (frozen_cases H ! 0) = ''spent-budget-active''" "c_generation (frozen_cases H ! 0) = 1"
    "c_worker_runs (frozen_cases H ! 0) = 1" "c_status (frozen_cases H ! 0) = ''ACTIVE''"
    by (simp_all add: frozen_cases_def frozen_case_data_def with_digests_def)
  ultimately show ?thesis using assms(2)
    by (simp add: p11_text_def hex64_def decimal_def to_decimal.simps)
qed

lemma p11_text_length_terminal:
  assumes "digest32 H" and "hex64 p10"
  shows "length (p11_text (frozen_cases H ! 1) p10) = 300"
proof -
  have "length (c_latest_digest (frozen_cases H ! 1)) = 64"
    using frozen_digests_hex64 [OF assms(1) frozen_cases_nth(2)] by (simp add: hex64_def)
  moreover have "c_id (frozen_cases H ! 1) = ''spent-budget-terminal''" "c_generation (frozen_cases H ! 1) = 2"
    "c_worker_runs (frozen_cases H ! 1) = 1" "c_status (frozen_cases H ! 1) = ''FAILED''"
    by (simp_all add: frozen_cases_def frozen_case_data_def with_digests_def)
  ultimately show ?thesis using assms(2)
    by (simp add: p11_text_def hex64_def decimal_def to_decimal.simps)
qed

lemma quoted_ok: "quoted s = Inr q \<longleftrightarrow> list_all (\<lambda>c. 0x20 \<le> (of_char c :: nat)) s \<and> q = CHR 0x22 # concat (map escape s) @ [CHR 0x22]"
  by (auto simp: quoted_eq)

lemma decimal_inject: "decimal m = decimal n \<longleftrightarrow> m = n"
  by (simp add: decimal_def to_decimal_inject word_eq_iff_unsigned [where ?'a = nat])

lemma decimal_sep_eq:
  "decimal m @ CHR '','' # s = decimal n @ CHR '','' # t \<longleftrightarrow> m = n \<and> s = t"
proof -
  have "CHR '','' \<notin> set (decimal x)" for x
    using to_decimal_digits [of "unat x"] by (auto simp: decimal_def list_all_iff is_digit_iff)
  then show ?thesis
    by (simp add: append_sep_eq decimal_inject)
qed

text \<open>\<^bold>\<open>C24.\<close> The P11 head record binds what it was rendered from: equal records have the same
  P10 digest, case id, latest digest, generation, number of worker runs and terminal flag, whatever
  the texts are (quotation marks and backslashes in them are escaped).\<close>

theorem render_p11_binds:
  assumes "render_p11 c p = Inr t" and "render_p11 c' p' = Inr t"
  shows "p = p' \<and> c_id c = c_id c' \<and> c_latest_digest c = c_latest_digest c' \<and>
    c_generation c = c_generation c' \<and> c_worker_runs c = c_worker_runs c' \<and>
    (c_status c = ''FAILED'' \<longleftrightarrow> c_status c' = ''FAILED'')"
  using assms
  by (auto simp: render_p11_def run_iff quoted_ok escaped_sep_eq decimal_sep_eq decimal_inject split: if_splits)

theorem render_p11_binds_witness:
  "\<exists>t t'. render_p11 (frozen_cases pad_digest ! 0) (replicate 64 (CHR ''a'')) = Inr t \<and>
     render_p11 (frozen_cases pad_digest ! 1) (replicate 64 (CHR ''a'')) = Inr t' \<and> t \<noteq> t'"
proof -
  have "hex64 (replicate 64 (CHR ''a''))"
    by (simp add: hex64_def list_all_iff is_hex_char_def char_le_iff)
  then obtain t t' where t: "render_p11 (frozen_cases pad_digest ! 0) (replicate 64 (CHR ''a'')) = Inr t"
      and t': "render_p11 (frozen_cases pad_digest ! 1) (replicate 64 (CHR ''a'')) = Inr t'"
    using render_p11_frozen [OF pad_digest32 frozen_cases_nth(1)] render_p11_frozen [OF pad_digest32 frozen_cases_nth(2)]
    by blast
  have "c_id (frozen_cases pad_digest ! 0) \<noteq> c_id (frozen_cases pad_digest ! 1)"
    by (simp add: frozen_cases_def frozen_case_data_def with_digests_def)
  then have "t \<noteq> t'" using render_p11_binds [OF t] t' by blast
  with t t' show ?thesis by blast
qed

end
