(* ===== verification/Snapshot.thy ===== *)
theory Snapshot
  imports Rendering
begin

text \<open>
  The snapshot comparison (\<^verbatim>\<open>snapshot.hpp\<close>, \<^verbatim>\<open>snapshot.cpp\<close>): a fresh controller opens a session on
  the state directory, takes an inventory, holds every present child, reads the held children, takes
  the inventory again, reads again, and only then classifies what it saw.

  The virtual interfaces \<^verbatim>\<open>SnapshotSource\<close>, \<^verbatim>\<open>SnapshotSession\<close> and \<^verbatim>\<open>SnapshotHashProvider\<close> are records
  of their operations on a world; a session carries its destructor, which runs when the
  \<^verbatim>\<open>std::unique_ptr\<close> leaves its scope.  The evidence is a local object of \<open>compare_impl\<close> that its
  handlers complete after an exception, so the body is a computation on the pair of the evidence
  and the world.
\<close>

section \<open>Profiles, entries and interfaces\<close>

definition directory_profile :: string where
  "directory_profile = ''NtCreateFile:FILE_LIST_DIRECTORY|FILE_READ_ATTRIBUTES|READ_CONTROL|SYNCHRONIZE;FILE_SHARE_READ;FILE_OPEN;FILE_DIRECTORY_FILE|FILE_OPEN_REPARSE_POINT|FILE_OPEN_FOR_BACKUP_INTENT|FILE_SYNCHRONOUS_IO_NONALERT;OBJ_CASE_INSENSITIVE|OBJ_DONT_REPARSE''"

definition child_profile :: string where
  "child_profile = ''NtCreateFile:FILE_READ_DATA|FILE_READ_ATTRIBUTES|READ_CONTROL|SYNCHRONIZE;FILE_SHARE_READ;FILE_OPEN;FILE_NON_DIRECTORY_FILE|FILE_OPEN_REPARSE_POINT|FILE_SYNCHRONOUS_IO_NONALERT;OBJ_CASE_INSENSITIVE|OBJ_DONT_REPARSE''"

definition general_identity_profile :: string where
  "general_identity_profile = ''protected-object identity/read: operation-specific access;default FILE_SHARE_READ|FILE_SHARE_WRITE without FILE_SHARE_DELETE;never a mutable snapshot profile''"

record entry =
  en_name :: string
  en_type :: string
  en_file_id :: string
  en_parent_id :: string
  en_reparse :: bool

record 'w snapshot_session =
  ss_directory_identity :: "('w, string) cpp"
  ss_inventory :: "('w, entry list) cpp"
  ss_hold_child :: "string \<Rightarrow> ('w, unit) cpp"
  ss_held_identity :: "string \<Rightarrow> ('w, string) cpp"
  ss_read_child :: "string \<Rightarrow> ('w, string) cpp"
  ss_destroy :: "'w \<Rightarrow> 'w"

record 'w snapshot_source =
  so_open :: "string \<Rightarrow> ('w, 'w snapshot_session option) cpp"

record 'w snapshot_hash_provider =
  hp_hash_p11 :: "string \<Rightarrow> ('w, string) cpp"
  hp_digest_mutable_set :: "file_map \<Rightarrow> ('w, string) cpp"

section \<open>Inventories\<close>

definition is_dot :: "string \<Rightarrow> bool" where
  "is_dot name \<longleftrightarrow> name = ''.'' \<or> name = ''..''"

definition names :: "entry list \<Rightarrow> string list" where
  "names entries = sort (map en_name (filter (\<lambda>e. \<not> is_dot (en_name e)) entries))"

text \<open>The exception \<^verbatim>\<open>throw ObservationFailure(kind, object, profile, step, message)\<close>.\<close>

definition observe :: "error_kind \<Rightarrow> string \<Rightarrow> string \<Rightarrow> string \<Rightarrow> string \<Rightarrow> exn" where
  "observe k ob pr st msg = Observation (observation_failure_of k ob pr st msg)"

fun check_entries_loop :: "fixture_case \<Rightarrow> string \<Rightarrow> string \<Rightarrow> string list \<Rightarrow> entry list \<Rightarrow> exn + unit" where
  "check_entries_loop f dir_id step seen [] = Inr ()"
| "check_entries_loop f dir_id step seen (e # es) =
     (if is_dot (en_name e) then check_entries_loop f dir_id step seen es
      else
        bindE (guardE (\<not> (en_name e = [] \<or>
            has_any_of [CHR ''/'', CHR 0x5C, CHR 0x0D, CHR 0x0A, CHR 0x09] (en_name e) \<or>
            en_name e \<in> set seen))
          (observe Err_malformed (en_name e) directory_profile step ''malformed or duplicate entry'')) (\<lambda>_.
        bindE (guardE (\<not> en_reparse e)
          (observe Err_reparse (en_name e) child_profile step ''reparse entry'')) (\<lambda>_.
        bindE (guardE (\<not> (en_type e \<noteq> ''regular'' \<or> en_file_id e = [] \<or> en_parent_id e \<noteq> dir_id))
          (observe Err_identity_drift (en_name e) child_profile step ''type or parent identity mismatch'')) (\<lambda>_.
        bindE (guardE (map_contains (c_latest_files f) (en_name e))
          (observe Err_unexpected_entry (en_name e) directory_profile step ''unlisted state child'')) (\<lambda>_.
        check_entries_loop f dir_id step (en_name e # seen) es)))))"

definition check_entries :: "entry list \<Rightarrow> fixture_case \<Rightarrow> string \<Rightarrow> string \<Rightarrow> exn + unit" where
  "check_entries entries f dir_id step = check_entries_loop f dir_id step [] entries"

section \<open>The comparison\<close>

text \<open>\<^verbatim>\<open>m.at(k)\<close> with its exception.\<close>

definition at_or_throw :: "(string, 'v) std_map \<Rightarrow> string \<Rightarrow> exn + 'v" where
  "at_or_throw m k = (case map_at m k of Some v \<Rightarrow> Inr v | None \<Rightarrow> Inl (Std Out_of_range ''map::at''))"

fun hold_children :: "'w snapshot_session \<Rightarrow> entry list \<Rightarrow> file_map \<Rightarrow> ('w, file_map) cpp" where
  "hold_children s [] ids = returnM ids"
| "hold_children s (e # es) ids =
     (if is_dot (en_name e) then hold_children s es ids
      else
        bindM (ss_hold_child s (en_name e)) (\<lambda>_.
        bindM (ss_held_identity s (en_name e)) (\<lambda>fid.
        bindM (guardM (\<not> fid \<noteq> en_file_id e)
          (observe Err_identity_drift (en_name e) child_profile ''hold-identity''
             ''opened child differs from enumeration'')) (\<lambda>_.
        hold_children s es (map_emplace (en_name e) fid ids)))))"

fun read_children ::
  "'w bcrypt \<Rightarrow> 'w snapshot_session \<Rightarrow> file_map \<Rightarrow> file_map \<Rightarrow> (evidence \<times> 'w, file_map) cpp"
where
  "read_children bc s [] bytes = returnM bytes"
| "read_children bc s ((name, fid) # ids) bytes =
     bindM (outerM (ss_read_child s name)) (\<lambda>content.
     let bytes' = map_emplace name content bytes in
     bindM (localM (\<lambda>e. e\<lparr>e_held_file_ids := map_assign name fid (e_held_file_ids e)\<rparr>)) (\<lambda>_.
     bindM (catch_std
         (bindM (liftM (at_or_throw bytes' name)) (\<lambda>b.
          bindM (outerM (sha256 bc b)) (\<lambda>digest.
          localM (\<lambda>e. e\<lparr>e_content_sha256 := map_assign name digest (e_content_sha256 e)\<rparr>))))
         (\<lambda>what. throwM (observe Err_hash_failure name ''BCrypt-SHA256/state-child'' ''child-hash'' what))) (\<lambda>_.
     read_children bc s ids bytes')))"

fun recheck_children ::
  "'w snapshot_session \<Rightarrow> file_map \<Rightarrow> file_map \<Rightarrow> entry list \<Rightarrow> ('w, unit) cpp"
where
  "recheck_children s ids bytes [] = returnM ()"
| "recheck_children s ids bytes (e # es) =
     (if is_dot (en_name e) then recheck_children s ids bytes es
      else
        bindM (liftM (at_or_throw ids (en_name e))) (\<lambda>fid.
        bindM (if fid \<noteq> en_file_id e then returnM True
               else bindM (ss_held_identity s (en_name e)) (\<lambda>held.
                    bindM (liftM (at_or_throw ids (en_name e))) (\<lambda>fid2. returnM (held \<noteq> fid2)))) (\<lambda>drift.
        bindM (guardM (\<not> drift)
          (observe Err_identity_drift (en_name e) child_profile ''final-child-identity''
             ''child identity changed'')) (\<lambda>_.
        bindM (ss_read_child s (en_name e)) (\<lambda>content.
        bindM (liftM (at_or_throw bytes (en_name e))) (\<lambda>b.
        bindM (guardM (\<not> content \<noteq> b)
          (observe Err_identity_drift (en_name e) child_profile ''final-content'' ''held content changed'')) (\<lambda>_.
        recheck_children s ids bytes es)))))))"

text \<open>The classification of the observed bytes, after \<^verbatim>\<open>e.snapshot_complete = true\<close>.\<close>

definition classify :: "fixture_case \<Rightarrow> file_map \<Rightarrow> evidence \<Rightarrow> evidence" where
  "classify fixture bytes e =
     (if bytes = [] then e\<lparr>e_verdict := Reject_deleted, e_detail := ''complete empty state set''\<rparr>
      else if e_observed_digest e = c_latest_digest fixture \<and> bytes = c_latest_files fixture
      then e\<lparr>e_verdict := Accept_current, e_detail := ''exact latest set''\<rparr>
      else if e_observed_digest e = c_old_digest fixture \<and> bytes = c_old_files fixture
      then e\<lparr>e_verdict := Reject_restored_old, e_detail := ''complete old set''\<rparr>
      else e\<lparr>e_verdict := Reject_mismatch, e_detail := ''complete observed noncurrent set''\<rparr>)"

text \<open>The statements of the outer \<^verbatim>\<open>try\<close> block, in order: the head binding, the work on an open session,
  and the whole.\<close>

definition head_handler :: "exn \<Rightarrow> ('w, unit) cpp" where
  "head_handler x = (case x of
       Observation f \<Rightarrow> throwM (Observation f)
     | Std c msg \<Rightarrow> throwM (observe Err_binding_failure ''P11'' ''protected-marker-v1'' ''head-binding'' msg)
     | _ \<Rightarrow> throwM x)"

definition bind_head ::
  "'w snapshot_hash_provider \<Rightarrow> fixture_case \<Rightarrow> string \<Rightarrow> string \<Rightarrow> (evidence \<times> 'w, unit) cpp"
where
  "bind_head hp fixture p11 p10_sha256 =
     bindM (catch_std
         (bindM (outerM (hp_hash_p11 hp p11)) (\<lambda>h. localM (\<lambda>e. e\<lparr>e_p11_sha256 := h\<rparr>)))
         (\<lambda>what. throwM (observe Err_hash_failure ''P11'' ''BCrypt-SHA256/P11'' ''p11-hash'' what))) (\<lambda>_.
     catchM
       (bindM (liftM (render_p11 fixture p10_sha256)) (\<lambda>rendered.
        guardM (\<not> p11 \<noteq> rendered)
          (observe Err_binding_failure ''P11'' ''protected-marker-v1'' ''head-binding''
             ''protected marker/head mismatch'')))
       head_handler)"

definition observe_session ::
  "'w bcrypt \<Rightarrow> 'w snapshot_hash_provider \<Rightarrow> fixture_case \<Rightarrow> string \<Rightarrow> 'w snapshot_session \<Rightarrow>
   (evidence \<times> 'w, unit) cpp"
where
  "observe_session bc hp fixture expected_directory_id s =
     bindM (outerM (ss_directory_identity s)) (\<lambda>dir_id.
     bindM (guardM (\<not> (dir_id = [] \<or> dir_id \<noteq> expected_directory_id))
       (observe Err_identity_drift ''state/'' directory_profile ''directory-identity''
          ''directory differs from G2 record'')) (\<lambda>_.
     bindM (outerM (ss_inventory s)) (\<lambda>before.
     bindM (localM (\<lambda>e. e\<lparr>e_before_inventory := names before\<rparr>)) (\<lambda>_.
     bindM (liftM (check_entries before fixture dir_id ''initial-inventory'')) (\<lambda>_.
     bindM (outerM (hold_children s before [])) (\<lambda>ids.
     bindM (read_children bc s ids []) (\<lambda>bytes.
     bindM (outerM (ss_inventory s)) (\<lambda>after.
     bindM (localM (\<lambda>e. e\<lparr>e_after_inventory := names after\<rparr>)) (\<lambda>_.
     bindM (liftM (check_entries after fixture dir_id ''final-inventory'')) (\<lambda>_.
     bindM (readM (\<lambda>e. e_before_inventory e = e_after_inventory e)) (\<lambda>same.
     bindM (guardM same
       (observe Err_identity_drift ''state/'' directory_profile ''final-inventory''
          ''directory inventory changed'')) (\<lambda>_.
     bindM (outerM (ss_directory_identity s)) (\<lambda>final_id.
     bindM (guardM (\<not> final_id \<noteq> dir_id)
       (observe Err_identity_drift ''state/'' directory_profile ''final-directory-identity''
          ''directory identity changed'')) (\<lambda>_.
     bindM (outerM (recheck_children s ids bytes after)) (\<lambda>_.
     bindM (catch_std
         (bindM (outerM (hp_digest_mutable_set hp bytes)) (\<lambda>d. localM (\<lambda>e. e\<lparr>e_observed_digest := d\<rparr>)))
         (\<lambda>what. throwM (observe Err_hash_failure ''state/'' ''BCrypt-SHA256/mutable-set-v1''
             ''final-mutable-digest'' what))) (\<lambda>_.
     bindM (localM (\<lambda>e. e\<lparr>e_snapshot_complete := True\<rparr>)) (\<lambda>_.
     localM (classify fixture bytes))))))))))))))))))"

definition compare_body ::
  "'w bcrypt \<Rightarrow> 'w snapshot_source \<Rightarrow> 'w snapshot_hash_provider \<Rightarrow> fixture_case \<Rightarrow> string \<Rightarrow> string \<Rightarrow> string \<Rightarrow>
   (evidence \<times> 'w, unit) cpp"
where
  "compare_body bc source hp fixture expected_directory_id p11 p10_sha256 =
     bindM (bind_head hp fixture p11 p10_sha256) (\<lambda>_.
     bindM (outerM (so_open source directory_profile)) (\<lambda>session.
     case session of
       None \<Rightarrow> throwM (observe Err_incomplete ''state/'' directory_profile ''open'' ''null session'')
     | Some s \<Rightarrow>
         scopeM (observe_session bc hp fixture expected_directory_id s) (\<lambda>(e, w). (e, ss_destroy s w))))"

text \<open>The two handlers of the outer \<^verbatim>\<open>try\<close>.  There is no \<^verbatim>\<open>catch (...)\<close>.\<close>

definition stop_with :: "observation_failure \<Rightarrow> evidence \<Rightarrow> evidence" where
  "stop_with f e = e\<lparr>e_verdict := Stop_inconclusive, e_snapshot_complete := False, e_error := f_kind f,
     e_object := f_object f, e_profile := f_profile f, e_step := f_step f, e_detail := f_message f,
     e_ntstatus := f_ntstatus f, e_has_ntstatus := f_has_ntstatus f,
     e_win32_error := f_win32_error f, e_has_win32_error := f_has_win32_error f\<rparr>"

definition stop_unclassified :: "string \<Rightarrow> evidence \<Rightarrow> evidence" where
  "stop_unclassified msg e = e\<lparr>e_verdict := Stop_inconclusive, e_snapshot_complete := False,
     e_error := Err_incomplete, e_object := ''state/'', e_profile := directory_profile,
     e_step := ''unclassified-observation'', e_detail := msg\<rparr>"

definition compare_impl ::
  "'w bcrypt \<Rightarrow> 'w snapshot_source \<Rightarrow> fixture_case \<Rightarrow> string \<Rightarrow> string \<Rightarrow> string \<Rightarrow> bool \<Rightarrow> bool \<Rightarrow>
   'w snapshot_hash_provider \<Rightarrow> ('w, evidence) cpp"
where
  "compare_impl bc source fixture expected_directory_id p11 p10_sha256 process_reached broker_read_reached hp =
     (let e = evidence_init\<lparr>e_case_id := c_id fixture, e_process_reached := process_reached,
                e_broker_read_reached := broker_read_reached, e_expected_digest := c_latest_digest fixture\<rparr>
      in if \<not> process_reached \<or> \<not> broker_read_reached
         then returnM (e\<lparr>e_error := Err_binding_failure, e_step := ''reach'',
                e_detail := ''fresh A2 process and authenticated A3 read required''\<rparr>)
         else with_local e
           (catchM (compare_body bc source hp fixture expected_directory_id p11 p10_sha256)
             (\<lambda>x. case x of
                  Observation f \<Rightarrow> localM (stop_with f)
                | Std c msg \<Rightarrow> localM (stop_unclassified msg)
                | _ \<Rightarrow> throwM x)))"

definition bcrypt_snapshot_hash_provider :: "'w bcrypt \<Rightarrow> 'w snapshot_hash_provider" where
  "bcrypt_snapshot_hash_provider bc = \<lparr>hp_hash_p11 = sha256 bc, hp_digest_mutable_set = mutable_digest bc\<rparr>"

definition compare_fresh_controller ::
  "'w bcrypt \<Rightarrow> 'w snapshot_source \<Rightarrow> fixture_case \<Rightarrow> string \<Rightarrow> string \<Rightarrow> string \<Rightarrow> bool \<Rightarrow> bool \<Rightarrow>
   ('w, evidence) cpp"
where
  "compare_fresh_controller bc source fixture expected_directory_id p11 p10_sha256 process_reached broker_read_reached =
     compare_impl bc source fixture expected_directory_id p11 p10_sha256 process_reached broker_read_reached
       (bcrypt_snapshot_hash_provider bc)"

definition compare_with_hash_provider ::
  "'w bcrypt \<Rightarrow> 'w snapshot_source \<Rightarrow> fixture_case \<Rightarrow> string \<Rightarrow> string \<Rightarrow> string \<Rightarrow> bool \<Rightarrow> bool \<Rightarrow>
   'w snapshot_hash_provider \<Rightarrow> ('w, evidence) cpp"
where
  "compare_with_hash_provider bc source fixture expected_directory_id p11 p10_sha256 process_reached
     broker_read_reached hp =
     compare_impl bc source fixture expected_directory_id p11 p10_sha256 process_reached broker_read_reached hp"

section \<open>What a completed observation shows\<close>

text \<open>The children of an inventory, without the two dot entries.\<close>

definition present :: "entry list \<Rightarrow> entry list" where
  "present entries = filter (\<lambda>e. \<not> is_dot (en_name e)) entries"

definition good_entry :: "fixture_case \<Rightarrow> string \<Rightarrow> entry \<Rightarrow> bool" where
  "good_entry f dir_id e \<longleftrightarrow> \<not> bad_child_name (en_name e) \<and> \<not> en_reparse e \<and> en_type e = ''regular'' \<and>
     en_file_id e \<noteq> [] \<and> en_parent_id e = dir_id \<and> map_contains (c_latest_files f) (en_name e)"

lemma present_simps [simp]:
  "present [] = []"
  "present (e # es) = (if is_dot (en_name e) then present es else e # present es)"
  by (simp_all add: present_def)

lemma names_present: "names es = sort (map en_name (present es))"
  by (simp add: names_def present_def)

lemma check_entries_loop_ok:
  "check_entries_loop f d st seen es = Inr u \<longleftrightarrow>
     distinct (map en_name (present es)) \<and> set (map en_name (present es)) \<inter> set seen = {} \<and>
     list_all (good_entry f d) (present es)"
  by (induction f d st seen es rule: check_entries_loop.induct)
    (auto simp: run_iff good_entry_def bad_child_name_def is_dot_def)

lemma check_entries_ok:
  "check_entries es f d st = Inr u \<longleftrightarrow>
     distinct (map en_name (present es)) \<and> list_all (good_entry f d) (present es)"
  by (simp add: check_entries_def check_entries_loop_ok)

abbreviation entry_ids :: "entry list \<Rightarrow> file_map" where
  "entry_ids es \<equiv> map (\<lambda>e. (en_name e, en_file_id e)) (present es)"

lemma hold_children_ok:
  "hold_children s es ids w = (Inr ids', w') \<Longrightarrow> ids' = sorted_map.fill (entry_ids es) ids"
  by (induction s es ids arbitrary: w rule: hold_children.induct) (auto simp: run_iff split: if_splits)

text \<open>A content was returned by a read of the child of that name.\<close>

definition was_read :: "'w snapshot_session \<Rightarrow> string \<Rightarrow> string \<Rightarrow> bool" where
  "was_read s name content \<longleftrightarrow> (\<exists>w w'. ss_read_child s name w = (Inr content, w'))"

lemma at_or_throw_ok: "at_or_throw m k = Inr v \<longleftrightarrow> map_at m k = Some v"
  by (auto simp: at_or_throw_def split: option.splits)

text \<open>A digest was returned by a hash of that content.\<close>

definition was_hashed :: "'w bcrypt \<Rightarrow> string \<Rightarrow> string \<Rightarrow> bool" where
  "was_hashed bc content digest \<longleftrightarrow> (\<exists>w w'. sha256 bc content w = (Inr digest, w'))"

fun assign_all :: "file_map \<Rightarrow> file_map \<Rightarrow> file_map" where
  "assign_all [] m = m"
| "assign_all ((k, v) # kvs) m = assign_all kvs (map_assign k v m)"

text \<open>The read loop over distinct names: it fills the byte map with what was read, and records in the
  evidence the held identity and the hash of each of those contents.\<close>

lemma read_children_ok:
  assumes "read_children bc s ids bytes (e, w) = (Inr bytes', (e', w'))"
    and "map_invar bytes" and "distinct (map fst ids)" and "\<forall>n \<in> fst ` set ids. map_at bytes n = None"
  shows "\<exists>contents digests. length contents = length ids \<and> length digests = length ids \<and>
    bytes' = sorted_map.fill (zip (map fst ids) contents) bytes \<and>
    list_all2 (\<lambda>kv c. was_read s (fst kv) c) ids contents \<and> list_all2 (was_hashed bc) contents digests \<and>
    e' = e\<lparr>e_held_file_ids := assign_all ids (e_held_file_ids e),
           e_content_sha256 := assign_all (zip (map fst ids) digests) (e_content_sha256 e)\<rparr>"
  using assms
proof (induction bc s ids bytes arbitrary: e w rule: read_children.induct)
  case (1 bc s bytes)
  then show ?case by (auto simp: run_iff)
next
  case (2 bc s name fid ids bytes)
  let ?e2 = "\<lambda>d. e\<lparr>e_held_file_ids := map_assign name fid (e_held_file_ids e),
      e_content_sha256 := map_assign name d (e_content_sha256 e)\<rparr>"
  have fresh: "map_at (map_emplace name content bytes) name = Some content" for content
    using "2.prems" by (simp add: sorted_map.lookup_emplace)
  from "2.prems"(1) fresh obtain content w1 d w2 w3 where
    read: "ss_read_child s name w = (Inr content, w1)" and hash: "sha256 bc content w1 = (Inr d, w2)"
    and rest: "read_children bc s ids (map_emplace name content bytes) (?e2 d, w3) = (Inr bytes', (e', w'))"
    by (auto simp: run_iff Let_def at_or_throw_ok)
  have "\<forall>n \<in> fst ` set ids. map_at (map_emplace name content bytes) n = None"
    using "2.prems"(2-4) by (auto simp: sorted_map.lookup_emplace)
  with "2.IH" [OF refl rest] "2.prems" obtain contents digests where c: "length contents = length ids"
      "length digests = length ids"
      "bytes' = sorted_map.fill (zip (map fst ids) contents) (map_emplace name content bytes)"
      "list_all2 (\<lambda>kv c. was_read s (fst kv) c) ids contents" "list_all2 (was_hashed bc) contents digests"
      "e' = (?e2 d)\<lparr>e_held_file_ids := assign_all ids (e_held_file_ids (?e2 d)),
           e_content_sha256 := assign_all (zip (map fst ids) digests) (e_content_sha256 (?e2 d))\<rparr>"
    by (auto simp: map_emplace_invar)
  moreover have "was_read s name content" using read by (auto simp: was_read_def)
  moreover have "was_hashed bc content d" using hash by (auto simp: was_hashed_def)
  ultimately show ?case
    by (intro exI [of _ "content # contents"] exI [of _ "d # digests"]) simp
qed

lemma recheck_children_ok:
  assumes "recheck_children s ids bytes es w = (Inr u, w')"
  shows "list_all (\<lambda>e. map_at ids (en_name e) = Some (en_file_id e) \<and>
    (\<exists>c. map_at bytes (en_name e) = Some c \<and> was_read s (en_name e) c)) (present es)"
  using assms
  by (induction s ids bytes es arbitrary: w rule: recheck_children.induct)
    (auto simp: run_iff at_or_throw_ok was_read_def split: if_splits)

text \<open>
  What a completed observation of a session established: both inventories list exactly the held
  names and file identities, every entry of them is a regular, non-reparse, expected child of the
  directory, and each byte string was read from the held child of its name.
\<close>

definition was_listed :: "'w snapshot_session \<Rightarrow> entry list \<Rightarrow> bool" where
  "was_listed s es \<longleftrightarrow> (\<exists>w w'. ss_inventory s w = (Inr es, w'))"

definition inventory_of :: "'w snapshot_session \<Rightarrow> fixture_case \<Rightarrow> string \<Rightarrow> file_map \<Rightarrow> entry list \<Rightarrow> bool" where
  "inventory_of s f dir_id ids es \<longleftrightarrow> was_listed s es \<and> distinct (map en_name (present es)) \<and>
     list_all (good_entry f dir_id) (present es) \<and> set (entry_ids es) = set ids"

definition saw_files :: "'w snapshot_session \<Rightarrow> fixture_case \<Rightarrow> string \<Rightarrow> file_map \<Rightarrow> file_map \<Rightarrow> bool" where
  "saw_files s f dir_id ids bytes \<longleftrightarrow>
     map_invar ids \<and> map_invar bytes \<and> map fst ids = map fst bytes \<and>
     list_all (\<lambda>(n, c). was_read s n c) bytes \<and>
     (\<exists>before after. inventory_of s f dir_id ids before \<and> inventory_of s f dir_id ids after)"

definition completed :: "evidence \<Rightarrow> entry list \<Rightarrow> file_map \<Rightarrow> file_map \<Rightarrow> string \<Rightarrow> evidence" where
  "completed e before ids hashes digest = e\<lparr>e_before_inventory := names before,
     e_held_file_ids := assign_all ids (e_held_file_ids e),
     e_content_sha256 := assign_all hashes (e_content_sha256 e),
     e_after_inventory := names before, e_observed_digest := digest, e_snapshot_complete := True\<rparr>"

lemma entry_ids_keys [simp]: "map fst (entry_ids es) = map en_name (present es)"
  by simp

lemma ids_of_recheck:
  assumes "names before = names after" and "ids = sorted_map.fill (entry_ids before) []"
    and "distinct (map en_name (present before))" and "distinct (map en_name (present after))"
    and "list_all (\<lambda>e. map_at ids (en_name e) = Some (en_file_id e)) (present after)"
  shows "set (entry_ids after) = set ids"
proof -
  have inv: "map_invar ids" using assms(2) by (simp add: sorted_map.fill_invar sorted_map.invar_empty)
  have "set (map en_name (present after)) = set (map en_name (present before))"
    using assms(1) by (metis names_present set_sort)
  then have keys: "fst ` set (entry_ids after) = fst ` set ids"
    using sorted_map.fill_entries_set [of "entry_ids before"] assms(2,3) by (simp add: image_image comp_def)
  have sub: "set (entry_ids after) \<subseteq> set ids"
    using assms(5) sorted_map.entries_graph [OF inv] by (auto simp: list_all_iff)
  have "(n, c) \<in> set (entry_ids after)" if "(n, c) \<in> set ids" for n c
  proof -
    have "n \<in> fst ` set ids" using that by (rule image_eqI [rotated]) simp
    then obtain kv where "kv \<in> set (entry_ids after)" "n = fst kv" unfolding keys [symmetric] by (rule imageE)
    then have "(n, snd kv) \<in> set (entry_ids after)" by simp
    then obtain v where v: "(n, v) \<in> set (entry_ids after)" ..
    then have "map_at ids n = Some v" using sub sorted_map.entries_graph [OF inv] by auto
    moreover have "map_at ids n = Some c" using that sorted_map.entries_graph [OF inv] by auto
    ultimately show ?thesis using v by simp
  qed
  with sub show ?thesis by auto
qed

lemma zip_read:
  assumes "list_all2 (\<lambda>kv c. was_read s (fst kv) c) ids contents"
  shows "list_all (\<lambda>(n, c). was_read s n c) (zip (map fst ids) contents)"
  using assms by (induction rule: list_all2_induct) auto

lemma observe_session_ok:
  assumes "observe_session bc hp fixture expected s (e, w) = (Inr u, (e', w'))"
  obtains before ids hashes bytes digest where
    "expected \<noteq> []" "saw_files s fixture expected ids bytes" "was_listed s before" "names before = map fst bytes"
    "map fst hashes = map fst bytes" "list_all2 (\<lambda>(n, c) (n', d). n = n' \<and> was_hashed bc c d) bytes hashes"
    "\<exists>w1 w2. hp_digest_mutable_set hp bytes w1 = (Inr digest, w2)"
    "e' = classify fixture bytes (completed e before ids hashes digest)"
proof -
  from assms obtain before w1 w2 ids w3 w4 bytes e5 w5 after w6 w7 w8 w9 digest w10 where
    dir: "expected \<noteq> []" and list1: "ss_inventory s w1 = (Inr before, w2)"
    and check1: "check_entries before fixture expected ''initial-inventory'' = Inr ()"
    and hold: "hold_children s before [] w2 = (Inr ids, w3)"
    and read: "read_children bc s ids [] (e\<lparr>e_before_inventory := names before\<rparr>, w3) = (Inr bytes, (e5, w5))"
    and list2: "ss_inventory s w5 = (Inr after, w6)"
    and check2: "check_entries after fixture expected ''final-inventory'' = Inr ()"
    and same: "e_before_inventory e5 = names after"
    and recheck: "recheck_children s ids bytes after w7 = (Inr (), w8)"
    and digest: "hp_digest_mutable_set hp bytes w8 = (Inr digest, w9)"
    and e': "e' = classify fixture bytes (e5\<lparr>e_after_inventory := names after, e_observed_digest := digest,
        e_snapshot_complete := True\<rparr>)"
    unfolding observe_session_def by (auto simp: run_iff)
  have ids: "ids = sorted_map.fill (entry_ids before) []" by (rule hold_children_ok [OF hold])
  have d1: "distinct (map en_name (present before))" and d2: "distinct (map en_name (present after))"
    using check1 check2 by (simp_all add: check_entries_ok)
  have inv: "map_invar ids" using ids by (simp add: sorted_map.fill_invar sorted_map.invar_empty)
  have keys: "map fst ids = names before"
    using sorted_map.fill_entries_keys [of "entry_ids before"] d1 ids by (simp add: names_present comp_def)
  obtain contents digests where c: "length contents = length ids" "length digests = length ids"
      "bytes = sorted_map.fill (zip (map fst ids) contents) []"
      "list_all2 (\<lambda>kv c. was_read s (fst kv) c) ids contents" "list_all2 (was_hashed bc) contents digests"
      and e5: "e5 = e\<lparr>e_before_inventory := names before, e_held_file_ids := assign_all ids (e_held_file_ids e),
           e_content_sha256 := assign_all (zip (map fst ids) digests) (e_content_sha256 e)\<rparr>"
    using read_children_ok [OF read] sorted_map.entries_distinct [OF inv] sorted_map.invar_empty
    by (auto simp: map_at_def)
  have bytes: "bytes = zip (map fst ids) contents"
    using c(1,3) inv by (simp add: fill_sorted map_invar_zip)
  have "saw_files s fixture expected ids bytes"
  proof -
    have "set (entry_ids before) = set ids"
      using sorted_map.fill_entries_set [of "entry_ids before"] d1 ids by (simp add: comp_def)
    moreover have "set (entry_ids after) = set ids"
      using ids_of_recheck [OF _ ids d1 d2] same e5 recheck_children_ok [OF recheck] by (simp add: list_all_iff)
    ultimately have "inventory_of s fixture expected ids before" "inventory_of s fixture expected ids after"
      using list1 list2 check1 check2 d1 d2 by (auto simp: inventory_of_def was_listed_def check_entries_ok)
    moreover have "list_all (\<lambda>(n, c). was_read s n c) bytes" unfolding bytes by (rule zip_read [OF c(4)])
    ultimately show ?thesis
      using inv c(1) by (auto simp: saw_files_def bytes map_invar_zip)
  qed
  moreover have "list_all2 (\<lambda>(n, c) (n', d). n = n' \<and> was_hashed bc c d) bytes (zip (map fst ids) digests)"
    using c(1,2,5) by (auto simp: bytes list_all2_conv_all_nth)
  moreover have "was_listed s before" "names before = map fst bytes" "map fst (zip (map fst ids) digests) = map fst bytes"
    using list1 c(1,2) unfolding keys [symmetric] by (auto simp: was_listed_def bytes)
  moreover have "e' = classify fixture bytes (completed e before ids (zip (map fst ids) digests) digest)"
    using same unfolding e' e5 completed_def by simp
  ultimately show thesis using that dir digest by blast
qed

section \<open>Evidence is fail-closed\<close>

lemma classify_simps [simp]:
  "e_snapshot_complete (classify f bytes e) = e_snapshot_complete e"
  "e_error (classify f bytes e) = e_error e"
  "e_verdict (classify f bytes e) \<noteq> Stop_inconclusive"
  "e_before_inventory (classify f bytes e) = e_before_inventory e"
  "e_after_inventory (classify f bytes e) = e_after_inventory e"
  "e_held_file_ids (classify f bytes e) = e_held_file_ids e"
  "e_content_sha256 (classify f bytes e) = e_content_sha256 e"
  "e_observed_digest (classify f bytes e) = e_observed_digest e"
  "e_case_id (classify f bytes e) = e_case_id e"
  by (simp_all add: classify_def)

definition start_evidence :: "fixture_case \<Rightarrow> evidence" where
  "start_evidence fixture = evidence_init\<lparr>e_case_id := c_id fixture, e_process_reached := True,
     e_broker_read_reached := True, e_expected_digest := c_latest_digest fixture\<rparr>"

lemma compare_impl_reached:
  "compare_impl bc source fixture dir p11 p10 True True hp =
     with_local (start_evidence fixture)
       (catchM (compare_body bc source hp fixture dir p11 p10)
         (\<lambda>x. case x of Observation f \<Rightarrow> localM (stop_with f) | Std c msg \<Rightarrow> localM (stop_unclassified msg)
            | _ \<Rightarrow> throwM x))"
  by (simp add: compare_impl_def start_evidence_def)

lemma head_handler_rethrows: "rethrows head_handler"
  by (auto simp: rethrows_def head_handler_def throwM_def split: exn.split)

lemma bind_head_ok:
  "bind_head hp fixture p11 p10 (e, w) = (Inr u, (e', w')) \<longleftrightarrow>
     (\<exists>h. hp_hash_p11 hp p11 w = (Inr h, w') \<and> e' = e\<lparr>e_p11_sha256 := h\<rparr>) \<and> render_p11 fixture p10 = Inr p11"
  unfolding bind_head_def by (auto simp: run_iff catchM_rethrows_ok [OF head_handler_rethrows])

lemma compare_body_ok:
  assumes "compare_body bc source hp fixture dir p11 p10 (e, w) = (Inr u, (e', w'))"
  obtains s h w1 w2 w3 where "render_p11 fixture p10 = Inr p11"
    "hp_hash_p11 hp p11 w = (Inr h, w1)" "so_open source directory_profile w1 = (Inr (Some s), w2)"
    "observe_session bc hp fixture dir s (e\<lparr>e_p11_sha256 := h\<rparr>, w2) = (Inr u, (e', w3))" "w' = ss_destroy s w3"
  using assms unfolding compare_body_def
  by (auto simp: run_iff bind_head_ok split: option.splits)

text \<open>A returned evidence is either complete, the end of a full run of the body, or it stops.\<close>

lemma compare_impl_cases:
  assumes "compare_impl bc source fixture dir p11 p10 pr br hp w = (Inr e, w')"
  obtains (stopped) "\<not> e_snapshot_complete e" "e_verdict e = Stop_inconclusive"
  | (complete) "pr" "br" "compare_body bc source hp fixture dir p11 p10 (start_evidence fixture, w) = (Inr (), (e, w'))"
proof (cases "pr \<and> br")
  case False
  with assms have "\<not> e_snapshot_complete e" "e_verdict e = Stop_inconclusive"
    by (auto simp: compare_impl_def returnM_def evidence_init_def)
  then show thesis by (rule stopped)
next
  case True
  with assms have r: "compare_impl bc source fixture dir p11 p10 True True hp w = (Inr e, w')" by simp
  then consider "compare_body bc source hp fixture dir p11 p10 (start_evidence fixture, w) = (Inr (), (e, w'))"
    | x e1 w1 where "(case x of Observation f \<Rightarrow> localM (stop_with f) | Std c msg \<Rightarrow> localM (stop_unclassified msg)
            | _ \<Rightarrow> throwM x) (e1, w1) = (Inr (), (e, w'))"
    by (auto simp: compare_impl_reached run_iff catchM_ok)
  then show thesis
  proof cases
    case 1
    with True show thesis by (blast intro: complete)
  next
    case 2
    then have "\<not> e_snapshot_complete e" "e_verdict e = Stop_inconclusive"
      by (cases x; auto simp: run_iff stop_with_def stop_unclassified_def)+
    then show thesis by (rule stopped)
  qed
qed

lemma compare_impl_complete:
  assumes "compare_impl bc source fixture dir p11 p10 pr br hp w = (Inr e, w')"
    and "e_snapshot_complete e \<or> e_verdict e \<noteq> Stop_inconclusive"
  obtains s h w1 w2 ids bytes digest e0 where "pr" "br" "render_p11 fixture p10 = Inr p11"
    "hp_hash_p11 hp p11 w = (Inr h, w1)" "so_open source directory_profile w1 = (Inr (Some s), w2)"
    "dir \<noteq> []" "saw_files s fixture dir ids bytes" "\<exists>w1 w2. hp_digest_mutable_set hp bytes w1 = (Inr digest, w2)"
    "e = classify fixture bytes e0" "e_observed_digest e0 = digest" "e_snapshot_complete e0" "e_error e0 = Err_none"
    "e_before_inventory e0 = map fst bytes" "e_after_inventory e0 = map fst bytes"
    "e_held_file_ids e0 = assign_all ids []"
    "\<exists>hashes. e_content_sha256 e0 = assign_all hashes [] \<and> map fst hashes = map fst bytes \<and>
       list_all2 (\<lambda>(n, c) (n', d). n = n' \<and> was_hashed bc c d) bytes hashes"
  using assms(1)
proof (cases rule: compare_impl_cases)
  case stopped
  with assms(2) show thesis by blast
next
  case complete
  from complete(3) obtain s h w1 w2 w3 where r: "render_p11 fixture p10 = Inr p11"
    "hp_hash_p11 hp p11 w = (Inr h, w1)" "so_open source directory_profile w1 = (Inr (Some s), w2)"
    "observe_session bc hp fixture dir s ((start_evidence fixture)\<lparr>e_p11_sha256 := h\<rparr>, w2) = (Inr (), (e, w3))"
    by (rule compare_body_ok)
  let ?e = "(start_evidence fixture)\<lparr>e_p11_sha256 := h\<rparr>"
  from r(4) obtain before ids hashes bytes digest where o: "dir \<noteq> []" "saw_files s fixture dir ids bytes"
    "names before = map fst bytes" "map fst hashes = map fst bytes"
    "list_all2 (\<lambda>(n, c) (n', d). n = n' \<and> was_hashed bc c d) bytes hashes"
    "\<exists>w1 w2. hp_digest_mutable_set hp bytes w1 = (Inr digest, w2)"
    "e = classify fixture bytes (completed ?e before ids hashes digest)"
    by (rule observe_session_ok)
  have f: "e_observed_digest (completed ?e before ids hashes digest) = digest"
    "e_snapshot_complete (completed ?e before ids hashes digest)"
    "e_error (completed ?e before ids hashes digest) = Err_none"
    "e_before_inventory (completed ?e before ids hashes digest) = map fst bytes"
    "e_after_inventory (completed ?e before ids hashes digest) = map fst bytes"
    "e_held_file_ids (completed ?e before ids hashes digest) = assign_all ids []"
    "e_content_sha256 (completed ?e before ids hashes digest) = assign_all hashes []"
    using o(3) by (simp_all add: completed_def start_evidence_def evidence_init_def)
  show thesis
    by (rule that [OF complete(1,2) r(1-3) o(1,2,6,7) f(1-6)]) (use f(7) o(4,5) in blast)
qed

text \<open>The exceptions the comparison handles: standard exceptions, and typed failures that name a real
  error.  A session or provider that throws only such exceptions is well behaved.\<close>

definition proper_exn :: "exn \<Rightarrow> bool" where
  "proper_exn x \<longleftrightarrow> is_std x \<and> (\<forall>f. x = Observation f \<longrightarrow> f_kind f \<noteq> Err_none)"

definition proper_session :: "'w snapshot_session \<Rightarrow> bool" where
  "proper_session s \<longleftrightarrow> raises_only proper_exn (ss_directory_identity s) \<and> raises_only proper_exn (ss_inventory s) \<and>
     (\<forall>n. raises_only proper_exn (ss_hold_child s n)) \<and> (\<forall>n. raises_only proper_exn (ss_held_identity s n)) \<and>
     (\<forall>n. raises_only proper_exn (ss_read_child s n))"

definition proper_source :: "'w snapshot_source \<Rightarrow> bool" where
  "proper_source source \<longleftrightarrow> (\<forall>p. raises_only proper_exn (so_open source p)) \<and>
     (\<forall>p w s w'. so_open source p w = (Inr (Some s), w') \<longrightarrow> proper_session s)"

definition proper_provider :: "'w snapshot_hash_provider \<Rightarrow> bool" where
  "proper_provider hp \<longleftrightarrow> (\<forall>b. raises_only proper_exn (hp_hash_p11 hp b)) \<and>
     (\<forall>m. raises_only proper_exn (hp_digest_mutable_set hp m))"

lemma proper_observe [simp]: "proper_exn (observe k ob pr st msg) \<longleftrightarrow> k \<noteq> Err_none"
  by (simp add: proper_exn_def observe_def observation_failure_of_def observation_failure_full_def)

lemma proper_std [simp]: "proper_exn (Std c m)"
  by (simp add: proper_exn_def)

text \<open>A typed failure with a real error kind.\<close>

definition typed_exn :: "exn \<Rightarrow> bool" where
  "typed_exn x \<longleftrightarrow> (\<exists>f. x = Observation f \<and> f_kind f \<noteq> Err_none)"

lemma typed_observe [simp]: "typed_exn (observe k ob pr st msg) \<longleftrightarrow> k \<noteq> Err_none"
  by (simp add: typed_exn_def observe_def observation_failure_of_def observation_failure_full_def)

lemma typed_proper: "typed_exn x \<Longrightarrow> proper_exn x"
  by (auto simp: typed_exn_def proper_exn_def)

text \<open>An \<^verbatim>\<open>ObservationFailure\<close> may carry the kind \<^verbatim>\<open>none\<close>: the class does not forbid it, and a handler that
  copies the kind then records a stop without an error.  \<open>kindless\<close> says that an operation can raise such a
  failure; an exception is \<open>known K\<close> when it is an \<^verbatim>\<open>ObservationFailure\<close> that names an error unless \<open>K\<close> holds,
  and \<open>lawful K\<close> when it is any C++ exception with the same reservation.\<close>

abbreviation defined :: "exn \<Rightarrow> bool" where
  "defined x \<equiv> x \<noteq> Undefined"

definition kindless :: "('w, 'a) cpp \<Rightarrow> bool" where
  "kindless m \<longleftrightarrow> (\<exists>w f w'. m w = (Inl (Observation f), w') \<and> f_kind f = Err_none)"

definition known :: "bool \<Rightarrow> exn \<Rightarrow> bool" where
  "known K x \<longleftrightarrow> (\<exists>f. x = Observation f \<and> (f_kind f = Err_none \<longrightarrow> K))"

definition lawful :: "bool \<Rightarrow> exn \<Rightarrow> bool" where
  "lawful K x \<longleftrightarrow> x \<noteq> Undefined \<and> (\<forall>f. x = Observation f \<longrightarrow> f_kind f = Err_none \<longrightarrow> K)"

lemma kindlessI: "m w = (Inl (Observation f), w') \<Longrightarrow> f_kind f = Err_none \<Longrightarrow> kindless m"
  by (auto simp: kindless_def)

lemma typed_known: "raises_only typed_exn m \<Longrightarrow> raises_only (known K) m"
  by (erule raises_only_mono) (auto simp: typed_exn_def known_def)

lemma raises_lawful: "raises_only defined m \<Longrightarrow> (kindless m \<Longrightarrow> K) \<Longrightarrow> raises_only (lawful K) m"
  by (auto simp: raises_only_def kindless_def lawful_def)

lemma catch_std_typed [raises_intros]:
  "raises_only std_only m \<Longrightarrow> k \<noteq> Err_none \<Longrightarrow>
     raises_only typed_exn (catch_std m (\<lambda>what. throwM (observe k ob pr st what)))"
  by (erule raises_only_catch_std) (auto intro!: raises_intros)

lemma std_proper: "raises_only std_only m \<Longrightarrow> raises_only proper_exn m"
  by (erule raises_only_mono) auto

lemma sha256_proper [raises_intros]: "raises_only proper_exn (sha256 bc b)"
  by (rule std_proper [OF sha256_raises])

lemma proper_session_ops [raises_intros]:
  assumes "proper_session s"
  shows "raises_only proper_exn (ss_directory_identity s)" "raises_only proper_exn (ss_inventory s)"
    "raises_only proper_exn (ss_hold_child s n)" "raises_only proper_exn (ss_held_identity s n)"
    "raises_only proper_exn (ss_read_child s n)"
  using assms by (simp_all add: proper_session_def)

lemma proper_provider_ops [raises_intros]:
  assumes "proper_provider hp"
  shows "raises_only proper_exn (hp_hash_p11 hp b)" "raises_only proper_exn (hp_digest_mutable_set hp m)"
  using assms by (simp_all add: proper_provider_def)

lemma check_entries_loop_raises: "check_entries_loop f d st seen es = Inl x \<Longrightarrow> proper_exn x"
  by (induction f d st seen es rule: check_entries_loop.induct) (auto simp: raise_iff split: if_splits)

lemma check_entries_raises [raises_intros]: "raises_only proper_exn (liftM (check_entries es f d st))"
  by (rule raises_only_liftM) (auto simp: check_entries_def check_entries_loop_raises)

lemma at_or_throw_raises [raises_intros]: "raises_only proper_exn (liftM (at_or_throw m k))"
  by (rule raises_only_liftM) (auto simp: at_or_throw_def split: option.splits)

lemma catch_std_observe_raises [raises_intros]:
  "raises_only proper_exn m \<Longrightarrow> k \<noteq> Err_none \<Longrightarrow>
     raises_only proper_exn (catch_std m (\<lambda>what. throwM (observe k ob pr st what)))"
  by (erule raises_only_catch_std) (intro raises_intros, simp, simp add: proper_exn_def)

lemma hold_children_raises [raises_intros]:
  "proper_session s \<Longrightarrow> raises_only proper_exn (hold_children s es ids)"
  by (induction s es ids rule: hold_children.induct) (auto intro!: raises_intros)

lemma read_children_raises [raises_intros]:
  "proper_session s \<Longrightarrow> raises_only proper_exn (read_children bc s ids bytes)"
  by (induction bc s ids bytes rule: read_children.induct) (auto intro!: raises_intros simp: Let_def)

lemma recheck_children_raises [raises_intros]:
  "proper_session s \<Longrightarrow> raises_only proper_exn (recheck_children s ids bytes es)"
  by (induction s ids bytes es rule: recheck_children.induct) (auto intro!: raises_intros)

lemma render_p11_raises: "render_p11 f p = Inl x \<Longrightarrow> std_only x"
  by (auto simp: render_p11_def raise_iff quoted_eq split: if_splits)

lemma bind_head_raises [raises_intros]:
  assumes "proper_provider hp"
  shows "raises_only proper_exn (bind_head hp f p11 p10)"
proof -
  have "raises_only proper_exn
      (bindM (liftM (render_p11 f p10)) (\<lambda>rendered. guardM (\<not> p11 \<noteq> rendered)
        (observe Err_binding_failure ''P11'' ''protected-marker-v1'' ''head-binding'' ''protected marker/head mismatch'')) ::
        (evidence \<times> 'a, unit) cpp)"
    by (intro raises_intros raises_only_liftM) (auto dest: render_p11_raises)
  then have "raises_only proper_exn (catchM
      (bindM (liftM (render_p11 f p10)) (\<lambda>rendered. guardM (\<not> p11 \<noteq> rendered)
        (observe Err_binding_failure ''P11'' ''protected-marker-v1'' ''head-binding'' ''protected marker/head mismatch'')))
      head_handler :: (evidence \<times> 'a, unit) cpp)"
    by (rule raises_only_catchM) (auto simp: head_handler_def intro!: raises_intros split: exn.split)
  then show ?thesis
    unfolding bind_head_def using assms by (auto intro!: raises_intros)
qed

lemma observe_session_raises [raises_intros]:
  "proper_session s \<Longrightarrow> proper_provider hp \<Longrightarrow> raises_only proper_exn (observe_session bc hp f dir s)"
  unfolding observe_session_def by (intro raises_intros) simp_all

lemma compare_body_raises:
  assumes "proper_source source" and "proper_provider hp"
  shows "raises_only proper_exn (compare_body bc source hp f dir p11 p10)"
  unfolding compare_body_def
proof (intro raises_only_bindM [OF bind_head_raises [OF assms(2)]] raises_only_bindM_dep)
  show "raises_only proper_exn (outerM (so_open source directory_profile))"
    using assms(1) by (auto intro: raises_intros simp: proper_source_def)
  fix session and lw lw' :: "evidence \<times> 'a"
  assume "outerM (so_open source directory_profile) lw = (Inr session, lw')"
  with assms(1) have "proper_session s" if "session = Some s" for s
    using that by (auto simp: run_iff proper_source_def) blast
  then show "raises_only proper_exn (case session of
       None \<Rightarrow> throwM (observe Err_incomplete ''state/'' directory_profile ''open'' ''null session'')
     | Some s \<Rightarrow> scopeM (observe_session bc hp f dir s) (\<lambda>(e, w). (e, ss_destroy s w)))"
    using assms(2) by (cases session) (auto intro!: raises_intros)
qed

lemma bcrypt_provider_proper [simp]: "proper_provider (bcrypt_snapshot_hash_provider bc)"
  by (auto simp: proper_provider_def bcrypt_snapshot_hash_provider_def intro!: std_proper raises_intros)

lemma compare_impl_total:
  assumes "proper_source source" and "proper_provider hp"
  shows "\<exists>e w'. compare_impl bc source fixture dir p11 p10 pr br hp w = (Inr e, w') \<and>
    (e_verdict e = Stop_inconclusive \<longleftrightarrow> \<not> e_snapshot_complete e) \<and>
    (e_error e \<noteq> Err_none \<longleftrightarrow> \<not> e_snapshot_complete e)"
proof (cases "pr \<and> br")
  case False
  then show ?thesis by (auto simp: compare_impl_def returnM_def evidence_init_def)
next
  case True
  obtain r e1 w1 where b: "compare_body bc source hp fixture dir p11 p10 (start_evidence fixture, w) = (r, (e1, w1))"
    by (cases "compare_body bc source hp fixture dir p11 p10 (start_evidence fixture, w)") (metis prod.collapse)
  show ?thesis
  proof (cases r)
    case (Inl x)
    then have x: "proper_exn x" using raises_onlyD [OF compare_body_raises [OF assms]] b by blast
    then show ?thesis
      using b Inl True
      by (cases x) (auto simp: compare_impl_reached with_local_def catchM_def localM_def stop_with_def
          stop_unclassified_def proper_exn_def)
  next
    case (Inr u)
    then have run: "compare_impl bc source fixture dir p11 p10 True True hp w = (Inr e1, w1)"
      using b by (simp add: compare_impl_reached with_local_def catchM_def)
    have "e_snapshot_complete e1 \<and> e_error e1 = Err_none \<and> e_verdict e1 \<noteq> Stop_inconclusive"
    proof -
      from b Inr obtain s h w2 w3 where
        "observe_session bc hp fixture dir s ((start_evidence fixture)\<lparr>e_p11_sha256 := h\<rparr>, w2) = (Inr u, (e1, w3))"
        by (auto elim: compare_body_ok)
      then obtain before ids hashes bytes digest where
        "e1 = classify fixture bytes (completed ((start_evidence fixture)\<lparr>e_p11_sha256 := h\<rparr>) before ids hashes digest)"
        by (rule observe_session_ok)
      then show ?thesis by (simp add: completed_def start_evidence_def evidence_init_def)
    qed
    with run True show ?thesis by auto
  qed
qed

text \<open>\<^bold>\<open>C5.\<close> The comparison is fail-closed: as long as the source and its session throw only standard
  exceptions (typed failures naming a real error), the entry point returns evidence and never throws,
  and a verdict is given exactly when the snapshot is complete, which is exactly when no error is
  recorded.\<close>

theorem compare_fail_closed:
  assumes "proper_source source"
  shows "\<exists>e w'. compare_fresh_controller bc source fixture dir p11 p10 pr br w = (Inr e, w') \<and>
    (e_verdict e = Stop_inconclusive \<longleftrightarrow> \<not> e_snapshot_complete e) \<and>
    (e_error e \<noteq> Err_none \<longleftrightarrow> \<not> e_snapshot_complete e)"
  unfolding compare_fresh_controller_def by (rule compare_impl_total [OF assms bcrypt_provider_proper])

section \<open>What a verdict means\<close>

lemma saw_files_invar: "saw_files s f dir ids bytes \<Longrightarrow> map_invar bytes"
  by (simp add: saw_files_def)


text \<open>The classification by contents alone.\<close>

definition expected_verdict :: "fixture_case \<Rightarrow> file_map \<Rightarrow> verdict" where
  "expected_verdict f bytes = (if bytes = [] then Reject_deleted else if bytes = c_latest_files f then Accept_current
     else if bytes = c_old_files f then Reject_restored_old else Reject_mismatch)"

lemma classify_expected:
  assumes "e_observed_digest e = hex_bytes (H (manifest_of H bytes))"
  shows "e_verdict (classify (with_digests H f) bytes e) = expected_verdict f bytes"
  using assms by (auto simp: classify_def expected_verdict_def with_digests_def)

text \<open>\<^bold>\<open>C4.\<close> Exact classification: when the digests of the case are those of its file sets and the provider
  computes the hash function, a complete snapshot has exactly the verdict that the observed file
  contents call for (deleted, current, restored old, or mismatch): the digest comparison never
  overrules the byte comparison, and the recorded hashes are those of the observed contents.\<close>

theorem verdict_exact:
  assumes "bcrypt_computes bc H"
    and "compare_fresh_controller bc source (with_digests H f) dir p11 p10 pr br w = (Inr e, w')"
    and "e_snapshot_complete e"
  shows "\<exists>s ids bytes w1 w2. so_open source directory_profile w1 = (Inr (Some s), w2) \<and>
    saw_files s (with_digests H f) dir ids bytes \<and> e_verdict e = expected_verdict f bytes \<and>
    e_observed_digest e = hex_bytes (H (manifest_of H bytes)) \<and>
    e_content_sha256 e = assign_all (map (\<lambda>(n, c). (n, hex_bytes (H c))) bytes) []"
proof -
  let ?f = "with_digests H f" and ?hp = "bcrypt_snapshot_hash_provider bc"
  have "compare_impl bc source ?f dir p11 p10 pr br ?hp w = (Inr e, w')"
    using assms(2) by (simp add: compare_fresh_controller_def)
  moreover have "e_snapshot_complete e \<or> e_verdict e \<noteq> Stop_inconclusive" using assms(3) by simp
  ultimately show ?thesis
  proof (rule compare_impl_complete, goal_cases)
    case (1 s h w1 w2 ids bytes digest e0)
    then have d: "digest = hex_bytes (H (manifest_of H bytes))"
      using mutable_digest_value [OF assms(1)] by (auto simp: bcrypt_snapshot_hash_provider_def)
    from 1(16) obtain hashes where h: "e_content_sha256 e0 = assign_all hashes []"
        "list_all2 (\<lambda>(n, c) (n', d). n = n' \<and> was_hashed bc c d) bytes hashes" by blast
    have "hashes = map (\<lambda>(n, c). (n, hex_bytes (H c))) bytes"
      using h(2) bcrypt_hash.hash_value [OF assms(1)]
      by (induction rule: list_all2_induct) (auto simp: was_hashed_def)
    with 1(5,7,9,10) d h(1) classify_expected [of e0 H bytes f] show ?case
      by (intro exI [of _ s] exI [of _ ids] exI [of _ bytes] exI [of _ w1] exI [of _ w2]) simp
  qed
qed

end
