(* ===== verification/Snapshot_Runs.thy ===== *)
theory Snapshot_Runs
  imports Snapshot
begin

text \<open>
  Complete runs of the snapshot comparison: on a session that serves a directory that does not
  change, with an available hash provider, the comparison completes and gives the verdict of
  the contents.  An in-memory directory instantiates it for the witnesses.
\<close>

section \<open>Available hashing\<close>

text \<open>The provider is available and computes \<open>H\<close>: every input whose length fits the call is hashed.\<close>

definition available :: "'w bcrypt \<Rightarrow> (string \<Rightarrow> bytes) \<Rightarrow> bool" where
  "available bc H \<longleftrightarrow> (\<forall>b. length b \<le> ulong_max \<longrightarrow> returns (sha256 bc b) (hex_bytes (H b)))"

lemma available_bcrypt_of: "available (bcrypt_of H) H"
  by (auto simp: available_def returns_def run_simps)

definition hashable :: "(string \<Rightarrow> bytes) \<Rightarrow> file_map \<Rightarrow> bool" where
  "hashable H files \<longleftrightarrow> list_all (\<lambda>(n, c). \<not> bad_child_name n \<and> length c \<le> ulong_max) files \<and>
     length (manifest_of H files) \<le> ulong_max"

lemma manifest_loop_returns:
  assumes "available bc H" and "list_all (\<lambda>(n, c). \<not> bad_child_name n \<and> length c \<le> ulong_max) files"
  shows "returns (manifest_loop bc m files)
    (m @ concat (map (\<lambda>(name, bs). manifest_line name (length bs) (hex_bytes (H bs))) files))"
  using assms(2)
proof (induction files arbitrary: m)
  case (Cons f files)
  obtain n c where f: "f = (n, c)" by (cases f)
  from Cons.prems f have "\<not> bad_child_name n" "returns (sha256 bc c) (hex_bytes (H c))"
    using assms(1) by (auto simp: available_def)
  with Cons.IH [of "m @ manifest_line n (length c) (hex_bytes (H c))"] Cons.prems f show ?case
    by (auto intro!: returns_intros)
qed (auto intro: returns_intros)

lemma mutable_digest_returns:
  assumes "available bc H" and "hashable H files"
  shows "returns (mutable_digest bc files) (hex_bytes (H (manifest_of H files)))"
proof -
  have "returns (manifest_loop bc manifest_header files) (manifest_of H files)"
    unfolding manifest_of_def using assms by (intro manifest_loop_returns) (auto simp: hashable_def)
  moreover have "returns (sha256 bc (manifest_of H files)) (hex_bytes (H (manifest_of H files)))"
    using assms by (auto simp: available_def hashable_def)
  ultimately show ?thesis unfolding mutable_digest_def by (rule returns_bindM)
qed

section \<open>A directory that does not change\<close>

definition serves_child :: "'w snapshot_session \<Rightarrow> file_map \<Rightarrow> entry \<Rightarrow> bool" where
  "serves_child s files e \<longleftrightarrow> returns (ss_hold_child s (en_name e)) () \<and>
     returns (ss_held_identity s (en_name e)) (en_file_id e) \<and>
     (\<exists>c. map_at files (en_name e) = Some c \<and> returns (ss_read_child s (en_name e)) c)"

definition serves :: "'w snapshot_session \<Rightarrow> string \<Rightarrow> entry list \<Rightarrow> file_map \<Rightarrow> bool" where
  "serves s dir es files \<longleftrightarrow> returns (ss_directory_identity s) dir \<and> returns (ss_inventory s) es \<and>
     list_all (serves_child s files) (present es) \<and> map_invar files \<and> map fst files = names es"

lemma hold_children_returns:
  assumes "list_all (serves_child s files) (present es)"
  shows "returns (hold_children s es ids) (sorted_map.fill (entry_ids es) ids)"
  using assms
  by (induction s es ids rule: hold_children.induct) (auto simp: serves_child_def intro!: returns_intros)

lemma read_children_takes:
  assumes "available bc H" and "list_all (\<lambda>(n, c). length c \<le> ulong_max \<and> returns (ss_read_child s n) c) kvs"
    and "map_invar bytes" and "distinct (map fst kvs)" and "\<forall>n \<in> fst ` set kvs. map_at bytes n = None"
    and "map fst ids = map fst kvs"
  shows "\<exists>e'. takes (read_children bc s ids bytes) e (sorted_map.fill kvs bytes) e' \<and>
    e_before_inventory e' = e_before_inventory e"
  using assms(2-)
proof (induction kvs arbitrary: ids bytes e)
  case (Cons kv kvs)
  then obtain n c fid ids' where kv: "kv = (n, c)" and ids: "ids = (n, fid) # ids'"
    by (cases kv; cases ids) auto
  let ?b = "map_emplace n c bytes"
  let ?e = "e\<lparr>e_held_file_ids := map_assign n fid (e_held_file_ids e),
    e_content_sha256 := map_assign n (hex_bytes (H c)) (e_content_sha256 e)\<rparr>"
  have at: "at_or_throw ?b n = Inr c" using Cons.prems kv by (simp add: at_or_throw_ok sorted_map.lookup_emplace)
  have c: "returns (ss_read_child s n) c" "returns (sha256 bc c) (hex_bytes (H c))"
    using Cons.prems(1) assms(1) kv by (auto simp: available_def)
  have "\<forall>m \<in> fst ` set kvs. map_at ?b m = None"
    using Cons.prems kv by (force simp: sorted_map.lookup_emplace)
  with Cons.IH [of ?b ids' ?e] Cons.prems kv ids obtain e' where
    rest: "takes (read_children bc s ids' ?b) ?e (sorted_map.fill kvs ?b) e'" "e_before_inventory e' = e_before_inventory ?e"
    by (auto simp: map_emplace_invar)
  have "takes (read_children bc s ids bytes) e (sorted_map.fill kvs ?b) e'"
    unfolding ids read_children.simps Let_def
    using rest(1) by (auto intro!: takes_bindM takes_catch_std takes_outerM [OF c(1)] takes_outerM [OF c(2)]
        takes_liftM [OF at] takes_localM)
  with rest(2) kv show ?case by auto
qed (auto intro!: returns_intros)

lemma recheck_children_returns:
  assumes "list_all (serves_child s files) (present es)"
    and "list_all (\<lambda>e. map_at ids (en_name e) = Some (en_file_id e)) (present es)"
  shows "returns (recheck_children s ids files es) ()"
  using assms
proof (induction s ids files es rule: recheck_children.induct)
  case (2 s ids files e es)
  show ?case
  proof (cases "is_dot (en_name e)")
    case False
    with "2.prems" obtain c where
      a: "at_or_throw ids (en_name e) = Inr (en_file_id e)" "at_or_throw files (en_name e) = Inr c"
        "returns (ss_held_identity s (en_name e)) (en_file_id e)" "returns (ss_read_child s (en_name e)) c"
      by (auto simp: serves_child_def at_or_throw_ok)
    have drift: "returns (bindM (ss_held_identity s (en_name e)) (\<lambda>held.
        bindM (liftM (at_or_throw ids (en_name e))) (\<lambda>fid2. returnM (held \<noteq> fid2)))) False"
      using a by (auto intro!: returns_intros)
    have rest: "returns (recheck_children s ids files es) ()" using 2 False by simp
    show ?thesis
      by (simp only: recheck_children.simps False if_False)
        (rule returns_bindM [OF returns_liftM [OF a(1)]], rule returns_bindM [where x = False], simp add: drift,
         rule returns_bindM [OF returns_guardM], simp, rule returns_bindM [OF a(4)],
         rule returns_bindM [OF returns_liftM [OF a(2)]], rule returns_bindM [OF returns_guardM], simp, rule rest)
  qed (use 2 in simp)
qed (auto intro: returns_intros)

section \<open>Complete runs\<close>

lemma hashable_from_entries:
  assumes "serves s dir es files" and "list_all (good_entry f dir) (present es)" and "(n, c) \<in> set files"
  shows "\<not> bad_child_name n \<and> returns (ss_read_child s n) c"
proof -
  have inv: "map_invar files" and keys: "map fst files = names es" using assms(1) by (simp_all add: serves_def)
  have "n \<in> set (map fst files)" using assms(3) by force
  then obtain e where e: "e \<in> set (present es)" "n = en_name e" by (auto simp: keys names_present)
  moreover have "map_at files n = Some c" using assms(3) sorted_map.entries_graph [OF inv] by auto
  ultimately show ?thesis
    using assms(1,2) by (auto simp: serves_def list_all_iff serves_child_def good_entry_def)
qed

lemma fill_entry_ids_at:
  assumes "distinct (map en_name (present es))" and "e \<in> set (present es)"
  shows "map_at (sorted_map.fill (entry_ids es) []) (en_name e) = Some (en_file_id e)"
  using assms by (simp add: sorted_map.fill_empty_lookup comp_def map_of_eq_Some_iff)

text \<open>The whole observation of a session that serves a directory, with the hash provider of the
  production entry point.\<close>

lemma observe_session_takes:
  assumes bc: "available bc H" and s: "serves s dir es files" and dir: "dir \<noteq> []"
    and d: "distinct (map en_name (present es))" and good: "list_all (good_entry f dir) (present es)"
    and h: "hashable H files"
  shows "\<exists>e1. takes (observe_session bc (bcrypt_snapshot_hash_provider bc) f dir s) e () (classify f files e1) \<and>
    e_snapshot_complete e1 \<and> e_observed_digest e1 = hex_bytes (H (manifest_of H files))"
proof -
  let ?ids = "sorted_map.fill (entry_ids es) []"
  have inv: "map_invar files" and keys: "map fst files = names es" and serve: "list_all (serves_child s files) (present es)"
    and ops: "returns (ss_directory_identity s) dir" "returns (ss_inventory s) es"
    using s by (simp_all add: serves_def)
  have ids: "map fst ?ids = map fst files"
    using sorted_map.fill_entries_keys [of "entry_ids es"] d by (simp add: keys names_present comp_def)
  have check: "check_entries es f dir st = Inr ()" for st using d good by (simp add: check_entries_ok)
  have reads: "list_all (\<lambda>(n, c). length c \<le> ulong_max \<and> returns (ss_read_child s n) c) files"
    using hashable_from_entries [OF s good] h by (auto simp: list_all_iff hashable_def)
  let ?e0 = "e\<lparr>e_before_inventory := names es\<rparr>"
  obtain e1 where e1: "takes (read_children bc s ?ids []) ?e0 files e1" "e_before_inventory e1 = names es"
    using read_children_takes [OF bc reads _ sorted_map.entries_distinct [OF inv] _ ids, of "[]" ?e0] inv
    by (auto simp: sorted_map.invar_empty fill_sorted map_at_def)
  have recheck: "returns (recheck_children s ?ids files es) ()"
    by (rule recheck_children_returns [OF serve]) (simp add: list_all_iff fill_entry_ids_at [OF d])
  have digest: "returns (hp_digest_mutable_set (bcrypt_snapshot_hash_provider bc) files) (hex_bytes (H (manifest_of H files)))"
    using mutable_digest_returns [OF bc h] by (simp add: bcrypt_snapshot_hash_provider_def)
  let ?e2 = "e1\<lparr>e_after_inventory := names es\<rparr>"
  let ?e3 = "?e2\<lparr>e_observed_digest := hex_bytes (H (manifest_of H files)), e_snapshot_complete := True\<rparr>"
  have same: "e_before_inventory ?e2 = e_after_inventory ?e2" using e1(2) by simp
  have "takes (observe_session bc (bcrypt_snapshot_hash_provider bc) f dir s) e () (classify f files ?e3)"
    unfolding observe_session_def
    apply (rule takes_bindM [OF takes_outerM [OF ops(1)]], rule takes_bindM [OF takes_guardM], simp add: dir)
    apply (rule takes_bindM [OF takes_outerM [OF ops(2)]], rule takes_bindM [OF takes_localM])
    apply (rule takes_bindM [OF takes_liftM [OF check]],
        rule takes_bindM [OF takes_outerM [OF hold_children_returns [OF serve]]], rule takes_bindM [OF e1(1)])
    apply (rule takes_bindM [OF takes_outerM [OF ops(2)]], rule takes_bindM [OF takes_localM],
        rule takes_bindM [OF takes_liftM [OF check]], rule takes_bindM [OF takes_readM],
        rule takes_bindM [OF takes_guardM [OF same]])
    apply (rule takes_bindM [OF takes_outerM [OF ops(1)]], rule takes_bindM [OF takes_guardM], simp,
        rule takes_bindM [OF takes_outerM [OF recheck]])
    apply (rule takes_bindM [OF takes_catch_std [OF takes_bindM [OF takes_outerM [OF digest] takes_localM]]],
        rule takes_bindM [OF takes_localM])
    using takes_localM [of "classify f files" ?e3] by simp
  then show ?thesis by (intro exI [of _ ?e3]) simp
qed

lemma compare_serves:
  assumes bc: "available bc H" and source: "returns (so_open source directory_profile) (Some s)"
    and p11: "render_p11 (with_digests H f) p10 = Inr p11" "length p11 \<le> ulong_max"
    and rest: "serves s dir es files" "dir \<noteq> []" "distinct (map en_name (present es))"
      "list_all (good_entry (with_digests H f) dir) (present es)" "hashable H files"
  shows "\<exists>e w'. compare_fresh_controller bc source (with_digests H f) dir p11 p10 True True w = (Inr e, w') \<and>
    e_snapshot_complete e \<and> e_verdict e = expected_verdict f files"
proof -
  let ?f = "with_digests H f" and ?hp = "bcrypt_snapshot_hash_provider bc"
  let ?e = "(start_evidence ?f)\<lparr>e_p11_sha256 := hex_bytes (H p11)\<rparr>"
  obtain e1 where e1: "takes (observe_session bc ?hp ?f dir s) ?e () (classify ?f files e1)"
      "e_snapshot_complete e1" "e_observed_digest e1 = hex_bytes (H (manifest_of H files))"
    using observe_session_takes [OF bc rest] by blast
  have "returns (hp_hash_p11 ?hp p11) (hex_bytes (H p11))"
    using bc p11(2) by (simp add: available_def bcrypt_snapshot_hash_provider_def)
  then have head: "takes (bind_head ?hp ?f p11 p10) (start_evidence ?f) () ?e"
    using p11(1) unfolding takes_def returns_def by (simp add: bind_head_ok) blast
  have scope: "takes (scopeM (observe_session bc ?hp ?f dir s) (\<lambda>(e, w). (e, ss_destroy s w))) ?e () (classify ?f files e1)"
    by (rule takes_scopeM [OF e1(1)])
  have "takes (compare_body bc source ?hp ?f dir p11 p10) (start_evidence ?f) () (classify ?f files e1)"
    unfolding compare_body_def
    by (rule takes_bindM [OF head], rule takes_bindM [OF takes_outerM [OF source]]) (simp add: scope)
  then have "returns (compare_fresh_controller bc source ?f dir p11 p10 True True) (classify ?f files e1)"
    unfolding compare_fresh_controller_def compare_impl_reached by (intro returns_with_local takes_catchM)
  then obtain w' where "compare_fresh_controller bc source ?f dir p11 p10 True True w = (Inr (classify ?f files e1), w')"
    unfolding returns_def by blast
  then show ?thesis using e1(2) classify_expected [of e1 H files f, OF e1(3)] by (intro exI [of _ "classify ?f files e1"]) simp
qed

text \<open>\<^bold>\<open>C12.\<close> Completeness on a stable directory: when the source opens a session that serves an unchanging
  directory of regular, expected children, the hash provider is available, and the P11 bytes are the
  rendering for the case, the comparison returns complete evidence whose verdict is the one the
  directory's contents call for.\<close>

theorem stable_directory_verdict:
  assumes "available bc H" and "returns (so_open source directory_profile) (Some s)"
    and "render_p11 (with_digests H f) p10 = Inr p11" and "length p11 \<le> ulong_max"
    and "serves s dir es files" and "dir \<noteq> []" and "distinct (map en_name (present es))"
    and "list_all (good_entry (with_digests H f) dir) (present es)" and "hashable H files"
  shows "\<exists>e w'. compare_fresh_controller bc source (with_digests H f) dir p11 p10 True True w = (Inr e, w') \<and>
    e_snapshot_complete e \<and> e_verdict e = expected_verdict f files"
  by (rule compare_serves [OF assms])

section \<open>An in-memory directory\<close>

definition dir_entry :: "string \<Rightarrow> string \<times> string \<Rightarrow> entry" where
  "dir_entry dir kv = \<lparr>en_name = fst kv, en_type = ''regular'', en_file_id = ''id-'' @ fst kv,
     en_parent_id = dir, en_reparse = False\<rparr>"

definition dir_session :: "string \<Rightarrow> file_map \<Rightarrow> 'w snapshot_session" where
  "dir_session dir files = \<lparr>ss_directory_identity = returnM dir, ss_inventory = returnM (map (dir_entry dir) files),
     ss_hold_child = (\<lambda>n. returnM ()), ss_held_identity = (\<lambda>n. returnM (''id-'' @ n)),
     ss_read_child = (\<lambda>n. liftM (at_or_throw files n)), ss_destroy = (\<lambda>w. w)\<rparr>"

definition dir_source :: "string \<Rightarrow> file_map \<Rightarrow> 'w snapshot_source" where
  "dir_source dir files = \<lparr>so_open = (\<lambda>p. returnM (Some (dir_session dir files)))\<rparr>"

lemma dir_present:
  "list_all (\<lambda>(n, c). \<not> bad_child_name n) files \<Longrightarrow> present (map (dir_entry dir) files) = map (dir_entry dir) files"
  by (induction files) (auto simp: dir_entry_def bad_child_name_def is_dot_def)

lemma dir_session_serves:
  assumes "map_invar files" and "list_all (\<lambda>(n, c). \<not> bad_child_name n) files"
  shows "serves (dir_session dir files) dir (map (dir_entry dir) files) files"
proof -
  have "en_name \<circ> dir_entry dir = fst" by (simp add: fun_eq_iff dir_entry_def)
  moreover have "sort (map fst files) = map fst files"
    using assms(1) by (simp add: map_invar_def strict_sorted_iff sorted_sort_id)
  moreover have "map_at files (fst kv) = Some (snd kv)" if "kv \<in> set files" for kv
    using that sorted_map.entries_graph [OF assms(1)] by auto
  ultimately show ?thesis
    using assms
    by (auto simp: serves_def dir_session_def names_present dir_present list_all_iff serves_child_def
        dir_entry_def at_or_throw_def intro!: returns_intros)
qed

lemma dir_source_proper: "proper_source (dir_source dir files)"
  by (auto simp: proper_source_def dir_source_def dir_session_def proper_session_def run_iff intro!: raises_intros)

section \<open>The frozen active case on disk\<close>

abbreviation active_case :: fixture_case where
  "active_case \<equiv> frozen_case_data ! 0"

definition sample_p10_hash :: string where
  "sample_p10_hash = replicate 64 (CHR ''a'')"

lemma active_files:
  "map_invar (c_latest_files active_case)" "map_invar (c_old_files active_case)" "c_latest_files active_case \<noteq> []"
  "map fst (c_old_files active_case) = map fst (c_latest_files active_case)"
  "c_old_files active_case \<noteq> c_latest_files active_case" "c_old_files active_case \<noteq> []"
  by (simp_all add: frozen_case_data_def map_invar_def state_bytes_def)

lemma active_frozen: "active_case \<in> set frozen_case_data"
  by (simp add: frozen_case_data_def)

lemma active_hashable:
  assumes "files = c_old_files active_case \<or> files = c_latest_files active_case"
  shows "hashable pad_digest files"
  using frozen_files_good [OF active_frozen assms] frozen_manifest_small [OF pad_digest32 active_frozen assms]
  by (simp add: hashable_def)

lemma sample_p10_hex64: "hex64 sample_p10_hash"
  by (simp add: sample_p10_hash_def hex64_def list_all_iff is_hex_char_def char_le_iff)

definition sample_p11 :: string where
  "sample_p11 = p11_text (with_digests pad_digest active_case) sample_p10_hash"

lemma sample_p11_rendered: "render_p11 (with_digests pad_digest active_case) sample_p10_hash = Inr sample_p11"
  unfolding sample_p11_def
  by (rule render_p11_frozen [OF pad_digest32 _ sample_p10_hex64]) (simp add: frozen_cases_def frozen_case_data_def)

lemma sample_p11_small: "length sample_p11 \<le> ulong_max"
proof -
  have "frozen_cases pad_digest ! 0 = with_digests pad_digest active_case"
    by (simp add: frozen_cases_def frozen_case_data_def)
  then show ?thesis
    using p11_text_length_active [OF pad_digest32 sample_p10_hex64] by (simp add: sample_p11_def ulong_max_def)
qed

lemma active_dir:
  assumes "files = c_old_files active_case \<or> files = c_latest_files active_case"
  shows "map_invar files" "list_all (\<lambda>(n, c). \<not> bad_child_name n) files"
    "distinct (map en_name (present (map (dir_entry dir) files)))"
    "list_all (good_entry (with_digests H active_case) dir) (present (map (dir_entry dir) files))"
proof -
  show inv: "map_invar files" using assms active_files by blast
  have good: "list_all (\<lambda>(n, c). \<not> bad_child_name n \<and> length c \<le> ulong_max) files"
    by (rule frozen_files_good [OF active_frozen assms])
  then show names: "list_all (\<lambda>(n, c). \<not> bad_child_name n) files" by (auto simp: list_all_iff)
  have "en_name \<circ> dir_entry dir = fst" by (simp add: fun_eq_iff dir_entry_def)
  then show "distinct (map en_name (present (map (dir_entry dir) files)))"
    using sorted_map.entries_distinct [OF inv] by (simp add: dir_present [OF names])
  have "fst ` set files = fst ` set (c_latest_files active_case)"
    using assms active_files(4) by (metis set_map)
  then have "map_contains (c_latest_files active_case) (fst kv)" if "kv \<in> set files" for kv
    using that by (metis image_eqI map_contains_def map_of_eq_None_iff)
  then show "list_all (good_entry (with_digests H active_case) dir) (present (map (dir_entry dir) files))"
    using names by (auto simp: dir_present [OF names] list_all_iff good_entry_def dir_entry_def with_digests_def)
qed

lemma active_run:
  assumes "files = c_old_files active_case \<or> files = c_latest_files active_case"
  obtains e w' where
    "compare_fresh_controller (bcrypt_of pad_digest) (dir_source ''dir'' files) (with_digests pad_digest active_case)
      ''dir'' sample_p11 sample_p10_hash True True [] = (Inr e, w')"
    "e_snapshot_complete e" "e_verdict e = expected_verdict active_case files"
proof -
  have "returns (so_open (dir_source ''dir'' files) directory_profile) (Some (dir_session ''dir'' files))"
    by (simp add: dir_source_def returns_returnM)
  from compare_serves [OF available_bcrypt_of [of pad_digest] this sample_p11_rendered sample_p11_small
      dir_session_serves [OF active_dir(1,2) [OF assms]] _ active_dir(3,4) [OF assms] active_hashable [OF assms], of "[]"]
  show thesis using that by auto
qed

section \<open>Witnesses\<close>

theorem stable_directory_verdict_witness:
  "\<exists>e w'. compare_fresh_controller (bcrypt_of pad_digest) (dir_source ''dir'' (c_old_files active_case))
     (with_digests pad_digest active_case) ''dir'' sample_p11 sample_p10_hash True True [] = (Inr e, w') \<and>
     e_verdict e = Reject_restored_old"
proof -
  let ?files = "c_old_files active_case"
  have "returns (so_open (dir_source ''dir'' ?files) directory_profile) (Some (dir_session ''dir'' ?files))"
    by (simp add: dir_source_def returns_returnM)
  moreover have old: "?files = c_old_files active_case \<or> ?files = c_latest_files active_case" by simp
  moreover have "''dir'' \<noteq> []" by simp
  ultimately have "\<exists>e w'. compare_fresh_controller (bcrypt_of pad_digest) (dir_source ''dir'' ?files)
     (with_digests pad_digest active_case) ''dir'' sample_p11 sample_p10_hash True True [] = (Inr e, w') \<and>
     e_snapshot_complete e \<and> e_verdict e = expected_verdict active_case ?files"
    using stable_directory_verdict [OF available_bcrypt_of [of pad_digest] _ sample_p11_rendered sample_p11_small
      dir_session_serves [OF active_dir(1,2) [OF old]] _ active_dir(3,4) [OF old] active_hashable [OF old]]
    by blast
  moreover have "expected_verdict active_case ?files = Reject_restored_old" using active_files by (simp add: expected_verdict_def)
  ultimately show ?thesis by auto
qed

theorem compare_fail_closed_witness:
  "\<exists>e w'. compare_fresh_controller (bcrypt_of pad_digest) (dir_source ''dir'' []) active_case ''other'' [] [] True True [] =
     (Inr e, w') \<and> (e_verdict e = Stop_inconclusive \<longleftrightarrow> \<not> e_snapshot_complete e)"
  using compare_fail_closed [OF dir_source_proper, of "bcrypt_of pad_digest" "''dir''" "[]" active_case "''other''" "[]" "[]" True True "[]"]
  by blast


theorem verdict_exact_witness:
  "\<exists>e w' s ids bytes. compare_fresh_controller (bcrypt_of pad_digest) (dir_source ''dir'' (c_old_files active_case))
     (with_digests pad_digest active_case) ''dir'' sample_p11 sample_p10_hash True True [] = (Inr e, w') \<and>
     saw_files (s :: string snapshot_session) (with_digests pad_digest active_case) ''dir'' ids bytes \<and>
     expected_verdict active_case bytes = Reject_restored_old"
proof -
  obtain e w' where run:
    "compare_fresh_controller (bcrypt_of pad_digest) (dir_source ''dir'' (c_old_files active_case))
      (with_digests pad_digest active_case) ''dir'' sample_p11 sample_p10_hash True True [] = (Inr e, w')"
    and v: "e_snapshot_complete e" "e_verdict e = expected_verdict active_case (c_old_files active_case)"
    using active_run [of "c_old_files active_case"] by blast
  have "e_verdict e = Reject_restored_old" using v active_files by (simp add: expected_verdict_def)
  with verdict_exact [OF pad_digest_computes run v(1)] run show ?thesis by metis
qed

end
