(* ===== verification/Snapshot_Order.thy ===== *)
theory Snapshot_Order
  imports Snapshot_Runs
begin

text \<open>
  The order of the native operations in a complete snapshot.  The world carries a ghost log, read by
  the function \<open>log\<close>: each operation of the session appends its event, and hashing appends
  nothing.  The log of a complete snapshot is then determined by the inventories.
\<close>

datatype event =
  Ev_open | Ev_directory | Ev_inventory | Ev_hold string | Ev_identity string | Ev_read string | Ev_close

text \<open>\<open>logs log evs m\<close>: whenever \<open>m\<close> returns, it has appended \<open>evs\<close>.\<close>

definition logs :: "('w \<Rightarrow> event list) \<Rightarrow> event list \<Rightarrow> ('w, 'a) cpp \<Rightarrow> bool" where
  "logs log evs m \<longleftrightarrow> (\<forall>w x w'. m w = (Inr x, w') \<longrightarrow> log w' = log w @ evs)"

definition logging_session :: "('w \<Rightarrow> event list) \<Rightarrow> 'w snapshot_session \<Rightarrow> bool" where
  "logging_session log s \<longleftrightarrow> logs log [Ev_directory] (ss_directory_identity s) \<and>
     logs log [Ev_inventory] (ss_inventory s) \<and> (\<forall>n. logs log [Ev_hold n] (ss_hold_child s n)) \<and>
     (\<forall>n. logs log [Ev_identity n] (ss_held_identity s n)) \<and> (\<forall>n. logs log [Ev_read n] (ss_read_child s n)) \<and>
     (\<forall>w. log (ss_destroy s w) = log w @ [Ev_close])"

definition logging_source :: "('w \<Rightarrow> event list) \<Rightarrow> 'w snapshot_source \<Rightarrow> bool" where
  "logging_source log source \<longleftrightarrow> (\<forall>p. logs log [Ev_open] (so_open source p)) \<and>
     (\<forall>p w s w'. so_open source p w = (Inr (Some s), w') \<longrightarrow> logging_session log s)"

definition silent_bcrypt :: "('w \<Rightarrow> event list) \<Rightarrow> 'w bcrypt \<Rightarrow> bool" where
  "silent_bcrypt log bc \<longleftrightarrow> (\<forall>w. log (snd (bc_open_algorithm bc w)) = log w) \<and>
     (\<forall>a w. log (snd (bc_create_hash bc a w)) = log w) \<and> (\<forall>h b w. log (snd (bc_hash_data bc h b w)) = log w) \<and>
     (\<forall>h w. log (snd (bc_finish_hash bc h w)) = log w) \<and> (\<forall>h w. log (bc_destroy_hash bc h w) = log w) \<and>
     (\<forall>a w. log (bc_close_algorithm bc a w) = log w)"

lemma logsD: "logs log evs m \<Longrightarrow> m w = (Inr x, w') \<Longrightarrow> log w' = log w @ evs"
  by (simp add: logs_def)

lemma silent_calls:
  assumes "silent_bcrypt log bc"
  shows "bc_open_algorithm bc w = (r0, w') \<Longrightarrow> log w' = log w"
    "bc_create_hash bc a w = (r1, w') \<Longrightarrow> log w' = log w"
    "bc_hash_data bc h b w = (r2, w') \<Longrightarrow> log w' = log w"
    "bc_finish_hash bc h w = (r3, w') \<Longrightarrow> log w' = log w"
    "log (bc_destroy_hash bc h w) = log w" "log (bc_close_algorithm bc a w) = log w"
  using assms unfolding silent_bcrypt_def by (metis snd_conv)+

lemma sha256_calls_silent:
  assumes "silent_bcrypt log bc" and "sha256_calls bc alg b w = (r, w')"
  shows "log w' = log w"
  using assms(2) unfolding sha256_calls_def
  by (auto split: prod.splits if_splits dest!: silent_calls(1-4) [OF assms(1)])

lemma sha256_silent:
  assumes "silent_bcrypt log bc" and "sha256 bc b w = (Inr x, w')"
  shows "log w' = log w"
  using assms(2) unfolding sha256_def Let_def
  by (auto split: prod.splits if_splits simp: silent_calls(5,6) [OF assms(1)]
      dest!: silent_calls(1) [OF assms(1)] sha256_calls_silent [OF assms(1)])

lemma manifest_loop_silent:
  "silent_bcrypt log bc \<Longrightarrow> manifest_loop bc m files w = (Inr x, w') \<Longrightarrow> log w' = log w"
  by (induction bc m files arbitrary: w rule: manifest_loop.induct) (auto simp: run_iff dest: sha256_silent)

lemma mutable_digest_silent:
  assumes "silent_bcrypt log bc" and "mutable_digest bc files w = (Inr x, w')"
  shows "log w' = log w"
  using assms(2) unfolding mutable_digest_def
  by (auto simp: run_iff dest!: sha256_silent [OF assms(1)] manifest_loop_silent [OF assms(1)])

section \<open>The loops\<close>

definition hold_events :: "string list \<Rightarrow> event list" where
  "hold_events ns = concat (map (\<lambda>n. [Ev_hold n, Ev_identity n]) ns)"

definition recheck_events :: "string list \<Rightarrow> event list" where
  "recheck_events ns = concat (map (\<lambda>n. [Ev_identity n, Ev_read n]) ns)"

lemma session_logs:
  assumes "logging_session log s"
  shows "ss_directory_identity s w = (Inr d, w') \<Longrightarrow> log w' = log w @ [Ev_directory]"
    "ss_inventory s w = (Inr es, w') \<Longrightarrow> log w' = log w @ [Ev_inventory]"
    "ss_hold_child s n w = (Inr u, w') \<Longrightarrow> log w' = log w @ [Ev_hold n]"
    "ss_held_identity s n w = (Inr i, w') \<Longrightarrow> log w' = log w @ [Ev_identity n]"
    "ss_read_child s n w = (Inr c, w') \<Longrightarrow> log w' = log w @ [Ev_read n]"
    "log (ss_destroy s w) = log w @ [Ev_close]"
  using assms by (auto simp: logging_session_def logs_def)

lemma hold_children_log:
  assumes "logging_session log s" and "hold_children s es ids w = (Inr r, w')"
  shows "log w' = log w @ hold_events (map en_name (present es))"
  using assms
  by (induction s es ids arbitrary: w rule: hold_children.induct)
    (auto simp: run_iff hold_events_def session_logs split: if_splits)

lemma read_children_log:
  assumes "logging_session log s" and "silent_bcrypt log bc"
    and "read_children bc s ids bytes (e, w) = (Inr r, (e', w'))"
  shows "log w' = log w @ map (Ev_read \<circ> fst) ids"
  using assms
proof (induction bc s ids bytes arbitrary: e w rule: read_children.induct)
  case (2 bc s name fid ids bytes)
  from "2.prems"(3) obtain content w1 b d w2 e2 where
    "ss_read_child s name w = (Inr content, w1)" "sha256 bc b w1 = (Inr d, w2)"
    "read_children bc s ids (map_emplace name content bytes) (e2, w2) = (Inr r, (e', w'))"
    by (auto simp: run_iff Let_def)
  with 2 show ?case
    by (simp add: session_logs(5) [OF "2.prems"(1)] sha256_silent [OF "2.prems"(2)])
qed (simp add: run_iff)

lemma recheck_children_log:
  assumes "logging_session log s" and "recheck_children s ids bytes es w = (Inr r, w')"
  shows "log w' = log w @ recheck_events (map en_name (present es))"
  using assms
  by (induction s ids bytes es arbitrary: w rule: recheck_children.induct)
    (auto simp: run_iff recheck_events_def session_logs split: if_splits)

section \<open>The whole snapshot\<close>

definition snapshot_events :: "string list \<Rightarrow> string list \<Rightarrow> event list" where
  "snapshot_events before after = [Ev_open, Ev_directory, Ev_inventory] @ hold_events before @
     map Ev_read (sort before) @ [Ev_inventory, Ev_directory] @ recheck_events after @ [Ev_close]"

lemma observe_session_log:
  assumes s: "logging_session log s" and bc: "silent_bcrypt log bc"
    and run: "observe_session bc (bcrypt_snapshot_hash_provider bc) f dir s (e, w) = (Inr u, (e', w'))"
  shows "\<exists>before after. sort before = e_before_inventory e' \<and> sort after = e_before_inventory e' \<and>
    distinct before \<and> distinct after \<and>
    log w' = log w @ butlast (tl (snapshot_events before after))"
proof -
  from run obtain before w1 w2 ids w3 bytes e5 w5 after w6 w7 w8 digest e6 where
    r: "ss_directory_identity s w = (Inr dir, w1)" "ss_inventory s w1 = (Inr before, w2)"
      "check_entries before f dir ''initial-inventory'' = Inr ()"
      "hold_children s before [] w2 = (Inr ids, w3)"
      "read_children bc s ids [] (e\<lparr>e_before_inventory := names before\<rparr>, w3) = (Inr bytes, (e5, w5))"
      "ss_inventory s w5 = (Inr after, w6)" "check_entries after f dir ''final-inventory'' = Inr ()"
      "e_before_inventory e5 = names after" "ss_directory_identity s w6 = (Inr dir, w7)"
      "recheck_children s ids bytes after w7 = (Inr (), w8)" "mutable_digest bc bytes w8 = (Inr digest, w')"
    and e': "e_before_inventory e' = e_before_inventory e5"
    unfolding observe_session_def bcrypt_snapshot_hash_provider_def by (auto simp: run_iff)
  have ids: "ids = sorted_map.fill (entry_ids before) []" by (rule hold_children_ok [OF r(4)])
  have d: "distinct (map en_name (present before))" "distinct (map en_name (present after))"
    using r(3,7) by (simp_all add: check_entries_ok)
  have keys: "map fst ids = names before"
    using sorted_map.fill_entries_keys [of "entry_ids before"] d(1) ids by (simp add: names_present comp_def)
  have inv: "map_invar ids" using ids by (simp add: sorted_map.fill_invar sorted_map.invar_empty)
  have e5: "e_before_inventory e5 = names before"
    using read_children_ok [OF r(5) sorted_map.invar_empty sorted_map.entries_distinct [OF inv]]
    by (auto simp: map_at_def)
  have "log w' = log w @ [Ev_directory, Ev_inventory] @ hold_events (map en_name (present before)) @
      map (Ev_read \<circ> fst) ids @ [Ev_inventory, Ev_directory] @ recheck_events (map en_name (present after))"
    using mutable_digest_silent [OF bc r(11)] recheck_children_log [OF s r(10)] session_logs(1) [OF s r(9)]
      session_logs(2) [OF s r(6)] read_children_log [OF s bc r(5)] hold_children_log [OF s r(4)]
      session_logs(2) [OF s r(2)] session_logs(1) [OF s r(1)]
    by simp
  moreover have "map (Ev_read \<circ> fst) ids = map Ev_read (sort (map en_name (present before)))"
    using keys by (metis map_map names_present)
  ultimately show ?thesis
    using d e5 e' r(8)
    by (intro exI [of _ "map en_name (present before)"] exI [of _ "map en_name (present after)"])
      (simp add: snapshot_events_def names_present butlast_append)
qed

lemma compare_order:
  assumes source: "logging_source log source" and bc: "silent_bcrypt log bc"
    and run: "compare_fresh_controller bc source f dir p11 p10 pr br w = (Inr e, w')" and "e_snapshot_complete e"
  shows "\<exists>before after. sort before = e_before_inventory e \<and> sort after = e_before_inventory e \<and>
    distinct before \<and> distinct after \<and> log w' = log w @ snapshot_events before after"
proof -
  let ?hp = "bcrypt_snapshot_hash_provider bc"
  from run have "compare_impl bc source f dir p11 p10 pr br ?hp w = (Inr e, w')"
    by (simp add: compare_fresh_controller_def)
  then have "compare_body bc source ?hp f dir p11 p10 (start_evidence f, w) = (Inr (), (e, w'))"
    using assms(4) by (cases rule: compare_impl_cases) auto
  then obtain s h w1 w2 w3 where r: "hp_hash_p11 ?hp p11 w = (Inr h, w1)"
      "so_open source directory_profile w1 = (Inr (Some s), w2)"
      "observe_session bc ?hp f dir s ((start_evidence f)\<lparr>e_p11_sha256 := h\<rparr>, w2) = (Inr (), (e, w3))"
      "w' = ss_destroy s w3"
    by (rule compare_body_ok)
  have s: "logging_session log s" using source r(2) unfolding logging_source_def by blast
  have "sha256 bc p11 w = (Inr h, w1)" using r(1) by (simp add: bcrypt_snapshot_hash_provider_def)
  then have "log w1 = log w" by (rule sha256_silent [OF bc])
  moreover have "log w2 = log w1 @ [Ev_open]"
    using source r(2) unfolding logging_source_def by (blast dest: logsD)
  moreover have "log w' = log w3 @ [Ev_close]" using r(4) session_logs(6) [OF s] by simp
  moreover obtain before after where "sort before = e_before_inventory e" "sort after = e_before_inventory e"
      "distinct before" "distinct after" "log w3 = log w2 @ butlast (tl (snapshot_events before after))"
    using observe_session_log [OF s bc r(3)] by blast
  ultimately show ?thesis
    by (intro exI [of _ before] exI [of _ after]) (simp add: snapshot_events_def butlast_append)
qed

text \<open>\<^bold>\<open>C11.\<close> The order of a complete snapshot: one open, the directory identity, one inventory, then every
  present child is held and its identity checked before any child is read; every child is read once
  in name order; a second inventory and directory identity follow, then a second identity and read of
  every child; the session is closed exactly once, at the end.\<close>

theorem snapshot_order:
  assumes "logging_source log source" and "silent_bcrypt log bc"
    and "compare_fresh_controller bc source f dir p11 p10 pr br w = (Inr e, w')" and "e_snapshot_complete e"
  shows "\<exists>before after. sort before = e_before_inventory e \<and> sort after = e_before_inventory e \<and>
    distinct before \<and> distinct after \<and> log w' = log w @ snapshot_events before after"
  by (rule compare_order [OF assms])

section \<open>A logged in-memory directory\<close>

type_synonym logged_world = "event list \<times> string"

definition note_event :: "event \<Rightarrow> (logged_world, 'a) cpp \<Rightarrow> (logged_world, 'a) cpp" where
  "note_event ev m = (\<lambda>(l, b). m (l @ [ev], b))"

definition logged_session :: "string \<Rightarrow> file_map \<Rightarrow> logged_world snapshot_session" where
  "logged_session dir files = \<lparr>ss_directory_identity = note_event Ev_directory (returnM dir),
     ss_inventory = note_event Ev_inventory (returnM (map (dir_entry dir) files)),
     ss_hold_child = (\<lambda>n. note_event (Ev_hold n) (returnM ())),
     ss_held_identity = (\<lambda>n. note_event (Ev_identity n) (returnM (''id-'' @ n))),
     ss_read_child = (\<lambda>n. note_event (Ev_read n) (liftM (at_or_throw files n))),
     ss_destroy = (\<lambda>(l, b). (l @ [Ev_close], b))\<rparr>"

definition logged_source :: "string \<Rightarrow> file_map \<Rightarrow> logged_world snapshot_source" where
  "logged_source dir files = \<lparr>so_open = (\<lambda>p. note_event Ev_open (returnM (Some (logged_session dir files))))\<rparr>"

definition logged_bcrypt :: "(string \<Rightarrow> bytes) \<Rightarrow> logged_world bcrypt" where
  "logged_bcrypt H = \<lparr>bc_open_algorithm = (\<lambda>w. ((0, 1), w)), bc_create_hash = (\<lambda>a (l, b). ((0, 1), (l, []))),
     bc_hash_data = (\<lambda>h bs (l, b). (0, (l, bs))), bc_finish_hash = (\<lambda>h (l, b). ((0, H b), (l, b))),
     bc_destroy_hash = (\<lambda>h w. w), bc_close_algorithm = (\<lambda>a w. w)\<rparr>"

lemma logged_bcrypt_available: "available (logged_bcrypt H) H"
  by (auto simp: available_def returns_def sha256_def sha256_calls_def logged_bcrypt_def)

lemma returns_note_event: "returns m x \<Longrightarrow> returns (note_event ev m) x"
  by (auto simp: returns_def note_event_def split: prod.splits)

lemma logged_session_serves:
  assumes "map_invar files" and "list_all (\<lambda>(n, c). \<not> bad_child_name n) files"
  shows "serves (logged_session dir files) dir (map (dir_entry dir) files) files"
proof -
  have "serves (dir_session dir files :: logged_world snapshot_session) dir (map (dir_entry dir) files) files"
    by (rule dir_session_serves [OF assms])
  then show ?thesis
    by (auto simp: serves_def logged_session_def dir_session_def serves_child_def list_all_iff
        intro!: returns_note_event)
qed

theorem snapshot_order_witness:
  "\<exists>e b before after. compare_fresh_controller (logged_bcrypt pad_digest)
     (logged_source ''dir'' (c_latest_files active_case)) (with_digests pad_digest active_case)
     ''dir'' sample_p11 sample_p10_hash True True ([], []) = (Inr e, (snapshot_events before after, b)) \<and>
     sort before = e_before_inventory e"
proof -
  let ?files = "c_latest_files active_case"
  have latest: "?files = c_old_files active_case \<or> ?files = c_latest_files active_case" by simp
  have "returns (so_open (logged_source ''dir'' ?files) directory_profile) (Some (logged_session ''dir'' ?files))"
    by (simp add: logged_source_def returns_note_event returns_returnM)
  then obtain e l b where run: "compare_fresh_controller (logged_bcrypt pad_digest) (logged_source ''dir'' ?files)
      (with_digests pad_digest active_case) ''dir'' sample_p11 sample_p10_hash True True ([], []) = (Inr e, (l, b))"
      "e_snapshot_complete e"
    using compare_serves [OF logged_bcrypt_available [of pad_digest] _ sample_p11_rendered sample_p11_small
        logged_session_serves [OF active_dir(1,2) [OF latest]] _ active_dir(3,4) [OF latest] active_hashable [OF latest]]
    by (metis list.distinct(1) prod.collapse)
  have s: "logging_session fst (logged_session ''dir'' ?files)"
    by (auto simp: logging_session_def logs_def logged_session_def note_event_def run_iff split: prod.splits)
  have "logging_source fst (logged_source ''dir'' ?files)"
    using s by (auto simp: logging_source_def logs_def logged_source_def note_event_def run_iff split: prod.splits)
  moreover have "silent_bcrypt fst (logged_bcrypt pad_digest)"
    by (auto simp: silent_bcrypt_def logged_bcrypt_def)
  ultimately have "\<exists>before after. sort before = e_before_inventory e \<and> l = snapshot_events before after"
    using snapshot_order [of fst, OF _ _ run] by auto
  with run(1) show ?thesis by metis
qed

end
