(* ===== verification/Head_Codec.thy ===== *)
theory Head_Codec
  imports Cpp_Prelude "HOL-Library.Monad_Syntax"
begin

text \<open>
  The wire codec of the ReadFixtureHead exchange (\<^verbatim>\<open>read_fixture_head_codec.hpp\<close>,
  \<^verbatim>\<open>read_fixture_head_codec.cpp\<close>): the request and the two responses, their encoders, and the
  validators on both sides.

  Buffers are lists of bytes.  An access through a raw pointer is the partial function
  \<open>load\<close> or \<open>store\<close>: \<open>None\<close> is an access outside the buffer, which is undefined behaviour in C++.
  The functions of the unit are therefore partial here, and that they never return \<open>None\<close> is their
  memory safety.  The allocator is the parameter \<open>alloc\<close>: whether an allocation of that many bytes
  succeeds.
\<close>

section \<open>Data\<close>

datatype failure =
    F_none | F_malformed | F_correlation_mismatch | F_read_incomplete
  | F_invalid_trusted_input | F_internal_failure

record request_validation =
  rq_failure :: failure
  rq_nonce :: "bytes option"

record response_validation =
  rs_failure :: failure
  rs_verified_p11 :: bytes

record success_encoding =
  se_failure :: failure
  se_bytes :: bytes

definition rq_ok :: "request_validation \<Rightarrow> bool" where
  "rq_ok v \<longleftrightarrow> rq_failure v = F_none \<and> rq_nonce v \<noteq> None"

definition rs_ok :: "response_validation \<Rightarrow> bool" where
  "rs_ok v \<longleftrightarrow> rs_failure v = F_none"

definition se_ok :: "success_encoding \<Rightarrow> bool" where
  "se_ok v \<longleftrightarrow> se_failure v = F_none"

definition request_bytes :: nat where "request_bytes = 64"
definition error_response_bytes :: nat where "error_response_bytes = 66"
definition active_p11_bytes :: nat where "active_p11_bytes = 299"
definition terminal_p11_bytes :: nat where "terminal_p11_bytes = 300"
definition maximum_response_bytes :: nat where "maximum_response_bytes = 366"
definition prefix_bytes :: nat where "prefix_bytes = 66"

text \<open>The fixed-size arrays \<open>Nonce\<close> and \<open>P10Digest\<close>.\<close>

definition is_nonce :: "bytes \<Rightarrow> bool" where
  "is_nonce n \<longleftrightarrow> length n = 16"

definition is_p10_digest :: "bytes \<Rightarrow> bool" where
  "is_p10_digest d \<longleftrightarrow> length d = 32"

definition magic :: bytes where "magic = [0x53, 0x31, 0x52, 0x48]"
definition version :: u16 where "version = 1"
definition request_kind :: u16 where "request_kind = 0x0001"
definition success_kind :: u16 where "success_kind = 0x8001"
definition error_response_kind :: u16 where "error_response_kind = 0x8002"
definition operation :: u16 where "operation = 0x0001"

section \<open>Raw accesses\<close>

definition load :: "bytes \<Rightarrow> nat \<Rightarrow> nat \<Rightarrow> bytes option" where
  "load buf at n = (if at + n \<le> length buf then Some (take n (drop at buf)) else None)"

definition store :: "nat \<Rightarrow> bytes \<Rightarrow> bytes \<Rightarrow> bytes option" where
  "store at bs buf =
     (if at + length bs \<le> length buf then Some (take at buf @ bs @ drop (at + length bs) buf) else None)"

definition le16 :: "u16 \<Rightarrow> bytes" where
  "le16 v = [ucast v, ucast (drop_bit 8 v)]"

definition le32 :: "u32 \<Rightarrow> bytes" where
  "le32 v = map (\<lambda>i. ucast (drop_bit (8 * i) v)) [0 ..< 4]"

definition put16 :: "nat \<Rightarrow> u16 \<Rightarrow> bytes \<Rightarrow> bytes option" where
  "put16 at v out = store at (le16 v) out"

definition put32 :: "nat \<Rightarrow> u32 \<Rightarrow> bytes \<Rightarrow> bytes option" where
  "put32 at v out = store at (le32 v) out"

unbundle bit_operations_syntax

definition get16 :: "bytes \<Rightarrow> nat \<Rightarrow> u16 option" where
  "get16 buf at = do {
     bs \<leftarrow> load buf at 2;
     Some (ucast (bs ! 0) OR push_bit 8 (ucast (bs ! 1))) }"

definition get32 :: "bytes \<Rightarrow> nat \<Rightarrow> u32 option" where
  "get32 buf at = do {
     bs \<leftarrow> load buf at 4;
     Some (ucast (bs ! 0) OR push_bit 8 (ucast (bs ! 1)) OR
           push_bit 16 (ucast (bs ! 2)) OR push_bit 24 (ucast (bs ! 3))) }"

section \<open>Headers\<close>

definition fixed_header :: "bytes \<Rightarrow> bool option" where
  "fixed_header wire =
     (if 12 \<le> length wire then do {
        m \<leftarrow> load wire 0 4;
        v \<leftarrow> get16 wire 4;
        Some (m = magic \<and> v = version) }
      else Some False)"

definition write_header :: "u16 \<Rightarrow> u32 \<Rightarrow> bytes \<Rightarrow> bytes option" where
  "write_header kind total_size out = do {
     out \<leftarrow> store 0 magic out;
     out \<leftarrow> put16 4 version out;
     out \<leftarrow> put16 6 kind out;
     put32 8 total_size out }"

definition write_common_response ::
  "u16 \<Rightarrow> u32 \<Rightarrow> u16 \<Rightarrow> bytes \<Rightarrow> bytes \<Rightarrow> u16 \<Rightarrow> bytes \<Rightarrow> bytes option"
where
  "write_common_response kind total_size status nonce p10 payload_size out = do {
     out \<leftarrow> write_header kind total_size out;
     out \<leftarrow> put16 12 operation out;
     out \<leftarrow> put16 14 status out;
     out \<leftarrow> store 16 nonce out;
     out \<leftarrow> store 32 p10 out;
     put16 64 payload_size out }"

section \<open>Requests\<close>

definition encode_request :: "bytes \<Rightarrow> bytes \<Rightarrow> bytes option" where
  "encode_request nonce trusted_p10 = do {
     let out = replicate request_bytes 0;
     out \<leftarrow> write_header request_kind (of_nat request_bytes) out;
     out \<leftarrow> put16 12 operation out;
     out \<leftarrow> put16 14 0 out;
     out \<leftarrow> store 16 nonce out;
     store 32 trusted_p10 out }"

definition validate_request :: "bytes \<Rightarrow> bytes \<Rightarrow> request_validation option" where
  "validate_request wire trusted_p10 =
     (if length wire \<noteq> request_bytes then Some \<lparr>rq_failure = F_malformed, rq_nonce = None\<rparr>
      else do {
        header \<leftarrow> fixed_header wire;
        kind \<leftarrow> get16 wire 6;
        total_size \<leftarrow> get32 wire 8;
        op \<leftarrow> get16 wire 12;
        status \<leftarrow> get16 wire 14;
        if \<not> header \<or> kind \<noteq> request_kind \<or> total_size \<noteq> of_nat request_bytes \<or> op \<noteq> operation \<or> status \<noteq> 0
        then Some \<lparr>rq_failure = F_malformed, rq_nonce = None\<rparr>
        else do {
          p10 \<leftarrow> load wire 32 (length trusted_p10);
          if p10 \<noteq> trusted_p10 then Some \<lparr>rq_failure = F_correlation_mismatch, rq_nonce = None\<rparr>
          else do {
            nonce \<leftarrow> load wire 16 16;
            Some \<lparr>rq_failure = F_none, rq_nonce = Some nonce\<rparr> } } })"

section \<open>Responses\<close>

definition encode_verified_success_response ::
  "(nat \<Rightarrow> bool) \<Rightarrow> bytes \<Rightarrow> bytes \<Rightarrow> bytes \<Rightarrow> success_encoding option"
where
  "encode_verified_success_response alloc nonce trusted_p10 verified_p11 =
     (if length verified_p11 \<noteq> active_p11_bytes \<and> length verified_p11 \<noteq> terminal_p11_bytes
      then Some \<lparr>se_failure = F_invalid_trusted_input, se_bytes = []\<rparr>
      else if \<not> alloc (prefix_bytes + length verified_p11)
      then Some \<lparr>se_failure = F_internal_failure, se_bytes = []\<rparr>
      else do {
        let out = replicate (prefix_bytes + length verified_p11) 0;
        out \<leftarrow> write_common_response success_kind (of_nat (length out)) 0 nonce trusted_p10
                 (of_nat (length verified_p11)) out;
        out \<leftarrow> store prefix_bytes verified_p11 out;
        Some \<lparr>se_failure = F_none, se_bytes = out\<rparr> })"

definition encode_generic_error_response :: "bytes \<Rightarrow> bytes \<Rightarrow> bytes option" where
  "encode_generic_error_response nonce trusted_p10 =
     write_common_response error_response_kind (of_nat error_response_bytes) 1 nonce trusted_p10 0
       (replicate error_response_bytes 0)"

definition validate_response ::
  "(nat \<Rightarrow> bool) \<Rightarrow> bytes \<Rightarrow> bytes \<Rightarrow> bytes \<Rightarrow> bytes \<Rightarrow> nat \<Rightarrow> response_validation option"
where
  "validate_response alloc wire invocation_nonce trusted_p10 selected_p11 selected_length =
     (if (selected_length \<noteq> active_p11_bytes \<and> selected_length \<noteq> terminal_p11_bytes) \<or>
         length selected_p11 \<noteq> selected_length
      then Some \<lparr>rs_failure = F_invalid_trusted_input, rs_verified_p11 = []\<rparr>
      else if length wire < prefix_bytes \<or> maximum_response_bytes < length wire
      then Some \<lparr>rs_failure = F_malformed, rs_verified_p11 = []\<rparr>
      else do {
        header \<leftarrow> fixed_header wire;
        total_size \<leftarrow> get32 wire 8;
        op \<leftarrow> get16 wire 12;
        if \<not> header \<or> unat total_size \<noteq> length wire \<or> op \<noteq> operation
        then Some \<lparr>rs_failure = F_malformed, rs_verified_p11 = []\<rparr>
        else do {
          kind \<leftarrow> get16 wire 6;
          status \<leftarrow> get16 wire 14;
          payload_length \<leftarrow> get16 wire 64;
          let is_error = (kind = error_response_kind \<and> status = 1 \<and>
                length wire = error_response_bytes \<and> payload_length = 0);
          let is_success = (kind = success_kind \<and> status = 0 \<and>
                (unat payload_length = active_p11_bytes \<or> unat payload_length = terminal_p11_bytes) \<and>
                length wire = prefix_bytes + unat payload_length);
          if \<not> is_error \<and> \<not> is_success then Some \<lparr>rs_failure = F_malformed, rs_verified_p11 = []\<rparr>
          else do {
            nonce \<leftarrow> load wire 16 (length invocation_nonce);
            p10 \<leftarrow> load wire 32 (length trusted_p10);
            if nonce \<noteq> invocation_nonce \<or> p10 \<noteq> trusted_p10
            then Some \<lparr>rs_failure = F_correlation_mismatch, rs_verified_p11 = []\<rparr>
            else if is_error then Some \<lparr>rs_failure = F_read_incomplete, rs_verified_p11 = []\<rparr>
            else if unat payload_length \<noteq> selected_length
            then Some \<lparr>rs_failure = F_correlation_mismatch, rs_verified_p11 = []\<rparr>
            else do {
              payload \<leftarrow> load wire prefix_bytes (length selected_p11);
              if payload \<noteq> selected_p11
              then Some \<lparr>rs_failure = F_correlation_mismatch, rs_verified_p11 = []\<rparr>
              else if \<not> alloc selected_length
              then Some \<lparr>rs_failure = F_internal_failure, rs_verified_p11 = []\<rparr>
              else do {
                verified \<leftarrow> load wire prefix_bytes selected_length;
                Some \<lparr>rs_failure = F_none, rs_verified_p11 = verified\<rparr> } } } } })"

section \<open>Facts about raw accesses\<close>

lemma length_le16 [simp]: "length (le16 v) = 2"
  by (simp add: le16_def)

lemma length_le32 [simp]: "length (le32 v) = 4"
  by (simp add: le32_def)

lemma length_magic [simp]: "length magic = 4"
  by (simp add: magic_def)

text \<open>Writing at the end of what is written, into a buffer of zeros.\<close>

lemma store_next:
  assumes "length done = at" and "length bs \<le> k"
  shows "store at bs (done @ replicate k 0) = Some ((done @ bs) @ replicate (k - length bs) 0)"
  using assms by (simp add: store_def)

lemma put16_next:
  "length done = at \<Longrightarrow> 2 \<le> k \<Longrightarrow>
     put16 at v (done @ replicate k 0) = Some ((done @ le16 v) @ replicate (k - 2) 0)"
  by (simp add: put16_def store_next)

lemma put32_next:
  "length done = at \<Longrightarrow> 4 \<le> k \<Longrightarrow>
     put32 at v (done @ replicate k 0) = Some ((done @ le32 v) @ replicate (k - 4) 0)"
  by (simp add: put32_def store_next)

lemma byte_bit_high [simp]: "\<not> bit (a :: u8) (8 + n)" "\<not> bit (a :: u8) (16 + n)" "\<not> bit (a :: u8) (24 + n)"
  using bit_imp_le_length [of a] by fastforce+

lemma le16_split: "le16 (ucast a OR push_bit 8 (ucast b)) = [a, b]"
  unfolding le16_def
  by (auto intro!: bit_word_eqI simp: bit_simps)

lemma le16_join: "ucast (le16 v ! 0) OR push_bit 8 (ucast (le16 v ! 1)) = v"
  unfolding le16_def
  by (rule bit_word_eqI) (auto simp: bit_simps)

lemma le32_eq: "le32 v = [ucast v, ucast (drop_bit 8 v), ucast (drop_bit 16 v), ucast (drop_bit 24 v)]"
  by (simp add: le32_def upt_rec)

lemma le32_split:
  "le32 (ucast a OR push_bit 8 (ucast b) OR push_bit 16 (ucast c) OR push_bit 24 (ucast d)) = [a, b, c, d]"
  unfolding le32_eq
  by (auto intro!: bit_word_eqI simp: bit_simps)

lemma le32_join:
  "ucast (le32 v ! 0) OR push_bit 8 (ucast (le32 v ! 1)) OR push_bit 16 (ucast (le32 v ! 2)) OR
     push_bit 24 (ucast (le32 v ! 3)) = v"
  unfolding le32_eq
proof (rule bit_word_eqI, goal_cases)
  case (1 n)
  consider "n < 8" | "8 \<le> n" "n < 16" | "16 \<le> n" "n < 24" | "24 \<le> n" by linarith
  then show ?case using 1 by cases (auto simp: bit_simps)
qed

lemma le16_inject: "le16 v = le16 w \<longleftrightarrow> v = w"
  by (metis le16_join)

lemma le32_inject: "le32 v = le32 w \<longleftrightarrow> v = w"
  by (metis le32_join)

lemma load_ok: "load buf at n = Some bs \<longleftrightarrow> at + n \<le> length buf \<and> bs = take n (drop at buf)"
  by (auto simp: load_def)

lemma length2E: "length bs = 2 \<Longrightarrow> \<exists>a b. bs = [a, b]"
  by (auto simp: numeral_2_eq_2 length_Suc_conv)

lemma length4E: "length bs = 4 \<Longrightarrow> \<exists>a b c d. bs = [a, b, c, d]"
  by (auto simp: numeral_eq_Suc length_Suc_conv)

lemma get16_ok: "get16 buf at = Some v \<longleftrightarrow> at + 2 \<le> length buf \<and> take 2 (drop at buf) = le16 v"
proof (cases "at + 2 \<le> length buf")
  case True
  then obtain a b where ab: "take 2 (drop at buf) = [a, b]" using length2E [of "take 2 (drop at buf)"] by auto
  with True have "get16 buf at = Some (ucast a OR push_bit 8 (ucast b))"
    by (simp add: get16_def load_def)
  with ab True le16_split [of a b] show ?thesis by (metis le16_inject option.inject)
qed (simp add: get16_def load_def)

lemma get32_ok: "get32 buf at = Some v \<longleftrightarrow> at + 4 \<le> length buf \<and> take 4 (drop at buf) = le32 v"
proof (cases "at + 4 \<le> length buf")
  case True
  then obtain a b c d where abcd: "take 4 (drop at buf) = [a, b, c, d]" using length4E [of "take 4 (drop at buf)"] by auto
  with True have "get32 buf at = Some (ucast a OR push_bit 8 (ucast b) OR push_bit 16 (ucast c) OR push_bit 24 (ucast d))"
    by (simp add: get32_def load_def)
  with abcd True le32_split [of a b c d] show ?thesis by (metis le32_inject option.inject)
qed (simp add: get32_def load_def)

lemma get16_defined: "at + 2 \<le> length buf \<Longrightarrow> \<exists>v. get16 buf at = Some v"
  by (simp add: get16_def load_def)

lemma get32_defined: "at + 4 \<le> length buf \<Longrightarrow> \<exists>v. get32 buf at = Some v"
  by (simp add: get32_def load_def)

lemma fixed_header_ok:
  "12 \<le> length wire \<Longrightarrow> fixed_header wire = Some (take 4 wire = magic \<and> take 2 (drop 4 wire) = le16 version)"
proof -
  assume len: "12 \<le> length wire"
  then obtain v where v: "get16 wire 4 = Some v" using get16_defined [of 4 wire] by auto
  then have "take 2 (drop 4 wire) = le16 v" by (simp add: get16_ok)
  then show ?thesis using len v by (simp add: fixed_header_def load_def le16_inject)
qed

section \<open>The wire layouts\<close>

text \<open>The three messages of the exchange, field by field: the specification of the encoders.\<close>

definition header_layout :: "u16 \<Rightarrow> u32 \<Rightarrow> u16 \<Rightarrow> bytes" where
  "header_layout kind total_size status =
     magic @ le16 version @ le16 kind @ le32 total_size @ le16 operation @ le16 status"

definition request_layout :: "bytes \<Rightarrow> bytes \<Rightarrow> bytes" where
  "request_layout nonce p10 = header_layout request_kind 64 0 @ nonce @ p10"

definition response_layout :: "u16 \<Rightarrow> u16 \<Rightarrow> bytes \<Rightarrow> bytes \<Rightarrow> bytes \<Rightarrow> bytes" where
  "response_layout kind status nonce p10 payload =
     header_layout kind (of_nat (66 + length payload)) status @ nonce @ p10 @
     le16 (of_nat (length payload)) @ payload"

definition success_layout :: "bytes \<Rightarrow> bytes \<Rightarrow> bytes \<Rightarrow> bytes" where
  "success_layout nonce p10 p11 = response_layout success_kind 0 nonce p10 p11"

definition error_layout :: "bytes \<Rightarrow> bytes \<Rightarrow> bytes" where
  "error_layout nonce p10 = response_layout error_response_kind 1 nonce p10 []"

lemma length_header_layout [simp]: "length (header_layout k t s) = 16"
  by (simp add: header_layout_def)

lemma write_header_next:
  assumes "12 \<le> k"
  shows "write_header kind total_size (replicate k 0) =
    Some ((magic @ le16 version @ le16 kind @ le32 total_size) @ replicate (k - 12) 0)"
proof -
  have "store 0 magic (replicate k 0) = Some (magic @ replicate (k - 4) 0)"
    using store_next [of "[]" 0 magic k] assms by simp
  then show ?thesis
    using assms put16_next [of magic 4 "k - 4" version]
      put16_next [of "magic @ le16 version" 6 "k - 6" kind]
      put32_next [of "magic @ le16 version @ le16 kind" 8 "k - 8" total_size]
    by (simp add: write_header_def)
qed

lemma encode_request_layout:
  assumes "is_nonce nonce" and "is_p10_digest p10"
  shows "encode_request nonce p10 = Some (request_layout nonce p10)"
proof -
  let ?h = "magic @ le16 version @ le16 request_kind @ le32 64"
  show ?thesis
    using assms write_header_next [of 64 request_kind 64] put16_next [of ?h 12 52 operation]
      put16_next [of "?h @ le16 operation" 14 50 0]
      store_next [of "?h @ le16 operation @ le16 0" 16 nonce 48]
      store_next [of "?h @ le16 operation @ le16 0 @ nonce" 32 p10 32]
    by (simp add: encode_request_def request_bytes_def request_layout_def header_layout_def
        is_nonce_def is_p10_digest_def)
qed

lemma write_common_response_layout:
  assumes "is_nonce nonce" and "is_p10_digest p10"
  shows "write_common_response kind t status nonce p10 ps (replicate (66 + k) 0) =
    Some ((header_layout kind t status @ nonce @ p10 @ le16 ps) @ replicate k 0)"
proof -
  let ?h = "magic @ le16 version @ le16 kind @ le32 t"
  show ?thesis
    using assms write_header_next [of "66 + k" kind t] put16_next [of ?h 12 "54 + k" operation]
      put16_next [of "?h @ le16 operation" 14 "52 + k" status]
      store_next [of "?h @ le16 operation @ le16 status" 16 nonce "50 + k"]
      store_next [of "?h @ le16 operation @ le16 status @ nonce" 32 p10 "34 + k"]
      put16_next [of "?h @ le16 operation @ le16 status @ nonce @ p10" 64 "2 + k" ps]
    by (simp add: write_common_response_def header_layout_def is_nonce_def is_p10_digest_def)
qed

lemma encode_error_layout:
  assumes "is_nonce nonce" and "is_p10_digest p10"
  shows "encode_generic_error_response nonce p10 = Some (error_layout nonce p10)"
  using write_common_response_layout [OF assms, of error_response_kind 66 1 0 0]
  by (simp add: encode_generic_error_response_def error_response_bytes_def error_layout_def
      response_layout_def)

lemma encode_success_layout:
  assumes "is_nonce nonce" and "is_p10_digest p10"
    and "length p11 = active_p11_bytes \<or> length p11 = terminal_p11_bytes"
  shows "encode_verified_success_response alloc nonce p10 p11 =
    Some (if alloc (prefix_bytes + length p11)
      then \<lparr>se_failure = F_none, se_bytes = success_layout nonce p10 p11\<rparr>
      else \<lparr>se_failure = F_internal_failure, se_bytes = []\<rparr>)"
proof -
  let ?w = "header_layout success_kind (of_nat (66 + length p11)) 0 @ nonce @ p10 @ le16 (of_nat (length p11))"
  have "length ?w = 66" using assms(1,2) by (simp add: is_nonce_def is_p10_digest_def)
  then have "store 66 p11 (?w @ replicate (length p11) 0) = Some (?w @ p11)"
    using store_next [of ?w 66 p11 "length p11"] by simp
  then show ?thesis
    using assms(3) write_common_response_layout [OF assms(1,2), of success_kind "of_nat (66 + length p11)" 0
        "of_nat (length p11)" "length p11"]
    by (auto simp: encode_verified_success_response_def prefix_bytes_def success_layout_def response_layout_def Let_def)
qed

section \<open>What the validators compute\<close>

lemma take16_fields:
  "take 16 wire = take 4 wire @ take 2 (drop 4 wire) @ take 2 (drop 6 wire) @ take 4 (drop 8 wire) @
     take 2 (drop 12 wire) @ take 2 (drop 14 wire)"
  using take_add [of 4 12 wire] take_add [of 2 10 "drop 4 wire"] take_add [of 2 8 "drop 6 wire"]
    take_add [of 4 4 "drop 8 wire"] take_add [of 2 2 "drop 12 wire"]
  by simp

lemma header_fields:
  assumes "16 \<le> length wire"
  shows "take 16 wire = header_layout kind t status \<longleftrightarrow>
    take 4 wire = magic \<and> take 2 (drop 4 wire) = le16 version \<and> take 2 (drop 6 wire) = le16 kind \<and>
    take 4 (drop 8 wire) = le32 t \<and> take 2 (drop 12 wire) = le16 operation \<and>
    take 2 (drop 14 wire) = le16 status"
  using assms by (simp add: take16_fields header_layout_def append_eq_append_conv)

text \<open>The fields a validator reads from a wire that is long enough, as equations on its bytes.\<close>

lemma header_reads:
  assumes "16 \<le> length wire"
  obtains kind t op status where
    "get16 wire 6 = Some kind" "get32 wire 8 = Some t" "get16 wire 12 = Some op" "get16 wire 14 = Some status"
    "take 2 (drop 6 wire) = le16 kind" "take 4 (drop 8 wire) = le32 t" "take 2 (drop 12 wire) = le16 op"
    "take 2 (drop 14 wire) = le16 status"
proof -
  obtain kind t op status where
    "get16 wire 6 = Some kind" "get32 wire 8 = Some t" "get16 wire 12 = Some op" "get16 wire 14 = Some status"
    using assms get16_defined [of 6 wire] get32_defined [of 8 wire] get16_defined [of 12 wire]
      get16_defined [of 14 wire] by auto
  then show ?thesis using that by (simp add: get16_ok get32_ok)
qed

lemma validate_request_value:
  assumes "is_p10_digest p10"
  shows "validate_request wire p10 = Some (
    if length wire \<noteq> 64 \<or> take 16 wire \<noteq> header_layout request_kind 64 0
    then \<lparr>rq_failure = F_malformed, rq_nonce = None\<rparr>
    else if drop 32 wire \<noteq> p10 then \<lparr>rq_failure = F_correlation_mismatch, rq_nonce = None\<rparr>
    else \<lparr>rq_failure = F_none, rq_nonce = Some (take 16 (drop 16 wire))\<rparr>)"
proof (cases "length wire = 64")
  case True
  then have len: "16 \<le> length wire" "12 \<le> length wire" by simp_all
  obtain kind t op status where r: "get16 wire 6 = Some kind" "get32 wire 8 = Some t" "get16 wire 12 = Some op"
      "get16 wire 14 = Some status" "take 2 (drop 6 wire) = le16 kind" "take 4 (drop 8 wire) = le32 t"
      "take 2 (drop 12 wire) = le16 op" "take 2 (drop 14 wire) = le16 status"
    by (rule header_reads [OF len(1)])
  have "load wire 32 (length p10) = Some (drop 32 wire)" "load wire 16 16 = Some (take 16 (drop 16 wire))"
    using assms True by (simp_all add: load_def is_p10_digest_def)
  with r True assms show ?thesis
    by (auto simp: validate_request_def request_bytes_def fixed_header_ok [OF len(2)] header_fields [OF len(1)]
        le16_inject le32_inject)
qed (simp add: validate_request_def request_bytes_def)

lemma request_layout_iff:
  assumes "is_p10_digest p10"
  shows "wire = request_layout nonce p10 \<and> is_nonce nonce \<longleftrightarrow>
    length wire = 64 \<and> take 16 wire = header_layout request_kind 64 0 \<and> drop 32 wire = p10 \<and>
    take 16 (drop 16 wire) = nonce"
proof
  assume r: "length wire = 64 \<and> take 16 wire = header_layout request_kind 64 0 \<and> drop 32 wire = p10 \<and>
    take 16 (drop 16 wire) = nonce"
  have "wire = take 16 wire @ take 16 (drop 16 wire) @ drop 32 wire"
    using append_take_drop_id [of 16 wire] append_take_drop_id [of 16 "drop 16 wire"] by simp
  moreover have "length nonce = 16" using r by auto
  ultimately show "wire = request_layout nonce p10 \<and> is_nonce nonce"
    using r by (simp add: request_layout_def is_nonce_def)
qed (use assms in \<open>auto simp: request_layout_def is_nonce_def is_p10_digest_def\<close>)

text \<open>The two frames a response can have, read off the wire.\<close>

definition error_frame :: "bytes \<Rightarrow> bool" where
  "error_frame wire \<longleftrightarrow> length wire = 66 \<and> take 16 wire = header_layout error_response_kind 66 1 \<and>
     take 2 (drop 64 wire) = le16 0"

definition success_frame :: "nat \<Rightarrow> bytes \<Rightarrow> bool" where
  "success_frame n wire \<longleftrightarrow> length wire = 66 + n \<and>
     take 16 wire = header_layout success_kind (of_nat (66 + n)) 0 \<and> take 2 (drop 64 wire) = le16 (of_nat n)"

definition canonical_p11_length :: "nat \<Rightarrow> bool" where
  "canonical_p11_length n \<longleftrightarrow> n = active_p11_bytes \<or> n = terminal_p11_bytes"

lemmas codec_sizes = prefix_bytes_def active_p11_bytes_def terminal_p11_bytes_def
  maximum_response_bytes_def error_response_bytes_def

lemma unat_is_of_nat: "n < 2 ^ LENGTH('a) \<Longrightarrow> unat (w :: 'a :: len word) = n \<longleftrightarrow> w = of_nat n"
  by (auto simp: unat_of_nat take_bit_nat_eq_self)

text \<open>The closed form of \<open>validate_response\<close>: it never reads outside the wire, and each
  failure is told apart.\<close>

lemma validate_response_value:
  assumes "is_nonce n" and "is_p10_digest p10" and "canonical_p11_length (length p11)"
  shows "validate_response alloc wire n p10 p11 (length p11) = Some (
    if \<not> error_frame wire \<and> \<not> success_frame 299 wire \<and> \<not> success_frame 300 wire
    then \<lparr>rs_failure = F_malformed, rs_verified_p11 = []\<rparr>
    else if take 16 (drop 16 wire) \<noteq> n \<or> take 32 (drop 32 wire) \<noteq> p10
    then \<lparr>rs_failure = F_correlation_mismatch, rs_verified_p11 = []\<rparr>
    else if error_frame wire then \<lparr>rs_failure = F_read_incomplete, rs_verified_p11 = []\<rparr>
    else if drop 66 wire \<noteq> p11 then \<lparr>rs_failure = F_correlation_mismatch, rs_verified_p11 = []\<rparr>
    else if \<not> alloc (length p11) then \<lparr>rs_failure = F_internal_failure, rs_verified_p11 = []\<rparr>
    else \<lparr>rs_failure = F_none, rs_verified_p11 = p11\<rparr>)"
proof (cases "66 \<le> length wire \<and> length wire \<le> 366")
  case True
  then have len: "16 \<le> length wire" "12 \<le> length wire" by simp_all
  obtain kind t op status where r: "get16 wire 6 = Some kind" "get32 wire 8 = Some t" "get16 wire 12 = Some op"
      "get16 wire 14 = Some status" "take 2 (drop 6 wire) = le16 kind" "take 4 (drop 8 wire) = le32 t"
      "take 2 (drop 12 wire) = le16 op" "take 2 (drop 14 wire) = le16 status"
    by (rule header_reads [OF len(1)])
  obtain pl where pl: "get16 wire 64 = Some pl" "take 2 (drop 64 wire) = le16 pl"
    using True get16_defined [of 64 wire] by (auto simp: get16_ok)
  have loads: "load wire 16 (length n) = Some (take 16 (drop 16 wire))"
      "load wire 32 (length p10) = Some (take 32 (drop 32 wire))"
    using assms(1,2) True by (simp_all add: load_def is_p10_digest_def is_nonce_def)
  have payload: "load wire 66 (length p11) = Some (drop 66 wire)" if "length wire = 66 + length p11"
    using that by (simp add: load_def)
  define A where "A \<longleftrightarrow> (take 4 wire = magic \<and> take 2 (drop 4 wire) = le16 version) \<and>
    unat t = length wire \<and> op = operation"
  have t: "unat t = length wire \<longleftrightarrow> t = of_nat (length wire)" using True by (subst unat_is_of_nat) auto
  have E: "error_frame wire \<longleftrightarrow>
      A \<and> kind = error_response_kind \<and> status = 1 \<and> length wire = 66 \<and> pl = 0"
    unfolding error_frame_def header_fields [OF len(1)] A_def t r pl le16_inject le32_inject by auto
  have S: "success_frame k wire \<longleftrightarrow> A \<and> kind = success_kind \<and> status = 0 \<and> length wire = 66 + unat pl \<and> unat pl = k"
    if "k = 299 \<or> k = 300" for k
  proof -
    have "unat pl = k \<longleftrightarrow> pl = of_nat k" using that by (subst unat_is_of_nat) auto
    then show ?thesis
      unfolding success_frame_def header_fields [OF len(1)] A_def t r pl le16_inject le32_inject by auto
  qed
  have header: "fixed_header wire = Some (take 4 wire = magic \<and> take 2 (drop 4 wire) = le16 version)"
    by (rule fixed_header_ok [OF len(2)])
  have size: "(length wire < 66 \<or> 366 < length wire) = False" "(length p11 \<noteq> 299 \<and> length p11 \<noteq> 300) = False"
    using True assms(3) by (auto simp: canonical_p11_length_def codec_sizes)
  define is_success where "is_success \<longleftrightarrow> kind = success_kind \<and> status = 0 \<and>
    (unat pl = 299 \<or> unat pl = 300) \<and> length wire = 66 + unat pl"
  define is_error where "is_error \<longleftrightarrow> kind = error_response_kind \<and> status = 1 \<and> length wire = 66 \<and> pl = 0"
  have notA: "(\<not> (take 4 wire = magic \<and> take 2 (drop 4 wire) = le16 version) \<or> unat t \<noteq> length wire \<or>
      op \<noteq> operation) = (\<not> A)"
    by (auto simp: A_def)
  have run: "validate_response alloc wire n p10 p11 (length p11) =
    (if \<not> A \<or> \<not> is_error \<and> \<not> is_success then Some \<lparr>rs_failure = F_malformed, rs_verified_p11 = []\<rparr>
     else if take 16 (drop 16 wire) \<noteq> n \<or> take 32 (drop 32 wire) \<noteq> p10
     then Some \<lparr>rs_failure = F_correlation_mismatch, rs_verified_p11 = []\<rparr>
     else if is_error then Some \<lparr>rs_failure = F_read_incomplete, rs_verified_p11 = []\<rparr>
     else if unat pl \<noteq> length p11 then Some \<lparr>rs_failure = F_correlation_mismatch, rs_verified_p11 = []\<rparr>
     else do {
       payload \<leftarrow> load wire 66 (length p11);
       if payload \<noteq> p11 then Some \<lparr>rs_failure = F_correlation_mismatch, rs_verified_p11 = []\<rparr>
       else if \<not> alloc (length p11) then Some \<lparr>rs_failure = F_internal_failure, rs_verified_p11 = []\<rparr>
       else do {
         verified \<leftarrow> load wire 66 (length p11);
         Some \<lparr>rs_failure = F_none, rs_verified_p11 = verified\<rparr> } })"
    unfolding validate_response_def codec_sizes size header r(1-4) pl(1) loads Let_def bind.bind_lunit
      simp_thms if_False notA
    by (simp only: is_success_def [symmetric] is_error_def [symmetric]) (cases A, simp_all)
  show ?thesis
  proof (cases "A \<and> is_success")
    case success: True
    then have frame: "\<not> error_frame wire" "success_frame 299 wire \<or> success_frame 300 wire" "\<not> is_error"
      using S [of 299] S [of 300] E by (auto simp: is_success_def is_error_def)
    have "drop 66 wire = p11 \<Longrightarrow> length wire = 66 + length p11" using True by auto
    then show ?thesis
      unfolding run using success frame payload by (auto simp: is_success_def)
  next
    case False
    then have "\<not> success_frame 299 wire \<and> \<not> success_frame 300 wire" "error_frame wire \<longleftrightarrow> A \<and> is_error"
      using S [of 299] S [of 300] E by (auto simp: is_success_def is_error_def)
    with False show ?thesis unfolding run by auto
  qed
next
  case False
  then have "\<not> error_frame wire" "\<not> success_frame 299 wire" "\<not> success_frame 300 wire"
    by (auto simp: error_frame_def success_frame_def)
  moreover have "(length p11 \<noteq> 299 \<and> length p11 \<noteq> 300) = False" "(length wire < 66 \<or> 366 < length wire) = True"
    using False assms(3) by (auto simp: canonical_p11_length_def codec_sizes)
  ultimately show ?thesis by (simp only: validate_response_def codec_sizes) simp
qed

text \<open>The wires of each frame with given correlation fields are the layouts.\<close>

lemma response_split:
  assumes "66 \<le> length wire"
  shows "wire = take 16 wire @ take 16 (drop 16 wire) @ take 32 (drop 32 wire) @ take 2 (drop 64 wire) @ drop 66 wire"
  using append_take_drop_id [of 16 wire] append_take_drop_id [of 16 "drop 16 wire"]
    append_take_drop_id [of 32 "drop 32 wire"] append_take_drop_id [of 2 "drop 64 wire"] by simp

lemma error_layout_iff:
  assumes "is_nonce n" and "is_p10_digest p10"
  shows "wire = error_layout n p10 \<longleftrightarrow>
    error_frame wire \<and> take 16 (drop 16 wire) = n \<and> take 32 (drop 32 wire) = p10"
proof
  assume r: "error_frame wire \<and> take 16 (drop 16 wire) = n \<and> take 32 (drop 32 wire) = p10"
  then show "wire = error_layout n p10"
    using response_split [of wire] by (simp add: error_frame_def error_layout_def response_layout_def)
qed (use assms in \<open>simp add: error_layout_def response_layout_def error_frame_def is_nonce_def is_p10_digest_def\<close>)

lemma success_layout_iff:
  assumes "is_nonce n" and "is_p10_digest p10"
  shows "wire = success_layout n p10 p11 \<longleftrightarrow>
    success_frame (length p11) wire \<and> take 16 (drop 16 wire) = n \<and> take 32 (drop 32 wire) = p10 \<and> drop 66 wire = p11"
proof
  assume r: "success_frame (length p11) wire \<and> take 16 (drop 16 wire) = n \<and> take 32 (drop 32 wire) = p10 \<and>
    drop 66 wire = p11"
  then show "wire = success_layout n p10 p11"
    using response_split [of wire] by (simp add: success_frame_def success_layout_def response_layout_def)
qed (use assms in \<open>simp add: success_layout_def response_layout_def success_frame_def is_nonce_def is_p10_digest_def\<close>)

lemma success_frame_not_error: "success_frame k wire \<Longrightarrow> \<not> error_frame wire"
  by (auto simp: success_frame_def error_frame_def header_layout_def success_kind_def error_response_kind_def
      le16_inject)

lemma validate_response_ok_iff:
  assumes "is_nonce n" and "is_p10_digest p10" and "canonical_p11_length (length p11)"
  shows "validate_response alloc wire n p10 p11 (length p11) = Some \<lparr>rs_failure = F_none, rs_verified_p11 = p\<rparr> \<longleftrightarrow>
    p = p11 \<and> wire = success_layout n p10 p11 \<and> alloc (length p11)"
proof -
  have frame: "success_frame 299 wire \<or> success_frame 300 wire \<longleftrightarrow> success_frame (length p11) wire"
    if "drop 66 wire = p11"
  proof -
    have "k = length p11" if "success_frame k wire" for k
      using that \<open>drop 66 wire = p11\<close> unfolding success_frame_def by auto
    moreover have "length p11 = 299 \<or> length p11 = 300"
      using assms(3) by (simp add: canonical_p11_length_def codec_sizes)
    ultimately show ?thesis by metis
  qed
  have error: "\<not> error_frame wire" if "success_frame 299 wire \<or> success_frame 300 wire"
    using that success_frame_not_error by blast
  show ?thesis
  proof (cases "drop 66 wire = p11 \<and> success_frame (length p11) wire")
    case True
    with frame error show ?thesis
      unfolding validate_response_value [OF assms] success_layout_iff [OF assms(1,2)] by auto
  next
    case False
    with frame show ?thesis
      unfolding validate_response_value [OF assms] success_layout_iff [OF assms(1,2)] by auto
  qed
qed

lemma validate_response_incomplete_iff:
  assumes "is_nonce n" and "is_p10_digest p10" and "canonical_p11_length (length p11)"
  shows "validate_response alloc wire n p10 p11 (length p11) =
      Some \<lparr>rs_failure = F_read_incomplete, rs_verified_p11 = p\<rparr> \<longleftrightarrow>
    p = [] \<and> wire = error_layout n p10"
  by (auto simp: validate_response_value [OF assms] error_layout_iff [OF assms(1,2)])

lemma validate_request_ok_iff:
  assumes "is_p10_digest p10"
  shows "validate_request wire p10 = Some \<lparr>rq_failure = F_none, rq_nonce = Some n\<rparr> \<longleftrightarrow>
    is_nonce n \<and> wire = request_layout n p10"
  using request_layout_iff [OF assms, of wire n] by (auto simp: validate_request_value [OF assms])

section \<open>The codec contract\<close>

text \<open>
  What a client of an encoder and its validator relies on: under a trusted context every admissible
  payload has an encoding, and the validator accepts exactly the encodings of admissible payloads.
\<close>

locale wire_codec =
  fixes trusted :: "'c \<Rightarrow> bool"
    and payload_ok :: "'c \<Rightarrow> 'k \<Rightarrow> bool"
    and encode :: "'c \<Rightarrow> 'k \<Rightarrow> bytes option"
    and decode :: "'c \<Rightarrow> bytes \<Rightarrow> 'k option"
  assumes encode_total: "trusted c \<Longrightarrow> payload_ok c k \<Longrightarrow> \<exists>w. encode c k = Some w"
    and canonical: "trusted c \<Longrightarrow> decode c w = Some k \<longleftrightarrow> payload_ok c k \<and> encode c k = Some w"
begin

lemma roundtrip:
  "trusted c \<Longrightarrow> payload_ok c k \<Longrightarrow> \<exists>w. encode c k = Some w \<and> decode c w = Some k"
  using encode_total canonical by blast

lemma one_wire:
  "trusted c \<Longrightarrow> decode c w = Some k \<Longrightarrow> decode c w' = Some k \<Longrightarrow> w' = w"
  using canonical by (metis option.inject)

lemma encode_inject:
  "trusted c \<Longrightarrow> payload_ok c k \<Longrightarrow> payload_ok c k' \<Longrightarrow> encode c k = encode c k' \<Longrightarrow> k = k'"
  using roundtrip by (metis option.inject)

end

definition accepted_request :: "bytes \<Rightarrow> bytes \<Rightarrow> bytes option" where
  "accepted_request p10 wire = (case validate_request wire p10 of
     Some v \<Rightarrow> (if rq_ok v then rq_nonce v else None) | None \<Rightarrow> None)"

lemma accepted_request_iff:
  assumes "is_p10_digest p10"
  shows "accepted_request p10 wire = Some n \<longleftrightarrow> is_nonce n \<and> encode_request n p10 = Some wire"
proof -
  have "accepted_request p10 wire = Some n \<longleftrightarrow>
      validate_request wire p10 = Some \<lparr>rq_failure = F_none, rq_nonce = Some n\<rparr>"
    by (auto simp: accepted_request_def rq_ok_def split: option.splits)
  then show ?thesis
    using validate_request_ok_iff [OF assms] encode_request_layout [OF _ assms] by auto
qed

interpretation request_codec: wire_codec is_p10_digest "\<lambda>_. is_nonce" "\<lambda>p10 n. encode_request n p10" accepted_request
  by unfold_locales (auto simp: encode_request_layout accepted_request_iff)

text \<open>A response is validated under the invocation nonce, the trusted P10 digest and the P11 that the
  caller expects; the allocator must have room for the message.\<close>

record exchange =
  x_alloc :: "nat \<Rightarrow> bool"
  x_nonce :: bytes
  x_p10 :: bytes
  x_p11 :: bytes

definition exchange_ok :: "exchange \<Rightarrow> bool" where
  "exchange_ok x \<longleftrightarrow> is_nonce (x_nonce x) \<and> is_p10_digest (x_p10 x) \<and>
     canonical_p11_length (length (x_p11 x)) \<and>
     x_alloc x (length (x_p11 x)) \<and> x_alloc x (prefix_bytes + length (x_p11 x))"

definition success_wire :: "exchange \<Rightarrow> bytes \<Rightarrow> bytes option" where
  "success_wire x p11 = (case encode_verified_success_response (x_alloc x) (x_nonce x) (x_p10 x) p11 of
     Some e \<Rightarrow> (if se_ok e then Some (se_bytes e) else None) | None \<Rightarrow> None)"

definition validated :: "exchange \<Rightarrow> bytes \<Rightarrow> response_validation option" where
  "validated x wire =
     validate_response (x_alloc x) wire (x_nonce x) (x_p10 x) (x_p11 x) (length (x_p11 x))"

definition accepted_response :: "exchange \<Rightarrow> bytes \<Rightarrow> bytes option" where
  "accepted_response x wire = (case validated x wire of
     Some v \<Rightarrow> (if rs_ok v then Some (rs_verified_p11 v) else None) | None \<Rightarrow> None)"

definition reported_incomplete :: "exchange \<Rightarrow> bytes \<Rightarrow> unit option" where
  "reported_incomplete x wire = (case validated x wire of
     Some v \<Rightarrow> (if rs_failure v = F_read_incomplete then Some () else None) | None \<Rightarrow> None)"

lemma success_wire_eq:
  "exchange_ok x \<Longrightarrow> success_wire x (x_p11 x) = Some (success_layout (x_nonce x) (x_p10 x) (x_p11 x))"
  by (simp add: success_wire_def encode_success_layout exchange_ok_def canonical_p11_length_def se_ok_def)

lemma accepted_response_iff:
  assumes "exchange_ok x"
  shows "accepted_response x wire = Some p \<longleftrightarrow> p = x_p11 x \<and> success_wire x p = Some wire"
proof -
  have "accepted_response x wire = Some p \<longleftrightarrow>
      validated x wire = Some \<lparr>rs_failure = F_none, rs_verified_p11 = p\<rparr>"
    by (auto simp: accepted_response_def rs_ok_def split: option.splits)
  also have "\<dots> \<longleftrightarrow> p = x_p11 x \<and> success_wire x p = Some wire"
    using assms success_wire_eq [OF assms]
      validate_response_ok_iff [of "x_nonce x" "x_p10 x" "x_p11 x" "x_alloc x" wire p]
    by (auto simp: validated_def exchange_ok_def)
  finally show ?thesis .
qed

lemma reported_incomplete_iff:
  assumes "exchange_ok x"
  shows "reported_incomplete x wire = Some u \<longleftrightarrow>
    encode_generic_error_response (x_nonce x) (x_p10 x) = Some wire"
proof -
  have "reported_incomplete x wire = Some u \<longleftrightarrow>
      (\<exists>p. validated x wire = Some \<lparr>rs_failure = F_read_incomplete, rs_verified_p11 = p\<rparr>)"
    by (auto simp: reported_incomplete_def split: option.splits) (metis (full_types) response_validation.surjective unit.exhaust)
  also have "\<dots> \<longleftrightarrow> encode_generic_error_response (x_nonce x) (x_p10 x) = Some wire"
    using assms encode_error_layout [of "x_nonce x" "x_p10 x"]
      validate_response_incomplete_iff [of "x_nonce x" "x_p10 x" "x_p11 x" "x_alloc x" wire]
    by (auto simp: validated_def exchange_ok_def)
  finally show ?thesis .
qed

interpretation success_codec: wire_codec exchange_ok "\<lambda>x p. p = x_p11 x" success_wire accepted_response
  by unfold_locales (auto simp: success_wire_eq accepted_response_iff)

interpretation error_codec: wire_codec exchange_ok "\<lambda>x u. True"
  "\<lambda>x u. encode_generic_error_response (x_nonce x) (x_p10 x)" reported_incomplete
  by unfold_locales (auto simp: encode_error_layout reported_incomplete_iff exchange_ok_def)

section \<open>Properties of the codec\<close>

lemma codec_memory_safe_lemma:
  assumes "is_nonce n" and "is_p10_digest p10"
  shows "encode_request n p10 \<noteq> None \<and> encode_generic_error_response n p10 \<noteq> None \<and>
    encode_verified_success_response alloc n p10 p11 \<noteq> None \<and> validate_request wire p10 \<noteq> None \<and>
    validate_response alloc wire n p10 p11 k \<noteq> None"
proof -
  have "encode_verified_success_response alloc n p10 p11 \<noteq> None"
    using encode_success_layout [OF assms, of p11 alloc]
    by (cases "length p11 = active_p11_bytes \<or> length p11 = terminal_p11_bytes")
      (auto simp: encode_verified_success_response_def)
  moreover have "validate_response alloc wire n p10 p11 k \<noteq> None"
  proof (cases "canonical_p11_length k \<and> length p11 = k")
    case True
    then show ?thesis using validate_response_value [OF assms, of p11 alloc wire] by auto
  next
    case False
    then have "((k \<noteq> active_p11_bytes \<and> k \<noteq> terminal_p11_bytes) \<or> length p11 \<noteq> k) = True"
      by (auto simp: canonical_p11_length_def)
    then show ?thesis unfolding validate_response_def by simp
  qed
  ultimately show ?thesis
    using encode_request_layout [OF assms] encode_error_layout [OF assms] validate_request_value [OF assms(2), of wire]
    by simp
qed

text \<open>\<^bold>\<open>C18.\<close> Memory safety of the codec: for fixed-size nonce and digest arrays, whatever the wire, the
  payload, the announced length and the allocator, no encoder or validator accesses a byte outside
  its buffers; every one of them returns.\<close>

theorem codec_memory_safe:
  assumes "is_nonce n" and "is_p10_digest p10"
  shows "encode_request n p10 \<noteq> None \<and> encode_generic_error_response n p10 \<noteq> None \<and>
    encode_verified_success_response alloc n p10 p11 \<noteq> None \<and> validate_request wire p10 \<noteq> None \<and>
    validate_response alloc wire n p10 p11 k \<noteq> None"
  by (rule codec_memory_safe_lemma [OF assms])

theorem codec_memory_safe_witness:
  "validate_response (\<lambda>_. True) [0x53, 0x31] (replicate 16 7) (replicate 32 9) [] 299 \<noteq> None"
proof -
  have "is_nonce (replicate 16 7)" "is_p10_digest (replicate 32 9)" by (simp_all add: is_nonce_def is_p10_digest_def)
  from codec_memory_safe [OF this, of "\<lambda>_. True" "[]" "[0x53, 0x31]" 299] show ?thesis by (elim conjE)
qed

text \<open>\<^bold>\<open>C13.\<close> \<open>validate_request\<close> accepts exactly the requests that \<open>encode_request\<close> writes for the trusted P10
  digest, and returns their nonce: the request format has one encoding per nonce, and encoding
  followed by validation is the identity.\<close>

theorem request_canonical:
  assumes "is_p10_digest p10"
  shows "(\<exists>v. validate_request wire p10 = Some v \<and> rq_ok v \<and> rq_nonce v = Some n) \<longleftrightarrow>
    is_nonce n \<and> encode_request n p10 = Some wire"
proof -
  have "(\<exists>v. validate_request wire p10 = Some v \<and> rq_ok v \<and> rq_nonce v = Some n) \<longleftrightarrow> accepted_request p10 wire = Some n"
    by (auto simp: accepted_request_def split: option.splits)
  then show ?thesis using request_codec.canonical [OF assms] by blast
qed

theorem request_canonical_witness:
  "(\<exists>v. validate_request (request_layout (replicate 16 7) (replicate 32 9)) (replicate 32 9) = Some v \<and>
      rq_ok v \<and> rq_nonce v = Some (replicate 16 7))"
proof -
  have "is_p10_digest (replicate 32 9)" "is_nonce (replicate 16 7)" by (simp_all add: is_nonce_def is_p10_digest_def)
  then show ?thesis
    using request_canonical [of "replicate 32 9" "request_layout (replicate 16 7) (replicate 32 9)" "replicate 16 7"]
      encode_request_layout by blast
qed

text \<open>\<^bold>\<open>C3.\<close> \<open>validate_response\<close> answers with the expected P11 exactly on the one wire that
  \<open>encode_verified_success_response\<close> writes for this nonce, P10 digest and P11, and reports
  \<open>read_incomplete\<close> exactly on the generic error response of this nonce and digest; in every other
  case it returns no P11 bytes.\<close>

theorem response_canonical:
  assumes "exchange_ok x"
  shows "((\<exists>v. validated x wire = Some v \<and> rs_ok v \<and> rs_verified_p11 v = p) \<longleftrightarrow>
      p = x_p11 x \<and> success_wire x p = Some wire) \<and>
    ((\<exists>v. validated x wire = Some v \<and> rs_failure v = F_read_incomplete) \<longleftrightarrow>
      encode_generic_error_response (x_nonce x) (x_p10 x) = Some wire) \<and>
    (\<nexists>v. validated x wire = Some v \<and> \<not> rs_ok v \<and> rs_verified_p11 v \<noteq> [])"
proof (intro conjI)
  have "(\<exists>v. validated x wire = Some v \<and> rs_ok v \<and> rs_verified_p11 v = p) \<longleftrightarrow> accepted_response x wire = Some p"
    by (auto simp: accepted_response_def split: option.splits)
  then show "(\<exists>v. validated x wire = Some v \<and> rs_ok v \<and> rs_verified_p11 v = p) \<longleftrightarrow>
      p = x_p11 x \<and> success_wire x p = Some wire"
    using success_codec.canonical [OF assms] by blast
  have "(\<exists>v. validated x wire = Some v \<and> rs_failure v = F_read_incomplete) \<longleftrightarrow> reported_incomplete x wire = Some ()"
    by (auto simp: reported_incomplete_def split: option.splits)
  then show "(\<exists>v. validated x wire = Some v \<and> rs_failure v = F_read_incomplete) \<longleftrightarrow>
      encode_generic_error_response (x_nonce x) (x_p10 x) = Some wire"
    using error_codec.canonical [OF assms] by simp
  show "\<nexists>v. validated x wire = Some v \<and> \<not> rs_ok v \<and> rs_verified_p11 v \<noteq> []"
    using assms validate_response_value [of "x_nonce x" "x_p10 x" "x_p11 x" "x_alloc x" wire]
    by (auto simp: validated_def exchange_ok_def rs_ok_def split: if_splits)
qed

definition sample_exchange :: exchange where
  "sample_exchange = \<lparr>x_alloc = (\<lambda>_. True), x_nonce = replicate 16 7, x_p10 = replicate 32 9, x_p11 = replicate 299 65\<rparr>"

lemma sample_exchange_ok: "exchange_ok sample_exchange"
  by (simp add: exchange_ok_def sample_exchange_def is_nonce_def is_p10_digest_def canonical_p11_length_def codec_sizes)

theorem response_canonical_witness:
  "\<exists>v. validated sample_exchange (success_layout (replicate 16 7) (replicate 32 9) (replicate 299 65)) = Some v \<and>
     rs_ok v \<and> rs_verified_p11 v = replicate 299 65"
  using response_canonical [OF sample_exchange_ok] success_wire_eq [OF sample_exchange_ok]
  unfolding sample_exchange_def by simp

lemma replay_frames:
  assumes "is_nonce n" and "is_p10_digest d"
    and "wire = error_layout n d \<or> wire = success_layout n d p \<and> canonical_p11_length (length p)"
  shows "(error_frame wire \<or> success_frame 299 wire \<or> success_frame 300 wire) \<and>
    take 16 (drop 16 wire) = n \<and> take 32 (drop 32 wire) = d"
  using assms(3)
proof
  assume "wire = error_layout n d"
  then show ?thesis using error_layout_iff [OF assms(1,2), of wire] by blast
next
  assume w: "wire = success_layout n d p \<and> canonical_p11_length (length p)"
  then have "length p = 299 \<or> length p = 300" by (simp add: canonical_p11_length_def codec_sizes)
  then show ?thesis using w success_layout_iff [OF assms(1,2), of wire p] by metis
qed

text \<open>\<^bold>\<open>C19.\<close> A response to another invocation is never taken for an answer to this one: every
  well-formed success or error response whose nonce or P10 digest differs from the caller's is
  classified as a correlation mismatch, whatever P11 it carries.\<close>

theorem response_replay_rejected:
  assumes "exchange_ok x" and "exchange_ok y" and "x_nonce y \<noteq> x_nonce x \<or> x_p10 y \<noteq> x_p10 x"
    and "success_wire y (x_p11 y) = Some wire \<or> encode_generic_error_response (x_nonce y) (x_p10 y) = Some wire"
  shows "validated x wire = Some \<lparr>rs_failure = F_correlation_mismatch, rs_verified_p11 = []\<rparr>"
proof -
  have y: "is_nonce (x_nonce y)" "is_p10_digest (x_p10 y)" "canonical_p11_length (length (x_p11 y))"
    and x: "is_nonce (x_nonce x)" "is_p10_digest (x_p10 x)" "canonical_p11_length (length (x_p11 x))"
    using assms(1,2) by (simp_all add: exchange_ok_def)
  have "wire = error_layout (x_nonce y) (x_p10 y) \<or>
      wire = success_layout (x_nonce y) (x_p10 y) (x_p11 y) \<and> canonical_p11_length (length (x_p11 y))"
    using assms(4) y success_wire_eq [OF assms(2)] encode_error_layout [OF y(1,2)] by auto
  from replay_frames [OF y(1,2) this] assms(3) show ?thesis
    unfolding validated_def validate_response_value [OF x] by (auto simp del: drop_drop)
qed

theorem response_replay_rejected_witness:
  "validated (sample_exchange \<lparr>x_nonce := replicate 16 8\<rparr>)
     (success_layout (replicate 16 7) (replicate 32 9) (replicate 299 65)) =
   Some \<lparr>rs_failure = F_correlation_mismatch, rs_verified_p11 = []\<rparr>"
proof (rule response_replay_rejected [where y = sample_exchange])
  show "exchange_ok sample_exchange" by (rule sample_exchange_ok)
  show "exchange_ok (sample_exchange \<lparr>x_nonce := replicate 16 8\<rparr>)"
    using sample_exchange_ok by (simp add: exchange_ok_def is_nonce_def)
  show "x_nonce sample_exchange \<noteq> x_nonce (sample_exchange \<lparr>x_nonce := replicate 16 8\<rparr>) \<or>
      x_p10 sample_exchange \<noteq> x_p10 (sample_exchange \<lparr>x_nonce := replicate 16 8\<rparr>)"
    by (simp add: sample_exchange_def numeral_eq_Suc)
  show "success_wire sample_exchange (x_p11 sample_exchange) =
        Some (success_layout (replicate 16 7) (replicate 32 9) (replicate 299 65)) \<or>
      encode_generic_error_response (x_nonce sample_exchange) (x_p10 sample_exchange) =
        Some (success_layout (replicate 16 7) (replicate 32 9) (replicate 299 65))"
    using success_wire_eq [OF sample_exchange_ok] by (simp add: sample_exchange_def)
qed

end
