(* ===== verification/Head_Nonce.thy ===== *)
theory Head_Nonce
  imports Head_Codec
begin

text \<open>
  Nonce generation for ReadFixtureHead (\<^verbatim>\<open>windows_read_fixture_head_nonce.hpp\<close>,
  \<^verbatim>\<open>windows_read_fixture_head_nonce.cpp\<close>).  The native random generator \<^verbatim>\<open>BCryptGenRandom\<close> is a
  parameter: it takes the algorithm handle, the buffer, its length and the flags, and returns the
  NTSTATUS and the buffer it leaves behind.  A null function pointer is \<open>None\<close>.
\<close>

type_synonym 'w native_random = "handle \<Rightarrow> bytes \<Rightarrow> u32 \<Rightarrow> u32 \<Rightarrow> ('w, int \<times> bytes) cpp"

datatype nonce_generation_error = Nonce_none | Nonce_incomplete

record nonce_generation_result =
  n_error :: nonce_generation_error
  n_nonce :: "bytes option"

definition nonce_ok :: "nonce_generation_result \<Rightarrow> bool" where
  "nonce_ok r \<longleftrightarrow> n_error r = Nonce_none"

definition failure_step :: "nonce_generation_result \<Rightarrow> string" where
  "failure_step r = (if nonce_ok r then '''' else ''generate-readfixturehead-nonce'')"

definition bcrypt_success :: "int \<Rightarrow> bool" where
  "bcrypt_success status \<longleftrightarrow> 0 \<le> status"

definition BCRYPT_USE_SYSTEM_PREFERRED_RNG :: u32 where
  "BCRYPT_USE_SYSTEM_PREFERRED_RNG = 2"

text \<open>The status is tested inside the \<^verbatim>\<open>try\<close>; a provider that throws leaves the function at the
  final \<^verbatim>\<open>return std::nullopt\<close>.\<close>

definition generate_once :: "'w native_random option \<Rightarrow> ('w, bytes option) cpp" where
  "generate_once call = (case call of
      None \<Rightarrow> returnM None
    | Some gen \<Rightarrow>
        catchM
          (bindM (gen null_handle (replicate 16 0) 16 BCRYPT_USE_SYSTEM_PREFERRED_RNG) (\<lambda>(status, bs).
             if bcrypt_success status then returnM (Some bs) else returnM None))
          (\<lambda>_. returnM None))"

definition nonce_result :: "bytes option \<Rightarrow> nonce_generation_result" where
  "nonce_result nonce = (case nonce of
      None \<Rightarrow> \<lparr>n_error = Nonce_incomplete, n_nonce = None\<rparr>
    | Some n \<Rightarrow> \<lparr>n_error = Nonce_none, n_nonce = Some n\<rparr>)"

definition generate_read_fixture_head_nonce :: "'w native_random \<Rightarrow> ('w, nonce_generation_result) cpp" where
  "generate_read_fixture_head_nonce bcrypt_gen_random =
     bindM (generate_once (Some bcrypt_gen_random)) (\<lambda>nonce. returnM (nonce_result nonce))"

definition test_generate_read_fixture_head_nonce ::
  "'w native_random option \<Rightarrow> ('w, nonce_generation_result) cpp"
where
  "test_generate_read_fixture_head_nonce call =
     bindM (generate_once call) (\<lambda>nonce. returnM (nonce_result nonce))"

section \<open>Contract of the generator and results\<close>

text \<open>What the documentation of \<^verbatim>\<open>BCryptGenRandom\<close> promises and the code relies on: it stays inside the
  buffer it was given.\<close>

definition fills_in_place :: "'w native_random \<Rightarrow> bool" where
  "fills_in_place gen \<longleftrightarrow>
     (\<forall>h buf n flags w. unat n \<le> length buf \<longrightarrow>
        (case gen h buf n flags w of
           (Inr (status, buf'), w') \<Rightarrow> length buf' = length buf
         | (Inl e, w') \<Rightarrow> e \<noteq> Undefined))"

lemma generate_value:
  "test_generate_read_fixture_head_nonce (Some gen) = generate_read_fixture_head_nonce gen"
  by (simp add: test_generate_read_fixture_head_nonce_def generate_read_fixture_head_nonce_def)

lemma generate_run:
  "generate_read_fixture_head_nonce gen w =
    (case gen null_handle (replicate 16 0) 16 BCRYPT_USE_SYSTEM_PREFERRED_RNG w of
       (Inr (status, bs), w') \<Rightarrow> (Inr (nonce_result (if bcrypt_success status then Some bs else None)), w')
     | (Inl e, w') \<Rightarrow> (if e = Undefined then (Inl Undefined, w') else (Inr (nonce_result None), w')))"
  by (auto simp: generate_read_fixture_head_nonce_def generate_once_def bindM_def catchM_def returnM_def
      split: prod.splits sum.splits)

text \<open>\<^bold>\<open>C26.\<close> Nonce generation never throws and makes exactly one call of the system generator, on a zeroed
  16-byte buffer; it yields a nonce exactly when that call returned a success status, the nonce is
  then the 16 bytes the generator produced, and the failure step is empty exactly in that case.\<close>

theorem nonce_generation_correct:
  assumes "fills_in_place gen"
  shows "\<exists>r w'. generate_read_fixture_head_nonce gen w = (Inr r, w') \<and>
    w' = snd (gen null_handle (replicate 16 0) 16 BCRYPT_USE_SYSTEM_PREFERRED_RNG w) \<and>
    (\<forall>n. n_nonce r = Some n \<longleftrightarrow> (\<exists>status. 0 \<le> status \<and>
       fst (gen null_handle (replicate 16 0) 16 BCRYPT_USE_SYSTEM_PREFERRED_RNG w) = Inr (status, n))) \<and>
    (nonce_ok r \<longleftrightarrow> n_nonce r \<noteq> None) \<and> (failure_step r = '''' \<longleftrightarrow> nonce_ok r) \<and>
    pred_option is_nonce (n_nonce r)"
proof -
  obtain r w' where g: "gen null_handle (replicate 16 0) 16 BCRYPT_USE_SYSTEM_PREFERRED_RNG w = (r, w')"
    by (cases "gen null_handle (replicate 16 0) 16 BCRYPT_USE_SYSTEM_PREFERRED_RNG w")
  have "case gen null_handle (replicate 16 0) 16 BCRYPT_USE_SYSTEM_PREFERRED_RNG w of
      (Inr (status, buf'), w') \<Rightarrow> length buf' = length (replicate 16 (0 :: u8)) | (Inl e, w') \<Rightarrow> e \<noteq> Undefined"
    by (rule assms [unfolded fills_in_place_def, rule_format]) simp
  with g show ?thesis
    by (intro exI [of _ "nonce_result (case r of Inr (status, bs) \<Rightarrow> if bcrypt_success status then Some bs else None
          | Inl e \<Rightarrow> None)"] exI [of _ w'], cases r)
      (auto simp: generate_run nonce_result_def nonce_ok_def failure_step_def bcrypt_success_def is_nonce_def
        split: if_splits)
qed

text \<open>A generator that counts its calls and writes a constant pattern.\<close>

definition counting_random :: "nat native_random" where
  "counting_random h buf n flags = (\<lambda>calls. (Inr (0, replicate (length buf) 0xAB), Suc calls))"

theorem nonce_generation_correct_witness:
  "\<exists>r. generate_read_fixture_head_nonce counting_random 0 = (Inr r, 1) \<and> n_nonce r = Some (replicate 16 0xAB)"
proof -
  have c: "fills_in_place counting_random" by (simp add: fills_in_place_def counting_random_def)
  obtain r w' where r: "generate_read_fixture_head_nonce counting_random 0 = (Inr r, w')"
      "w' = snd (counting_random null_handle (replicate 16 0) 16 BCRYPT_USE_SYSTEM_PREFERRED_RNG 0)"
      "\<forall>n. n_nonce r = Some n \<longleftrightarrow> (\<exists>status. 0 \<le> status \<and>
         fst (counting_random null_handle (replicate 16 0) 16 BCRYPT_USE_SYSTEM_PREFERRED_RNG 0) = Inr (status, n))"
    using nonce_generation_correct [OF c, of 0] by blast
  then show ?thesis by (auto simp: counting_random_def)
qed

end
