(* ===== verification/Windows_Types.thy ===== *)
theory Windows_Types
  imports Snapshot
begin

text \<open>
  The data and pure helpers of the Windows adapter (\<^verbatim>\<open>windows_snapshot.hpp\<close> and the first part of
  \<^verbatim>\<open>windows_snapshot.cpp\<close>): open specifications, metadata, the classification of native failures,
  identity checks, component names and the conversions between UTF-16 and UTF-8.

  The constants of the Windows SDK have their documented values.  The two conversion calls of the
  system are the parameter \<open>tc\<close> of the definitions that use them.
\<close>

unbundle bit_operations_syntax

section \<open>Constants of the SDK\<close>

definition FILE_READ_DATA :: u32 where "FILE_READ_DATA = 0x1"
definition FILE_LIST_DIRECTORY :: u32 where "FILE_LIST_DIRECTORY = 0x1"
definition FILE_READ_ATTRIBUTES :: u32 where "FILE_READ_ATTRIBUTES = 0x80"
definition READ_CONTROL :: u32 where "READ_CONTROL = 0x20000"
definition SYNCHRONIZE :: u32 where "SYNCHRONIZE = 0x100000"
definition FILE_SHARE_READ :: u32 where "FILE_SHARE_READ = 0x1"
definition FILE_SHARE_WRITE :: u32 where "FILE_SHARE_WRITE = 0x2"
definition FILE_SHARE_DELETE :: u32 where "FILE_SHARE_DELETE = 0x4"
definition OPEN_EXISTING :: u32 where "OPEN_EXISTING = 3"
definition FILE_OPEN :: u32 where "FILE_OPEN = 1"
definition FILE_DIRECTORY_FILE :: u32 where "FILE_DIRECTORY_FILE = 0x1"
definition FILE_NON_DIRECTORY_FILE :: u32 where "FILE_NON_DIRECTORY_FILE = 0x40"
definition FILE_SYNCHRONOUS_IO_NONALERT :: u32 where "FILE_SYNCHRONOUS_IO_NONALERT = 0x20"
definition FILE_OPEN_FOR_BACKUP_INTENT :: u32 where "FILE_OPEN_FOR_BACKUP_INTENT = 0x4000"
definition FILE_OPEN_REPARSE_POINT :: u32 where "FILE_OPEN_REPARSE_POINT = 0x200000"
definition FILE_FLAG_BACKUP_SEMANTICS :: u32 where "FILE_FLAG_BACKUP_SEMANTICS = 0x2000000"
definition FILE_FLAG_OPEN_REPARSE_POINT :: u32 where "FILE_FLAG_OPEN_REPARSE_POINT = 0x200000"
definition OBJ_CASE_INSENSITIVE :: u32 where "OBJ_CASE_INSENSITIVE = 0x40"
definition OBJ_DONT_REPARSE :: u32 where "OBJ_DONT_REPARSE = 0x1000"
definition FILE_ATTRIBUTE_DIRECTORY :: u32 where "FILE_ATTRIBUTE_DIRECTORY = 0x10"
definition FILE_ATTRIBUTE_DEVICE :: u32 where "FILE_ATTRIBUTE_DEVICE = 0x40"
definition FILE_ATTRIBUTE_REPARSE_POINT :: u32 where "FILE_ATTRIBUTE_REPARSE_POINT = 0x400"
definition ERROR_SUCCESS :: u32 where "ERROR_SUCCESS = 0"
definition ERROR_FILE_NOT_FOUND :: u32 where "ERROR_FILE_NOT_FOUND = 2"
definition ERROR_NO_MORE_FILES :: u32 where "ERROR_NO_MORE_FILES = 18"
definition ERROR_SHARING_VIOLATION :: u32 where "ERROR_SHARING_VIOLATION = 32"
definition ERROR_INSUFFICIENT_BUFFER :: u32 where "ERROR_INSUFFICIENT_BUFFER = 122"
definition ERROR_MORE_DATA :: u32 where "ERROR_MORE_DATA = 234"
definition ERROR_MR_MID_NOT_FOUND :: u32 where "ERROR_MR_MID_NOT_FOUND = 317"
definition SE_DACL_PROTECTED :: u16 where "SE_DACL_PROTECTED = 0x1000"

section \<open>Data\<close>

record open_spec =
  os_access :: u32
  os_share :: u32
  os_disposition :: u32
  os_options :: u32
  os_object_attributes :: u32

record root_open_spec =
  rs_access :: u32
  rs_share :: u32
  rs_disposition :: u32
  rs_flags :: u32

record metadata =
  m_volume_guid_path :: wstring
  m_final_path :: wstring
  m_sddl :: wstring
  m_volume_serial :: u64
  m_file_id :: bytes
  m_attributes :: u32
  m_reparse_tag :: u32
  m_directory :: bool
  m_dacl_protected :: bool

record expected_node =
  x_component :: wstring
  x_identity :: metadata

record snapshot_config =
  sc_volume_root_path :: wstring
  sc_root_identity :: metadata
  sc_ancestors :: "expected_node list"
  sc_state_directory :: expected_node
  sc_child_sddl :: "(string, wstring) std_map"

record native_entry =
  ne_name :: string
  ne_file_id :: bytes
  ne_attributes :: u32
  ne_reparse_tag :: u32

record directory_page =
  dp_end :: bool
  dp_entries :: "native_entry list"

record identity_observation =
  io_object :: string
  io_profile :: string
  io_step :: string
  io_parent_id :: string
  io_observed :: metadata

record inventory_observation =
  iv_phase :: string
  iv_entries :: "native_entry list"
  iv_pages :: nat
  iv_explicit_end :: bool

record snapshot_audit =
  au_system_backend :: bool
  au_identities :: "identity_observation list"
  au_inventories :: "inventory_observation list"

definition max_child_bytes :: nat where "max_child_bytes = 1048576"
definition max_pages :: nat where "max_pages = 16"
definition max_entries :: nat where "max_entries = 32"
definition directory_buffer_bytes :: nat where "directory_buffer_bytes = 65536"
definition status_sharing_violation :: int where "status_sharing_violation = - 1073741757"

section \<open>Open specifications\<close>

definition root_identity_spec :: root_open_spec where
  "root_identity_spec = \<lparr>rs_access = FILE_READ_ATTRIBUTES OR READ_CONTROL, rs_share = FILE_SHARE_READ OR FILE_SHARE_WRITE,
     rs_disposition = OPEN_EXISTING, rs_flags = FILE_FLAG_BACKUP_SEMANTICS OR FILE_FLAG_OPEN_REPARSE_POINT\<rparr>"

definition ancestor_identity_spec :: open_spec where
  "ancestor_identity_spec = \<lparr>os_access = FILE_READ_ATTRIBUTES OR READ_CONTROL OR SYNCHRONIZE,
     os_share = FILE_SHARE_READ OR FILE_SHARE_WRITE, os_disposition = FILE_OPEN,
     os_options = FILE_DIRECTORY_FILE OR FILE_OPEN_REPARSE_POINT OR FILE_OPEN_FOR_BACKUP_INTENT OR FILE_SYNCHRONOUS_IO_NONALERT,
     os_object_attributes = OBJ_CASE_INSENSITIVE OR OBJ_DONT_REPARSE\<rparr>"

definition snapshot_directory_spec :: open_spec where
  "snapshot_directory_spec = \<lparr>os_access = FILE_LIST_DIRECTORY OR FILE_READ_ATTRIBUTES OR READ_CONTROL OR SYNCHRONIZE,
     os_share = FILE_SHARE_READ, os_disposition = FILE_OPEN,
     os_options = FILE_DIRECTORY_FILE OR FILE_OPEN_REPARSE_POINT OR FILE_OPEN_FOR_BACKUP_INTENT OR FILE_SYNCHRONOUS_IO_NONALERT,
     os_object_attributes = OBJ_CASE_INSENSITIVE OR OBJ_DONT_REPARSE\<rparr>"

definition snapshot_child_spec :: open_spec where
  "snapshot_child_spec = \<lparr>os_access = FILE_READ_DATA OR FILE_READ_ATTRIBUTES OR READ_CONTROL OR SYNCHRONIZE,
     os_share = FILE_SHARE_READ, os_disposition = FILE_OPEN,
     os_options = FILE_NON_DIRECTORY_FILE OR FILE_OPEN_REPARSE_POINT OR FILE_SYNCHRONOUS_IO_NONALERT,
     os_object_attributes = OBJ_CASE_INSENSITIVE OR OBJ_DONT_REPARSE\<rparr>"

section \<open>Text conversions\<close>

text \<open>The conversion calls: with no buffer they return the needed count, with a buffer of that many
  units they return the count written and the units written.\<close>

record text_calls =
  tc_wide_count :: "wstring \<Rightarrow> int"
  tc_wide_to_utf8 :: "wstring \<Rightarrow> int \<Rightarrow> int \<times> string"
  tc_utf8_count :: "string \<Rightarrow> int"
  tc_utf8_to_wide :: "string \<Rightarrow> int \<Rightarrow> int \<times> wstring"

definition int_max :: nat where "int_max = 2147483647"

text \<open>The buffer has \<open>count\<close> units, all zero before the call; the call is given that capacity and, as
  documented, writes no unit past it.\<close>

definition converted :: "'a \<Rightarrow> int \<Rightarrow> 'a list \<Rightarrow> 'a list" where
  "converted zero count written = take (nat count) written @ replicate (nat count - length written) zero"

lemma length_converted [simp]: "length (converted zero count written) = nat count"
  by (simp add: converted_def)

lemma converted_all [simp]: "nat count = length written \<Longrightarrow> converted zero count written = written"
  by (simp add: converted_def)

definition utf8 :: "text_calls \<Rightarrow> wstring \<Rightarrow> exn + string" where
  "utf8 tc wide =
     (if wide = [] then Inr []
      else bindE (guardE (\<not> int_max < length wide) (Std Length_error ''UTF-16 name too long'')) (\<lambda>_.
        let count = tc_wide_count tc wide in
        bindE (guardE (\<not> count \<le> 0) (Std Runtime_error ''invalid UTF-16 from Windows'')) (\<lambda>_.
        case tc_wide_to_utf8 tc wide count of (n, written) \<Rightarrow>
        let out = converted (CHR 0x00) count written in
        bindE (guardE (\<not> n \<noteq> count) (Std Runtime_error ''UTF-16 conversion changed'')) (\<lambda>_.
        Inr out))))"

definition wide_char :: "char \<Rightarrow> u16" where
  "wide_char c = of_char c"

definition wide :: "string \<Rightarrow> wstring" where
  "wide s = map wide_char s"

definition component_char :: "u16 \<Rightarrow> bool" where
  "component_char c \<longleftrightarrow> (wide_char (CHR ''a'') \<le> c \<and> c \<le> wide_char (CHR ''z'')) \<or>
     (wide_char (CHR ''A'') \<le> c \<and> c \<le> wide_char (CHR ''Z'')) \<or>
     (wide_char (CHR ''0'') \<le> c \<and> c \<le> wide_char (CHR ''9'')) \<or>
     c = wide_char (CHR ''_'') \<or> c = wide_char (CHR ''-'') \<or> c = wide_char (CHR ''.'')"

definition valid_component :: "wstring \<Rightarrow> bool" where
  "valid_component component \<longleftrightarrow>
     (if component = [] \<or> 255 < length component \<or> component = wide ''.'' \<or> component = wide ''..'' \<or>
         last component = wide_char (CHR ''.'') \<or> last component = wide_char (CHR '' '') then False
      else list_all component_char component)"

definition wide_component :: "text_calls \<Rightarrow> string \<Rightarrow> exn + wstring" where
  "wide_component tc name =
     bindE (guardE (\<not> (name = [] \<or> 255 < length name)) (Std Invalid_argument ''invalid child length'')) (\<lambda>_.
     let count = tc_utf8_count tc name in
     bindE (guardE (\<not> count \<le> 0) (Std Invalid_argument ''invalid child UTF-8'')) (\<lambda>_.
     case tc_utf8_to_wide tc name count of (n, written) \<Rightarrow>
     let out = converted 0 count written in
     bindE (guardE (\<not> (n \<noteq> count \<or> \<not> valid_component out)) (Std Invalid_argument ''invalid child component'')) (\<lambda>_.
     Inr out)))"

section \<open>Identities\<close>

definition nonzero_id :: "bytes \<Rightarrow> bool" where
  "nonzero_id fid \<longleftrightarrow> list_ex (\<lambda>b. b \<noteq> 0) fid"

definition file_id_hex :: "bytes \<Rightarrow> string" where
  "file_id_hex fid = hex_bytes fid"

definition identity_key :: "text_calls \<Rightarrow> metadata \<Rightarrow> exn + string" where
  "identity_key tc m =
     bindE (utf8 tc (m_final_path m)) (\<lambda>path.
     Inr (to_decimal (unat (m_volume_serial m)) @ '':'' @ file_id_hex (m_file_id m) @ '':'' @ path))"

definition same_identity :: "metadata \<Rightarrow> metadata \<Rightarrow> bool" where
  "same_identity a b \<longleftrightarrow> m_volume_guid_path a = m_volume_guid_path b \<and> m_final_path a = m_final_path b \<and>
     m_sddl a = m_sddl b \<and> m_volume_serial a = m_volume_serial b \<and> m_file_id a = m_file_id b \<and>
     m_directory a = m_directory b \<and> m_dacl_protected a = m_dacl_protected b \<and>
     (m_attributes a AND FILE_ATTRIBUTE_REPARSE_POINT) = (m_attributes b AND FILE_ATTRIBUTE_REPARSE_POINT) \<and>
     m_reparse_tag a = m_reparse_tag b"

definition require_identity :: "metadata \<Rightarrow> metadata \<Rightarrow> string \<Rightarrow> string \<Rightarrow> string \<Rightarrow> exn + unit" where
  "require_identity actual expected ob profile step =
     guardE (\<not> (\<not> same_identity actual expected \<or> m_final_path actual = [] \<or> m_volume_guid_path actual = [] \<or>
         m_sddl actual = [] \<or> \<not> nonzero_id (m_file_id actual) \<or>
         (m_attributes actual AND FILE_ATTRIBUTE_REPARSE_POINT) \<noteq> 0 \<or> m_reparse_tag actual \<noteq> 0))
       (observe Err_identity_drift ob profile step ''held identity, descriptor or reparse state differs'')"

definition wide_backslash :: u16 where
  "wide_backslash = 0x5C"

definition child_final_path :: "wstring \<Rightarrow> wstring \<Rightarrow> wstring" where
  "child_final_path parent component =
     parent @ (if parent = [] \<or> last parent = wide_backslash then [] else [wide_backslash]) @ component"

definition require_child ::
  "metadata \<Rightarrow> metadata \<Rightarrow> wstring \<Rightarrow> wstring \<Rightarrow> string \<Rightarrow> string \<Rightarrow> exn + unit"
where
  "require_child actual parent component expected_sddl ob step =
     guardE (\<not> (m_directory actual \<or>
         (m_attributes actual AND (FILE_ATTRIBUTE_DIRECTORY OR FILE_ATTRIBUTE_DEVICE)) \<noteq> 0 \<or>
         \<not> m_dacl_protected actual \<or> m_sddl actual = [] \<or>
         (m_attributes actual AND FILE_ATTRIBUTE_REPARSE_POINT) \<noteq> 0 \<or> m_reparse_tag actual \<noteq> 0 \<or>
         m_volume_guid_path actual \<noteq> m_volume_guid_path parent \<or> m_volume_serial actual \<noteq> m_volume_serial parent \<or>
         m_final_path actual \<noteq> child_final_path (m_final_path parent) component \<or>
         \<not> nonzero_id (m_file_id actual) \<or> m_sddl actual \<noteq> expected_sddl))
       (observe Err_identity_drift ob child_profile step ''child type, parent binding, descriptor or reparse state differs'')"

section \<open>Native failures\<close>

definition enumeration_end_error :: "u32 \<Rightarrow> bool \<Rightarrow> bool" where
  "enumeration_end_error win32_error restart \<longleftrightarrow>
     win32_error = ERROR_NO_MORE_FILES \<or> (restart \<and> win32_error = ERROR_FILE_NOT_FOUND)"

definition nt_failure ::
  "error_kind \<Rightarrow> string \<Rightarrow> string \<Rightarrow> string \<Rightarrow> int \<Rightarrow> u32 \<Rightarrow> bool \<Rightarrow> observation_failure"
where
  "nt_failure fallback ob profile step status mapped_win32 has_mapped_win32 =
     (let kind = (if status = status_sharing_violation \<or> (has_mapped_win32 \<and> mapped_win32 = ERROR_SHARING_VIOLATION)
                  then Err_sharing_conflict else fallback)
      in observation_failure_full kind ob profile step ''NtCreateFile failed'' status True mapped_win32 has_mapped_win32)"

definition win32_failure :: "error_kind \<Rightarrow> string \<Rightarrow> string \<Rightarrow> string \<Rightarrow> u32 \<Rightarrow> observation_failure" where
  "win32_failure fallback ob profile step error =
     (let kind = (if error = ERROR_SHARING_VIOLATION then Err_sharing_conflict else fallback)
      in observation_failure_full kind ob profile step ''Windows handle operation failed'' 0 False error True)"

end
