(* ===== verification/Dir_Parser.thy ===== *)
theory Dir_Parser
  imports Windows_Types Head_Codec
begin

text \<open>
  The decoder of one page of a directory enumeration
  (\<^verbatim>\<open>parse_file_id_extd_directory_buffer\<close> in \<^verbatim>\<open>windows_snapshot.cpp\<close>): a buffer of
  FILE\_ID\_EXTD\_DIR\_INFO records linked by byte offsets.

  The buffer is a list of bytes; a \<^verbatim>\<open>memcpy\<close> from outside it would be undefined behaviour and is
  the exception \<open>Undefined\<close> of the model.  The loop is driven by fuel, one unit per record; that the
  fuel the function starts with, one more than the size of the buffer, is never exhausted is proved below.
\<close>

section \<open>The record layout\<close>

text \<open>Offsets of the fields the code reads: \<^verbatim>\<open>NextEntryOffset\<close> at 0, \<^verbatim>\<open>FileAttributes\<close> at 56,
  \<^verbatim>\<open>FileNameLength\<close> at 60, \<^verbatim>\<open>ReparsePointTag\<close> at 68, \<^verbatim>\<open>FileId\<close> at 72 and \<^verbatim>\<open>FileName\<close> at 88.\<close>

definition header_size :: nat where "header_size = 88"

record dir_info =
  di_next_entry_offset :: u32
  di_file_attributes :: u32
  di_file_name_length :: u32
  di_reparse_point_tag :: u32
  di_file_id :: bytes

definition load_header :: "bytes \<Rightarrow> nat \<Rightarrow> dir_info option" where
  "load_header bs off = do {
     h \<leftarrow> load bs off header_size;
     next \<leftarrow> get32 h 0;
     attrs \<leftarrow> get32 h 56;
     len \<leftarrow> get32 h 60;
     tag \<leftarrow> get32 h 68;
     fid \<leftarrow> load h 72 16;
     Some \<lparr>di_next_entry_offset = next, di_file_attributes = attrs, di_file_name_length = len,
       di_reparse_point_tag = tag, di_file_id = fid\<rparr> }"

text \<open>The name, copied into 16-bit units.\<close>

fun units :: "bytes \<Rightarrow> wstring" where
  "units (a # b # bs) = (ucast a OR push_bit 8 (ucast b)) # units bs"
| "units bs = []"

definition load_name :: "bytes \<Rightarrow> nat \<Rightarrow> nat \<Rightarrow> wstring option" where
  "load_name bs off n = do { raw \<leftarrow> load bs off n; Some (units raw) }"

section \<open>The decoder\<close>

definition or_undefined :: "'a option \<Rightarrow> exn + 'a" where
  "or_undefined r = (case r of Some x \<Rightarrow> Inr x | None \<Rightarrow> Inl Undefined)"

definition enum_error :: "string \<Rightarrow> string \<Rightarrow> exn" where
  "enum_error step msg = observe Err_incomplete ''state/'' directory_profile step msg"

definition convert_name :: "text_calls \<Rightarrow> wstring \<Rightarrow> exn + string" where
  "convert_name tc w = (case utf8 tc w of
     Inr s \<Rightarrow> Inr s
   | Inl e \<Rightarrow> (if is_std e then Inl (observe Err_malformed ''state/'' directory_profile ''enumeration-name'' (what e))
              else Inl e))"

text \<open>One iteration of the loop: the entry and its \<^verbatim>\<open>NextEntryOffset\<close>, checked when it is not 0.\<close>

definition parse_entry :: "text_calls \<Rightarrow> bytes \<Rightarrow> nat \<Rightarrow> nat \<Rightarrow> exn + native_entry \<times> nat" where
  "parse_entry tc bs sz off =
     bindE (guardE (\<not> sz - header_size < off)
       (enum_error ''enumeration-buffer'' ''truncated directory header'')) (\<lambda>_.
     bindE (or_undefined (load_header bs off)) (\<lambda>entry.
     let name_bytes = unat (di_file_name_length entry) in
     bindE (guardE (\<not> (name_bytes = 0 \<or> name_bytes mod 2 \<noteq> 0 \<or> sz - off - header_size < name_bytes))
       (enum_error ''enumeration-buffer'' ''truncated directory name'')) (\<lambda>_.
     bindE (or_undefined (load_name bs (off + header_size) name_bytes)) (\<lambda>w.
     bindE (convert_name tc w) (\<lambda>name.
     let result = \<lparr>ne_name = name, ne_file_id = di_file_id entry, ne_attributes = di_file_attributes entry,
                   ne_reparse_tag = di_reparse_point_tag entry\<rparr>;
         next = unat (di_next_entry_offset entry) in
     bindE (guardE (\<not> (ne_attributes result AND FILE_ATTRIBUTE_DEVICE) \<noteq> 0)
       (observe Err_identity_drift (ne_name result) child_profile ''enumeration-type''
          ''device-marked state child is not a regular file'')) (\<lambda>_.
     bindE (guardE (next = 0 \<or> \<not> (next mod 8 \<noteq> 0 \<or> next < header_size + name_bytes \<or> sz - off < next))
       (enum_error ''enumeration-buffer'' ''invalid next entry offset'')) (\<lambda>_.
     Inr (result, next))))))))"

fun parse_entries :: "text_calls \<Rightarrow> nat \<Rightarrow> bytes \<Rightarrow> nat \<Rightarrow> nat \<Rightarrow> native_entry list \<Rightarrow> exn + native_entry list" where
  "parse_entries tc 0 bs sz off entries = Inl Undefined"
| "parse_entries tc (Suc fuel) bs sz off entries =
     bindE (parse_entry tc bs sz off) (\<lambda>(result, next).
     if next = 0 then Inr (entries @ [result])
     else parse_entries tc fuel bs sz (off + next) (entries @ [result]))"

text \<open>\<open>bytes = None\<close> is the null pointer.\<close>

definition parse_file_id_extd_directory_buffer :: "text_calls \<Rightarrow> bytes option \<Rightarrow> nat \<Rightarrow> exn + directory_page" where
  "parse_file_id_extd_directory_buffer tc bytes n =
     bindE (guardE (n \<noteq> 0) (enum_error ''enumeration-page'' ''successful empty page'')) (\<lambda>_.
     bindE (guardE (\<not> (bytes = None \<or> directory_buffer_bytes < n \<or> n < header_size))
       (enum_error ''enumeration-buffer'' ''invalid or truncated directory buffer'')) (\<lambda>_.
     bindE (parse_entries tc (Suc n) (the bytes) n 0 []) (\<lambda>entries.
     bindE (guardE (entries \<noteq> []) (enum_error ''enumeration-page'' ''successful empty page'')) (\<lambda>_.
     Inr \<lparr>dp_end = False, dp_entries = entries\<rparr>))))"

section \<open>No access outside the buffer, and termination\<close>

lemma load_defined: "off + n \<le> length bs \<Longrightarrow> load bs off n = Some (take n (drop off bs))"
  by (simp add: load_def)

lemma load_header_defined:
  assumes "off + header_size \<le> length bs"
  obtains h where "load_header bs off = Some h" "length (di_file_id h) = 16"
proof -
  obtain h where h: "load bs off header_size = Some h" "length h = 88"
    using assms by (simp add: load_def header_size_def)
  obtain a b c d where g: "get32 h 0 = Some a" "get32 h 56 = Some b" "get32 h 60 = Some c" "get32 h 68 = Some d"
    using get32_defined [of 0 h] get32_defined [of 56 h] get32_defined [of 60 h] get32_defined [of 68 h] h(2) by auto
  have f: "load h 72 16 = Some (take 16 (drop 72 h))" using h(2) by (simp add: load_def)
  have "load_header bs off = Some \<lparr>di_next_entry_offset = a, di_file_attributes = b, di_file_name_length = c,
      di_reparse_point_tag = d, di_file_id = take 16 (drop 72 h)\<rparr>"
    unfolding load_header_def h(1) bind.bind_lunit g f ..
  then show thesis by (rule that) (use h(2) in simp)
qed

lemma utf8_raises: "utf8 tc w = Inl e \<Longrightarrow> std_only e"
  by (auto simp: utf8_def raise_iff Let_def split: if_splits prod.splits)

lemma convert_name_raises: "convert_name tc w = Inl e \<Longrightarrow> typed_exn e"
  by (auto simp: convert_name_def dest!: utf8_raises split: sum.splits if_splits)

lemma enum_error_typed [simp]: "typed_exn (enum_error step msg)"
  by (simp add: enum_error_def)

lemma parse_entry_raises:
  assumes "parse_entry tc bs sz off = Inl e" and "length bs = sz" and "header_size \<le> sz"
  shows "typed_exn e"
proof (cases "sz - header_size < off")
  case True
  with assms(1) show ?thesis by (auto simp: parse_entry_def guardE_run bindE_run)
next
  case False
  then have "off + header_size \<le> length bs" using assms by simp
  then obtain h where h: "load_header bs off = Some h" by (rule load_header_defined)
  let ?n = "unat (di_file_name_length h)"
  obtain w where "load_name bs (off + header_size) ?n = Some w \<or> sz - off - header_size < ?n"
    using assms(2,3) False
    by (cases "sz - off - header_size < ?n") (auto simp: load_name_def load_defined)
  with assms(1) h show ?thesis
    unfolding parse_entry_def or_undefined_def
    by (auto simp: raise_iff Let_def convert_name_raises guardE_run bindE_run split: if_splits)
qed

lemma parse_entry_next:
  assumes "parse_entry tc bs sz off = Inr (r, nx)" and "nx \<noteq> 0"
  shows "header_size < nx \<and> off + nx \<le> sz"
  using assms by (auto simp: parse_entry_def run_iff Let_def)

lemma parse_entries_raises:
  assumes "parse_entries tc fuel bs sz off entries = Inl e"
    and "length bs = sz" and "header_size \<le> sz" and "off \<le> sz" and "sz < fuel + off"
  shows "typed_exn e"
  using assms
proof (induction tc fuel bs sz off entries rule: parse_entries.induct)
  case (2 tc fuel bs sz off entries)
  from "2.prems"(1) consider (fails) "parse_entry tc bs sz off = Inl e"
    | (more) r nx where "parse_entry tc bs sz off = Inr (r, nx)" "nx \<noteq> 0"
        "parse_entries tc fuel bs sz (off + nx) (entries @ [r]) = Inl e"
    by (auto simp: raise_iff split: if_splits)
  then show ?case
  proof cases
    case fails
    then show ?thesis using parse_entry_raises "2.prems" by blast
  next
    case (more r nx)
    with parse_entry_next [OF more(1,2)] "2.prems" have "off + nx \<le> sz" "sz < fuel + (off + nx)" by auto
    with "2.IH" [OF more(2,3)] "2.prems" show ?thesis by simp
  qed
qed simp

lemma directory_parser_raises:
  assumes "length bs = n" and "parse_file_id_extd_directory_buffer tc (Some bs) n = Inl e"
  shows "typed_exn e"
  using assms parse_entries_raises [of tc "Suc n" bs n 0 "[]" e]
  by (auto simp: parse_file_id_extd_directory_buffer_def raise_iff run_iff header_size_def
      simp del: parse_entries.simps)

text \<open>\<^bold>\<open>C27.\<close> Memory safety and termination of the directory decoder: on a buffer of the announced size,
  whatever its bytes are, the decoder reads nothing outside it, its loop ends within the fuel, and
  every failure is a typed observation failure with a real error kind.\<close>

theorem directory_parser_safe:
  assumes "length bs = n" and "parse_file_id_extd_directory_buffer tc (Some bs) n = Inl e"
  shows "e \<noteq> Undefined \<and> (\<exists>f. e = Observation f \<and> f_kind f \<noteq> Err_none)"
  using directory_parser_raises [OF assms] by (auto simp: typed_exn_def)

definition ascii_text_calls :: text_calls where
  "ascii_text_calls = \<lparr>tc_wide_count = (\<lambda>w. int (length w)),
     tc_wide_to_utf8 = (\<lambda>w n. (n, map (\<lambda>c. char_of (unat c)) w)),
     tc_utf8_count = (\<lambda>s. int (length s)),
     tc_utf8_to_wide = (\<lambda>s n. (n, wide s))\<rparr>"

theorem directory_parser_safe_witness:
  "\<exists>f. parse_file_id_extd_directory_buffer ascii_text_calls (Some (replicate 88 0)) 88 = Inl (Observation f) \<and>
     f_kind f \<noteq> Err_none"
proof -
  let ?e = "enum_error ''enumeration-buffer'' ''truncated directory name''"
  have "parse_entry ascii_text_calls (replicate 88 0) 88 0 = Inl ?e"
    by (simp add: run_simps header_size_def parse_entry_def load_header_def load_def get32_def or_undefined_def Let_def)
  then have "parse_entries ascii_text_calls (Suc 88) (replicate 88 0) 88 0 [] = Inl ?e"
    by (subst parse_entries.simps(2)) (simp add: run_simps)
  then have e: "parse_file_id_extd_directory_buffer ascii_text_calls (Some (replicate 88 0)) 88 = Inl ?e"
    by (simp add: parse_file_id_extd_directory_buffer_def run_simps directory_buffer_bytes_def header_size_def)
  from directory_parser_safe [OF _ e] e show ?thesis by auto
qed

section \<open>Well-formed pages are decoded exactly\<close>

text \<open>The layout of a page, as the system writes it: \<open>filler\<close> and \<open>ea\<close> are the fields the decoder
  does not use, \<open>pad\<close> is the alignment of the next record.\<close>

record dir_record =
  dr_filler :: bytes
  dr_attributes :: u32
  dr_ea :: bytes
  dr_tag :: u32
  dr_file_id :: bytes
  dr_name :: wstring
  dr_pad :: bytes

definition record_length :: "dir_record \<Rightarrow> nat" where
  "record_length r = 88 + 2 * length (dr_name r) + length (dr_pad r)"

definition record_bytes :: "nat \<Rightarrow> dir_record \<Rightarrow> bytes" where
  "record_bytes nx r = le32 (of_nat nx) @ dr_filler r @ le32 (dr_attributes r) @
     le32 (of_nat (2 * length (dr_name r))) @ dr_ea r @ le32 (dr_tag r) @ dr_file_id r @
     concat (map le16 (dr_name r)) @ dr_pad r"

fun page_bytes :: "dir_record list \<Rightarrow> bytes" where
  "page_bytes [] = []"
| "page_bytes [r] = record_bytes 0 r"
| "page_bytes (r # rs) = record_bytes (record_length r) r @ page_bytes rs"

definition good_record :: "text_calls \<Rightarrow> dir_record \<Rightarrow> bool" where
  "good_record tc r \<longleftrightarrow> length (dr_filler r) = 52 \<and> length (dr_ea r) = 4 \<and> length (dr_file_id r) = 16 \<and>
     dr_name r \<noteq> [] \<and> (dr_attributes r AND FILE_ATTRIBUTE_DEVICE) = 0 \<and> record_length r mod 8 = 0 \<and>
     record_length r \<le> 65536 \<and> (\<exists>s. utf8 tc (dr_name r) = Inr s)"

definition record_entry :: "text_calls \<Rightarrow> dir_record \<Rightarrow> native_entry" where
  "record_entry tc r = \<lparr>ne_name = projr (utf8 tc (dr_name r)), ne_file_id = dr_file_id r,
     ne_attributes = dr_attributes r, ne_reparse_tag = dr_tag r\<rparr>"

lemma units_le16: "units (concat (map le16 w)) = w"
proof (induction w)
  case (Cons c w)
  have "le16 c = [le16 c ! 0, le16 c ! 1]" by (simp add: le16_def)
  with Cons le16_join [of c] show ?case by (metis append_Cons append_Nil concat.simps(2) list.simps(9) units.simps(1))
qed simp

lemma length_concat_le16: "length (concat (map le16 w)) = 2 * length w"
  by (induction w) simp_all

lemma length_record_bytes:
  "good_record tc r \<Longrightarrow> length (record_bytes nx r) = record_length r"
  by (simp add: record_bytes_def record_length_def good_record_def length_concat_le16)

lemma get32_at: "length pre = at \<Longrightarrow> get32 (pre @ le32 v @ post) at = Some v"
  by (simp add: get32_ok)

lemma load_header_record:
  assumes "good_record tc r" and "length pre = off"
  shows "load_header (pre @ record_bytes nx r @ post) off = Some \<lparr>di_next_entry_offset = of_nat nx,
    di_file_attributes = dr_attributes r, di_file_name_length = of_nat (2 * length (dr_name r)),
    di_reparse_point_tag = dr_tag r, di_file_id = dr_file_id r\<rparr>"
proof -
  let ?h = "le32 (of_nat nx) @ dr_filler r @ le32 (dr_attributes r) @ le32 (of_nat (2 * length (dr_name r))) @
     dr_ea r @ le32 (dr_tag r) @ dr_file_id r"
  have len: "length (dr_filler r) = 52" "length (dr_ea r) = 4" "length (dr_file_id r) = 16"
    using assms(1) by (simp_all add: good_record_def)
  have h: "load (pre @ record_bytes nx r @ post) off header_size = Some ?h"
    using assms(2) len by (simp add: load_def header_size_def record_bytes_def)
  have "get32 ?h 0 = Some (of_nat nx)" using get32_at [of "[]"] by simp
  moreover have "get32 ?h 56 = Some (dr_attributes r)"
    using get32_at [of "le32 (of_nat nx) @ dr_filler r" 56 "dr_attributes r"] len by simp
  moreover have "get32 ?h 60 = Some (of_nat (2 * length (dr_name r)))"
    using get32_at [of "le32 (of_nat nx) @ dr_filler r @ le32 (dr_attributes r)" 60] len by simp
  moreover have "get32 ?h 68 = Some (dr_tag r)"
    using get32_at [of "le32 (of_nat nx) @ dr_filler r @ le32 (dr_attributes r) @ le32 (of_nat (2 * length (dr_name r))) @
      dr_ea r" 68] len by simp
  moreover have "load ?h 72 16 = Some (dr_file_id r)" using len by (simp add: load_def)
  ultimately show ?thesis unfolding load_header_def h bind.bind_lunit by simp
qed

lemma load_name_record:
  assumes "good_record tc r" and "length pre = off"
  shows "load_name (pre @ record_bytes nx r @ post) (off + header_size) (2 * length (dr_name r)) = Some (dr_name r)"
proof -
  have "take (2 * length (dr_name r)) (drop (off + header_size) (pre @ record_bytes nx r @ post)) =
      concat (map le16 (dr_name r))"
    using assms by (simp add: good_record_def record_bytes_def header_size_def length_concat_le16)
  then show ?thesis
    using assms length_record_bytes [OF assms(1), of nx]
    by (simp add: load_name_def load_def header_size_def record_length_def units_le16)
qed

lemma parse_entry_record:
  assumes r: "good_record tc r" and off: "length pre = off" and sz: "sz = off + record_length r + length post"
    and nx: "nx = 0 \<or> nx = record_length r"
  shows "parse_entry tc (pre @ record_bytes nx r @ post) sz off = Inr (record_entry tc r, nx)"
proof -
  obtain s where s: "utf8 tc (dr_name r) = Inr s" using r by (auto simp: good_record_def)
  have "2 * length (dr_name r) < 4294967296" "nx < 4294967296"
    using r nx by (auto simp: good_record_def record_length_def)
  then have small: "unat (of_nat (2 * length (dr_name r)) :: u32) = 2 * length (dr_name r)" "unat (of_nat nx :: u32) = nx"
    by (simp_all add: unat_of_nat del: of_nat_mult)
  have name: "dr_name r \<noteq> []" "(dr_attributes r AND FILE_ATTRIBUTE_DEVICE) = 0" "record_length r mod 8 = 0"
    using r by (simp_all add: good_record_def)
  have fits: "\<not> sz - header_size < off" "\<not> sz - off - header_size < 2 * length (dr_name r)" "\<not> sz - off < record_length r"
    "\<not> record_length r < header_size + 2 * length (dr_name r)"
    using sz by (auto simp: header_size_def record_length_def)
  show ?thesis
    unfolding parse_entry_def load_header_record [OF r off] or_undefined_def
    using load_name_record [OF r off, of nx post] name fits nx s
    by (auto simp: run_simps Let_def small convert_name_def record_entry_def simp del: of_nat_mult)
qed

lemma length_page_bytes:
  "list_all (good_record tc) rs \<Longrightarrow> length (page_bytes rs) = sum_list (map record_length rs)"
  by (induction rs rule: page_bytes.induct) (auto simp: length_record_bytes)

lemma parse_entries_page:
  assumes "rs \<noteq> []" and "list_all (good_record tc) rs" and "length rs \<le> fuel"
    and "sz = length pre + length (page_bytes rs) + length post"
  shows "parse_entries tc fuel (pre @ page_bytes rs @ post) sz (length pre) acc = Inr (acc @ map (record_entry tc) rs)"
  using assms
proof (induction rs arbitrary: fuel pre acc rule: page_bytes.induct)
  case (2 r)
  then obtain f where "fuel = Suc f" by (cases fuel) auto
  with 2 parse_entry_record [of tc r pre "length pre" sz post 0] show ?case
    by (simp add: run_simps length_record_bytes)
next
  case (3 r q rs)
  then obtain f where f: "fuel = Suc f" by (cases fuel) auto
  let ?b = "record_bytes (record_length r) r"
  let ?rest = "page_bytes (q # rs) @ post"
  have r: "good_record tc r" "record_length r \<noteq> 0" using 3 by (simp_all add: record_length_def)
  have "parse_entry tc (pre @ ?b @ ?rest) sz (length pre) = Inr (record_entry tc r, record_length r)"
    by (rule parse_entry_record) (use 3 r in \<open>simp_all add: length_record_bytes\<close>)
  moreover have "parse_entries tc f ((pre @ ?b) @ ?rest) sz (length (pre @ ?b)) (acc @ [record_entry tc r]) =
      Inr ((acc @ [record_entry tc r]) @ map (record_entry tc) (q # rs))"
    by (rule "3.IH") (use 3 f in \<open>simp_all\<close>)
  ultimately show ?case using f r by (simp add: run_simps length_record_bytes)
qed simp

lemma directory_parser_page:
  assumes "rs \<noteq> []" and "list_all (good_record tc) rs" and "length (page_bytes rs @ post) \<le> directory_buffer_bytes"
  shows "parse_file_id_extd_directory_buffer tc (Some (page_bytes rs @ post)) (length (page_bytes rs @ post)) =
    Inr \<lparr>dp_end = False, dp_entries = map (record_entry tc) rs\<rparr>"
proof -
  let ?n = "length (page_bytes rs @ post)"
  have "header_size * length rs \<le> sum_list (map record_length rs)"
    by (induction rs) (simp_all add: record_length_def header_size_def)
  with length_page_bytes [OF assms(2)] have "header_size * length rs \<le> ?n" by simp
  moreover have "1 \<le> length rs" using assms(1) by (cases rs) simp_all
  ultimately have len: "header_size \<le> ?n" "length rs \<le> Suc ?n" unfolding header_size_def by linarith+
  moreover have "parse_entries tc (Suc ?n) (page_bytes rs @ post) ?n 0 [] = Inr (map (record_entry tc) rs)"
    using parse_entries_page [of rs tc "Suc ?n" ?n "[]" post "[]"] assms len(2) by simp
  ultimately show ?thesis using assms
    by (auto simp: parse_file_id_extd_directory_buffer_def run_simps header_size_def simp del: parse_entries.simps)
qed

text \<open>\<^bold>\<open>C28.\<close> Directory pages are decoded exactly: a page of well-formed records (aligned, linked by their
  lengths, the last one with the link 0), followed by any unused bytes of the buffer, is decoded to
  exactly one entry per record, in order, with the record's name, file id, attributes and reparse tag.\<close>

theorem directory_parser_roundtrip:
  assumes "rs \<noteq> []" and "list_all (good_record tc) rs" and "length (page_bytes rs @ post) \<le> directory_buffer_bytes"
  shows "parse_file_id_extd_directory_buffer tc (Some (page_bytes rs @ post)) (length (page_bytes rs @ post)) =
    Inr \<lparr>dp_end = False, dp_entries = map (record_entry tc) rs\<rparr>"
  using assms by (rule directory_parser_page)

definition sample_record :: "string \<Rightarrow> nat \<Rightarrow> dir_record" where
  "sample_record name pad = \<lparr>dr_filler = replicate 52 0, dr_attributes = 0x20, dr_ea = replicate 4 0, dr_tag = 0,
     dr_file_id = replicate 15 0 @ [7], dr_name = wide name, dr_pad = replicate pad 0\<rparr>"

theorem directory_parser_roundtrip_witness:
  "parse_file_id_extd_directory_buffer ascii_text_calls
     (Some (page_bytes [sample_record ''case'' 0, sample_record ''lock'' 0] @ [1, 2]))
     (length (page_bytes [sample_record ''case'' 0, sample_record ''lock'' 0] @ [1, 2])) =
   Inr \<lparr>dp_end = False, dp_entries = map (record_entry ascii_text_calls) [sample_record ''case'' 0, sample_record ''lock'' 0]\<rparr>"
proof -
  have "list_all (good_record ascii_text_calls) [sample_record ''case'' 0, sample_record ''lock'' 0]"
    by (simp add: good_record_def sample_record_def wide_def record_length_def FILE_ATTRIBUTE_DEVICE_def utf8_def
        ascii_text_calls_def run_simps int_max_def Let_def)
  moreover have "length (page_bytes [sample_record ''case'' 0, sample_record ''lock'' 0] @ [1, 2]) \<le> directory_buffer_bytes"
    by (simp add: record_bytes_def sample_record_def wide_def directory_buffer_bytes_def)
  ultimately show ?thesis by (intro directory_parser_roundtrip) auto
qed

end
