(* ===== verification/System_Native.thy ===== *)
theory System_Native
  imports Dir_Parser
begin

text \<open>
  The system backend of the Windows adapter (\<^verbatim>\<open>SystemNativeCalls\<close> in \<^verbatim>\<open>windows_snapshot.cpp\<close>) over
  the calls of the operating system, and the interface \<^verbatim>\<open>NativeCalls\<close> it implements.

  The system calls are a parameter, the record \<open>win32\<close>: a call takes the world and returns its result
  and the next world.  A call that reports failure through \<^verbatim>\<open>GetLastError\<close> returns \<open>Inl error\<close>.  A call
  that fills a buffer returns the data it writes there; writing past the end of the buffer is
  undefined behaviour.  No assumption is made on the calls, except the documented ones that the
  theorems name: \<open>fills_within\<close> (a call never writes more than the announced capacity) and
  \<open>serves_file\<close> (the file behind a handle).
\<close>

section \<open>The calls of the operating system\<close>

type_synonym ('w, 'a) sys = "'w \<Rightarrow> 'a \<times> 'w"

definition sysM :: "('w, 'a) sys \<Rightarrow> ('w, 'a) cpp" where
  "sysM c = (\<lambda>w. case c w of (x, w') \<Rightarrow> (Inr x, w'))"

definition or_throw :: "('w, u32 + 'a) sys \<Rightarrow> (u32 \<Rightarrow> exn) \<Rightarrow> ('w, 'a) cpp" where
  "or_throw c f = bindM (sysM c) (\<lambda>r. case r of Inl err \<Rightarrow> throwM (f err) | Inr x \<Rightarrow> returnM x)"

record file_id_info =
  fi_volume_serial :: u64
  fi_file_id :: bytes

record attribute_tag_info =
  ti_attributes :: u32
  ti_reparse_tag :: u32

text \<open>\<^verbatim>\<open>EndOfFile.QuadPart\<close> is a signed 64-bit number.\<close>

record standard_info =
  si_end_of_file :: int
  si_directory :: bool

text \<open>The fields, in order: \<^verbatim>\<open>CreateFileW\<close> (with the last error), \<^verbatim>\<open>NtCreateFile\<close> (status and handle),
  \<^verbatim>\<open>RtlNtStatusToDosError\<close>, three classes of \<^verbatim>\<open>GetFileInformationByHandleEx\<close>,
  \<^verbatim>\<open>GetFinalPathNameByHandleW\<close> without and with a buffer (result, buffer, last error), \<^verbatim>\<open>GetSecurityInfo\<close>,
  \<^verbatim>\<open>GetSecurityDescriptorControl\<close>, \<^verbatim>\<open>ConvertSecurityDescriptorToStringSecurityDescriptorW\<close> (result,
  pointer and text, last error), \<^verbatim>\<open>LocalFree\<close>, the directory class of
  \<^verbatim>\<open>GetFileInformationByHandleEx\<close> (restarted or not), \<^verbatim>\<open>SetFilePointerEx\<close> to the beginning, \<^verbatim>\<open>ReadFile\<close>
  (the count it reports and the data it writes) and \<^verbatim>\<open>CloseHandle\<close>.\<close>

record 'w win32 =
  wn_create_file :: "wstring \<Rightarrow> root_open_spec \<Rightarrow> ('w, handle \<times> u32) sys"
  wn_nt_create_file :: "handle \<Rightarrow> wstring \<Rightarrow> open_spec \<Rightarrow> ('w, int \<times> handle) sys"
  wn_nt_status_to_dos :: "int \<Rightarrow> u32"
  wn_file_id_info :: "handle \<Rightarrow> ('w, u32 + file_id_info) sys"
  wn_attribute_tag_info :: "handle \<Rightarrow> ('w, u32 + attribute_tag_info) sys"
  wn_standard_info :: "handle \<Rightarrow> ('w, u32 + standard_info) sys"
  wn_final_path_size :: "handle \<Rightarrow> ('w, u32 \<times> u32) sys"
  wn_final_path :: "handle \<Rightarrow> u32 \<Rightarrow> ('w, u32 \<times> wstring \<times> u32) sys"
  wn_security_info :: "handle \<Rightarrow> ('w, u32 \<times> u64) sys"
  wn_descriptor_control :: "u64 \<Rightarrow> ('w, u32 + u16) sys"
  wn_descriptor_sddl :: "u64 \<Rightarrow> ('w, bool \<times> (u64 \<times> wstring) option \<times> u32) sys"
  wn_local_free :: "u64 \<Rightarrow> 'w \<Rightarrow> 'w"
  wn_directory_info :: "handle \<Rightarrow> bool \<Rightarrow> u32 \<Rightarrow> ('w, u32 + bytes) sys"
  wn_set_pointer_begin :: "handle \<Rightarrow> ('w, u32 + unit) sys"
  wn_read_file :: "handle \<Rightarrow> u32 \<Rightarrow> ('w, u32 + u32 \<times> string) sys"
  wn_close_handle :: "handle \<Rightarrow> 'w \<Rightarrow> 'w"

text \<open>A buffer of \<open>n\<close> zeros after a call wrote \<open>data\<close> at \<open>at\<close>.\<close>

definition fill :: "'a list \<Rightarrow> nat \<Rightarrow> 'a list \<Rightarrow> exn + 'a list" where
  "fill buf off data =
     (if off + length data \<le> length buf then Inr (take off buf @ data @ drop (off + length data) buf)
      else Inl Undefined)"

section \<open>The interface NativeCalls\<close>

record 'w native_calls =
  nc_open_root :: "wstring \<Rightarrow> root_open_spec \<Rightarrow> ('w, handle) cpp"
  nc_open_relative :: "handle \<Rightarrow> wstring \<Rightarrow> open_spec \<Rightarrow> string \<Rightarrow> string \<Rightarrow> ('w, handle) cpp"
  nc_inspect :: "handle \<Rightarrow> string \<Rightarrow> string \<Rightarrow> string \<Rightarrow> ('w, metadata) cpp"
  nc_next_page :: "handle \<Rightarrow> bool \<Rightarrow> ('w, directory_page) cpp"
  nc_read_all :: "handle \<Rightarrow> nat \<Rightarrow> string \<Rightarrow> ('w, string) cpp"
  nc_close :: "handle \<Rightarrow> 'w \<Rightarrow> 'w"

section \<open>The system backend\<close>

definition open_root :: "'w win32 \<Rightarrow> wstring \<Rightarrow> root_open_spec \<Rightarrow> ('w, handle) cpp" where
  "open_root sys path spec =
     bindM (sysM (wn_create_file sys path spec)) (\<lambda>(handle, last_error).
     bindM (guardM (\<not> handle = invalid_handle_value)
       (Observation (win32_failure Err_native_failure ''volume-root'' general_identity_profile ''open-root'' last_error))) (\<lambda>_.
     returnM handle))"

definition ushrt_max :: nat where "ushrt_max = 65535"

definition open_relative ::
  "'w win32 \<Rightarrow> handle \<Rightarrow> wstring \<Rightarrow> open_spec \<Rightarrow> string \<Rightarrow> string \<Rightarrow> ('w, handle) cpp"
where
  "open_relative sys parent component spec ob profile =
     bindM (guardM (\<not> (\<not> valid_component component \<or> ushrt_max div 2 < length component))
       (observe Err_malformed ob profile ''relative-component'' ''component is not one reviewed name'')) (\<lambda>_.
     bindM (sysM (wn_nt_create_file sys parent component spec)) (\<lambda>(status, handle).
     bindM (guardM (\<not> status < 0)
       (let mapped = wn_nt_status_to_dos sys status
        in Observation (nt_failure Err_native_failure ob profile ''relative-open'' status mapped
             (mapped \<noteq> ERROR_MR_MID_NOT_FOUND)))) (\<lambda>_.
     bindM (guardM (\<not> (handle = null_handle \<or> handle = invalid_handle_value))
       (Observation (observation_failure_full Err_incomplete ob profile ''relative-open''
          ''successful status without a valid handle'' status True 0 False))) (\<lambda>_.
     returnM handle))))"

text \<open>The volume GUID prefix of a final path: \<^verbatim>\<open>path.rfind(prefix, 0)\<close>, then the position of the first
  closing brace after the prefix, which a backslash must follow.\<close>

definition volume_prefix :: wstring where
  "volume_prefix = wide [CHR 0x5C, CHR 0x5C, CHR ''?'', CHR 0x5C] @ wide ''Volume{''"

definition wide_brace :: u16 where "wide_brace = 0x7D"

definition find_from :: "wstring \<Rightarrow> u16 \<Rightarrow> nat \<Rightarrow> nat option" where
  "find_from path c start = find (\<lambda>i. path ! i = c) [start ..< length path]"

definition volume_guid :: "wstring \<Rightarrow> string \<Rightarrow> string \<Rightarrow> string \<Rightarrow> exn + wstring" where
  "volume_guid path ob profile step =
     bindE (guardE (take (length volume_prefix) path = volume_prefix)
       (observe Err_identity_drift ob profile (step @ ''/volume-guid'') ''final path is not a volume GUID path'')) (\<lambda>_.
     case find_from path wide_brace (length volume_prefix) of
       Some close \<Rightarrow>
         (if close + 1 \<ge> length path \<or> path ! (close + 1) \<noteq> wide_backslash
          then Inl (observe Err_identity_drift ob profile (step @ ''/volume-guid'') ''malformed volume GUID path'')
          else Inr (take (close + 2) path))
     | None \<Rightarrow> Inl (observe Err_identity_drift ob profile (step @ ''/volume-guid'') ''malformed volume GUID path''))"

definition read_final_path :: "'w win32 \<Rightarrow> handle \<Rightarrow> string \<Rightarrow> string \<Rightarrow> string \<Rightarrow> ('w, wstring) cpp" where
  "read_final_path sys handle ob profile step =
     bindM (sysM (wn_final_path_size sys handle)) (\<lambda>(needed, size_error).
     bindM (guardM (needed \<noteq> 0)
       (Observation (win32_failure Err_native_failure ob profile (step @ ''/final-path-size'') size_error))) (\<lambda>_.
     bindM (guardM (\<not> 32767 < unat needed)
       (observe Err_incomplete ob profile (step @ ''/final-path-size'') ''final path exceeds reviewed bound'')) (\<lambda>_.
     let capacity = unat needed + 1 in
     bindM (sysM (wn_final_path sys handle (of_nat capacity))) (\<lambda>(written, data, path_error).
     bindM (liftM (fill (replicate capacity 0) 0 data)) (\<lambda>path.
     bindM (guardM (written \<noteq> 0)
       (Observation (win32_failure Err_native_failure ob profile (step @ ''/final-path'') path_error))) (\<lambda>_.
     bindM (guardM (\<not> length path \<le> unat written)
       (observe Err_incomplete ob profile (step @ ''/final-path'') ''final path changed or exceeded buffer'')) (\<lambda>_.
     returnM (take (unat written) path))))))))"

text \<open>The security descriptor as text, and its control bits; both allocations are freed on every path.\<close>

definition read_descriptor :: "'w win32 \<Rightarrow> handle \<Rightarrow> string \<Rightarrow> string \<Rightarrow> string \<Rightarrow> ('w, wstring \<times> u16) cpp" where
  "read_descriptor sys handle ob profile step =
     bindM (sysM (wn_security_info sys handle)) (\<lambda>(security_error, descriptor).
     bindM (guardM (security_error = ERROR_SUCCESS)
       (Observation (win32_failure Err_native_failure ob profile (step @ ''/security'') security_error))) (\<lambda>_.
     bindM (sysM (wn_descriptor_control sys descriptor)) (\<lambda>control.
     bindM (case control of
         Inl err \<Rightarrow> returnM (False, None, err)
       | Inr _ \<Rightarrow> sysM (wn_descriptor_sddl sys descriptor)) (\<lambda>(got_sddl, text, last_error).
     let conversion_error = (if got_sddl then ERROR_SUCCESS else last_error);
         sddl = (case text of Some (_, s) \<Rightarrow> s | None \<Rightarrow> []) in
     bindM (case text of Some (p, _) \<Rightarrow> sysM (\<lambda>w. ((), wn_local_free sys p w)) | None \<Rightarrow> returnM ()) (\<lambda>_.
     bindM (sysM (\<lambda>w. ((), wn_local_free sys descriptor w))) (\<lambda>_.
     bindM (guardM got_sddl
       (Observation (win32_failure Err_native_failure ob profile (step @ ''/sddl'') conversion_error))) (\<lambda>_.
     returnM (sddl, case control of Inl _ \<Rightarrow> 0 | Inr bits \<Rightarrow> bits))))))))"

definition inspect :: "'w win32 \<Rightarrow> handle \<Rightarrow> string \<Rightarrow> string \<Rightarrow> string \<Rightarrow> ('w, metadata) cpp" where
  "inspect sys handle ob profile step =
     bindM (or_throw (wn_file_id_info sys handle)
       (\<lambda>err. Observation (win32_failure Err_native_failure ob profile (step @ ''/FileIdInfo'') err))) (\<lambda>fid.
     bindM (or_throw (wn_attribute_tag_info sys handle)
       (\<lambda>err. Observation (win32_failure Err_native_failure ob profile (step @ ''/FileAttributeTagInfo'') err))) (\<lambda>tag.
     bindM (guardM (\<not> (profile = child_profile \<and> (ti_attributes tag AND FILE_ATTRIBUTE_DEVICE) \<noteq> 0))
       (observe Err_identity_drift ob profile (step @ ''/FileAttributeTagInfo'')
          ''device-marked held child is not a regular file'')) (\<lambda>_.
     bindM (or_throw (wn_standard_info sys handle)
       (\<lambda>err. Observation (win32_failure Err_native_failure ob profile (step @ ''/FileStandardInfo'') err))) (\<lambda>standard.
     bindM (read_final_path sys handle ob profile step) (\<lambda>path.
     bindM (liftM (volume_guid path ob profile step)) (\<lambda>guid_path.
     bindM (read_descriptor sys handle ob profile step) (\<lambda>(sddl, control).
     returnM \<lparr>m_volume_guid_path = guid_path, m_final_path = path, m_sddl = sddl,
       m_volume_serial = fi_volume_serial fid, m_file_id = fi_file_id fid,
       m_attributes = ti_attributes tag, m_reparse_tag = ti_reparse_tag tag,
       m_directory = si_directory standard, m_dacl_protected = ((control AND SE_DACL_PROTECTED) \<noteq> 0)\<rparr>)))))))"

definition next_page :: "'w win32 \<Rightarrow> text_calls \<Rightarrow> handle \<Rightarrow> bool \<Rightarrow> ('w, directory_page) cpp" where
  "next_page sys tc directory restart =
     bindM (sysM (wn_directory_info sys directory restart (of_nat directory_buffer_bytes))) (\<lambda>answer.
     case answer of
       Inl err \<Rightarrow>
         (if enumeration_end_error err restart then returnM \<lparr>dp_end = True, dp_entries = []\<rparr>
          else let kind = (if err = ERROR_MORE_DATA \<or> err = ERROR_INSUFFICIENT_BUFFER
                           then Err_incomplete else Err_native_failure)
               in throwM (Observation (win32_failure kind ''state/'' directory_profile ''enumeration-page'' err)))
     | Inr data \<Rightarrow>
         bindM (liftM (fill (replicate directory_buffer_bytes 0) 0 data)) (\<lambda>buffer.
         liftM (parse_file_id_extd_directory_buffer tc (Some buffer) directory_buffer_bytes)))"

text \<open>
  The loop that fills a string of the expected size by \<^verbatim>\<open>ReadFile\<close> in chunks, as the three readers of
  the sources have it: \<open>bad\<close> tells which counts stop it.  Every other count makes it advance, so it
  ends.
\<close>

function read_chunks ::
  "'w win32 \<Rightarrow> handle \<Rightarrow> nat \<Rightarrow> (u32 \<Rightarrow> exn) \<Rightarrow> (nat \<Rightarrow> nat \<Rightarrow> bool) \<Rightarrow> exn \<Rightarrow> string \<Rightarrow> nat \<Rightarrow> ('w, string) cpp"
where
  "read_chunks sys file chunk failed bad stopped buf done =
     (if done < length buf then
        let requested = min (length buf - done) chunk in
        bindM (or_throw (wn_read_file sys file (of_nat requested)) failed) (\<lambda>(got, data).
        case fill buf done data of
          Inl e \<Rightarrow> throwM e
        | Inr buf' \<Rightarrow>
            (if unat got = 0 \<or> bad (unat got) requested then throwM stopped
             else read_chunks sys file chunk failed bad stopped buf' (done + unat got)))
      else returnM buf)"
  by pat_completeness auto
termination
  by (relation "measure (\<lambda>(sys, file, chunk, failed, bad, stopped, buf, done). length buf - done)")
    (auto simp: fill_def split: if_splits)

declare read_chunks.simps [simp del]

definition read_all :: "'w win32 \<Rightarrow> handle \<Rightarrow> nat \<Rightarrow> string \<Rightarrow> ('w, string) cpp" where
  "read_all sys file max_bytes ob =
     bindM (or_throw (wn_standard_info sys file)
       (\<lambda>err. Observation (win32_failure Err_incomplete ob child_profile ''read-size'' err))) (\<lambda>initial.
     bindM (guardM (\<not> (si_directory initial \<or> si_end_of_file initial < 0 \<or> int max_bytes < si_end_of_file initial))
       (observe Err_incomplete ob child_profile ''read-size'' ''unexpected type or oversized child'')) (\<lambda>_.
     bindM (or_throw (wn_set_pointer_begin sys file)
       (\<lambda>err. Observation (win32_failure Err_incomplete ob child_profile ''read-seek'' err))) (\<lambda>_.
     let expected = nat (si_end_of_file initial) in
     bindM (read_chunks sys file 65536
       (\<lambda>err. Observation (win32_failure Err_incomplete ob child_profile ''read-child'' err))
       (\<lambda>got requested. False) (observe Err_incomplete ob child_profile ''read-child'' ''early EOF'')
       (replicate expected (CHR 0x00)) 0) (\<lambda>result.
     bindM (or_throw (wn_read_file sys file 1)
       (\<lambda>err. Observation (win32_failure Err_incomplete ob child_profile ''read-eof'' err))) (\<lambda>(got, data).
     bindM (liftM (fill [CHR 0x00] 0 data)) (\<lambda>_.
     bindM (guardM (got = 0)
       (observe Err_identity_drift ob child_profile ''read-eof'' ''content grew during read'')) (\<lambda>_.
     bindM (or_throw (wn_standard_info sys file)
       (\<lambda>err. Observation (win32_failure Err_incomplete ob child_profile ''final-read-size'' err))) (\<lambda>final.
     bindM (guardM (\<not> (si_end_of_file final \<noteq> si_end_of_file initial \<or> si_directory final))
       (observe Err_identity_drift ob child_profile ''final-read-size'' ''content size drift'')) (\<lambda>_.
     returnM result)))))))))"

definition close_handle :: "'w win32 \<Rightarrow> handle \<Rightarrow> 'w \<Rightarrow> 'w" where
  "close_handle sys handle w =
     (if handle \<noteq> null_handle \<and> handle \<noteq> invalid_handle_value then wn_close_handle sys handle w else w)"

definition system_native_calls :: "'w win32 \<Rightarrow> text_calls \<Rightarrow> 'w native_calls" where
  "system_native_calls sys tc = \<lparr>nc_open_root = open_root sys, nc_open_relative = open_relative sys,
     nc_inspect = inspect sys, nc_next_page = next_page sys tc, nc_read_all = read_all sys, nc_close = close_handle sys\<rparr>"

lemma read_chunks_step:
  "pos < length buf \<Longrightarrow> read_chunks sys h chunk failed bad stopped buf pos =
     bindM (or_throw (wn_read_file sys h (of_nat (min (length buf - pos) chunk))) failed) (\<lambda>(got, data).
        case fill buf pos data of
          Inl e \<Rightarrow> throwM e
        | Inr buf' \<Rightarrow>
            (if unat got = 0 \<or> bad (unat got) (min (length buf - pos) chunk) then throwM stopped
             else read_chunks sys h chunk failed bad stopped buf' (pos + unat got)))"
  by (subst read_chunks.simps) (simp add: Let_def)

lemma read_chunks_full: "\<not> pos < length buf \<Longrightarrow> read_chunks sys h chunk failed bad stopped buf pos = returnM buf"
  by (subst read_chunks.simps) simp

section \<open>Rules for system calls\<close>

lemma sysM_run [run_simps]: "c w = (x, w') \<Longrightarrow> sysM c w = (Inr x, w')"
  by (simp add: sysM_def)

lemma sysM_ok [run_iff]: "sysM c w = (Inr x, w') \<longleftrightarrow> c w = (x, w')"
  by (auto simp: sysM_def split: prod.splits)

lemma sysM_fails [raise_iff]: "sysM c w = (Inl e, w') \<longleftrightarrow> False"
  by (auto simp: sysM_def split: prod.splits)

lemma raises_only_sysM [raises_intros]: "raises_only P (sysM c)"
  by (simp add: raises_only_def raise_iff)

lemma or_throw_run [run_simps]:
  "c w = (Inr x, w') \<Longrightarrow> or_throw c f w = (Inr x, w')"
  "c w = (Inl err, w') \<Longrightarrow> or_throw c f w = (Inl (f err), w')"
  by (simp_all add: or_throw_def run_simps sysM_run [THEN bindM_run(1)])

lemma or_throw_ok [run_iff]: "or_throw c f w = (Inr x, w') \<longleftrightarrow> c w = (Inr x, w')"
  by (auto simp: or_throw_def bindM_def sysM_def returnM_def throwM_def split: prod.splits sum.splits)

lemma raises_only_or_throw [raises_intros]: "(\<And>err. P (f err)) \<Longrightarrow> raises_only P (or_throw c f)"
  unfolding or_throw_def by (auto intro!: raises_intros split: sum.splits)

lemma fill_ok [run_iff]:
  "fill buf off data = Inr buf' \<longleftrightarrow>
     off + length data \<le> length buf \<and> buf' = take off buf @ data @ drop (off + length data) buf"
  by (auto simp: fill_def)

lemma fill_fails [raise_iff]: "fill buf off data = Inl e \<longleftrightarrow> length buf < off + length data \<and> e = Undefined"
  by (auto simp: fill_def)

lemma typed_full [simp]: "typed_exn (Observation (observation_failure_full k ob pr st msg nt hn err he)) \<longleftrightarrow> k \<noteq> Err_none"
  by (simp add: typed_exn_def observation_failure_full_def)

lemma win32_failure_typed [simp]: "k \<noteq> Err_none \<Longrightarrow> typed_exn (Observation (win32_failure k ob pr st err))"
  by (simp add: win32_failure_def typed_exn_def observation_failure_full_def)

lemma nt_failure_typed [simp]: "k \<noteq> Err_none \<Longrightarrow> typed_exn (Observation (nt_failure k ob pr st status m h))"
  by (simp add: nt_failure_def typed_exn_def observation_failure_full_def Let_def)

section \<open>Safety of the backend\<close>

text \<open>The documented behaviour of the calls that fill a buffer: never more than its capacity.\<close>

definition fills_within :: "'w win32 \<Rightarrow> bool" where
  "fills_within sys \<longleftrightarrow>
     (\<forall>h n w got data w'. wn_read_file sys h n w = (Inr (got, data), w') \<longrightarrow> length data \<le> unat n) \<and>
     (\<forall>h n w written data err w'. wn_final_path sys h n w = ((written, data, err), w') \<longrightarrow> length data \<le> unat n) \<and>
     (\<forall>h restart n w data w'. wn_directory_info sys h restart n w = (Inr data, w') \<longrightarrow> length data \<le> unat n)"

lemma fills_withinD:
  assumes "fills_within sys"
  shows "wn_read_file sys h n w = (Inr (got, data), w') \<Longrightarrow> length data \<le> unat n"
    and "wn_final_path sys h n w = ((written, path, err), w') \<Longrightarrow> length path \<le> unat n"
    and "wn_directory_info sys h restart n w = (Inr page, w') \<Longrightarrow> length page \<le> unat n"
  using assms unfolding fills_within_def by blast+

lemma unat_of_nat_u32: "n < 4294967296 \<Longrightarrow> unat (of_nat n :: u32) = n"
  by (simp add: unat_of_nat)

lemma read_chunks_raises:
  assumes "fills_within sys" and "chunk < 4294967296" and "\<And>err. P (failed err)" and "P stopped"
  shows "raises_only P (read_chunks sys h chunk failed bad stopped buf pos)"
  using assms
proof (induction sys h chunk failed bad stopped buf pos rule: read_chunks.induct)
  case (1 sys h chunk failed bad stopped buf pos)
  let ?r = "min (length buf - pos) chunk"
  show ?case
  proof (cases "pos < length buf")
    case True
    have "unat (of_nat ?r :: u32) = ?r" using "1.prems"(2) by (intro unat_of_nat_u32) simp
    with fills_withinD(1) [OF "1.prems"(1)] True
    have fits: "pos + length data \<le> length buf" if "wn_read_file sys h (of_nat ?r) w = (Inr (got, data), w')" for w got data w'
      using that by fastforce
    from 1 show ?thesis unfolding read_chunks_step [OF True]
      by (auto simp: True raise_iff run_iff split: prod.splits sum.splits dest!: fits
          intro!: raises_intros raises_only_bindM_dep intro: raises_only_or_throw)
  qed (simp add: read_chunks_full raises_intros)
qed

lemma read_eof_fits:
  "fills_within sys \<Longrightarrow> wn_read_file sys h 1 w = (Inr (got, data), w') \<Longrightarrow> length data \<le> 1"
  using fills_withinD(1) [of sys h 1] by force

lemma read_all_raises:
  assumes "fills_within sys"
  shows "raises_only typed_exn (read_all sys file max_bytes ob)"
  unfolding read_all_def Let_def
  by (auto intro!: raises_intros raises_only_bindM_dep raises_only_liftM read_chunks_raises assms
      simp: raise_iff run_iff dest!: read_eof_fits [OF assms] split: prod.splits)

lemma volume_guid_raises: "volume_guid path ob profile step = Inl e \<Longrightarrow> typed_exn e"
  by (auto simp: volume_guid_def raise_iff split: option.splits if_splits)

lemma read_final_path_raises:
  assumes "fills_within sys"
  shows "raises_only typed_exn (read_final_path sys handle ob profile step)"
proof -
  have "unat (of_nat (Suc (unat needed)) :: u32) = Suc (unat needed)" if "unat needed \<le> 32767" for needed :: u32
    using that by (intro unat_of_nat_u32) simp
  with fills_withinD(2) [OF assms] show ?thesis
    unfolding read_final_path_def Let_def
    by (auto intro!: raises_intros raises_only_bindM_dep raises_only_liftM simp: raise_iff run_iff split: prod.splits
        simp del: of_nat_Suc) fastforce
qed

lemma read_descriptor_raises: "raises_only typed_exn (read_descriptor sys handle ob profile step)"
  unfolding read_descriptor_def Let_def
  by (auto intro!: raises_intros split: prod.splits sum.splits option.splits)

lemma inspect_raises:
  assumes "fills_within sys"
  shows "raises_only typed_exn (inspect sys handle ob profile step)"
  unfolding inspect_def
  by (auto intro!: raises_intros raises_only_liftM read_final_path_raises read_descriptor_raises assms
      intro: volume_guid_raises split: prod.splits)

lemma next_page_raises:
  assumes "fills_within sys"
  shows "raises_only typed_exn (next_page sys tc directory restart)"
proof -
  have n: "unat (of_nat directory_buffer_bytes :: u32) = directory_buffer_bytes"
    by (intro unat_of_nat_u32) (simp add: directory_buffer_bytes_def)
  have page: "raises_only typed_exn (bindM (liftM (fill (replicate directory_buffer_bytes 0) 0 data)) (\<lambda>buffer.
      liftM (parse_file_id_extd_directory_buffer tc (Some buffer) directory_buffer_bytes)))"
    if "length data \<le> directory_buffer_bytes" for data :: bytes
    by (rule raises_only_bindM_dep; rule raises_only_liftM)
      (use that in \<open>auto simp: raise_iff run_iff elim!: directory_parser_raises [rotated]\<close>)
  show ?thesis unfolding next_page_def Let_def
    by (rule raises_only_bindM_dep)
      (auto intro!: raises_intros page dest!: fills_withinD(3) [OF assms] simp: n run_iff split: sum.splits)
qed

lemma open_root_raises: "raises_only typed_exn (open_root sys path spec)"
  unfolding open_root_def by (auto intro!: raises_intros split: prod.splits)

lemma open_relative_raises: "raises_only typed_exn (open_relative sys parent component spec ob profile)"
  unfolding open_relative_def
  by (auto intro!: raises_intros simp: Let_def split: prod.splits)

text \<open>Memory safety of the system backend: whatever the system answers, as long as it never writes more
  than the announced capacity into a buffer, no operation of the backend reads or writes outside an
  object, the chunked read loop ends, and every failure is a typed observation failure.\<close>

theorem system_backend_safe:
  assumes "fills_within sys"
  shows "raises_only typed_exn (nc_open_root (system_native_calls sys tc) path rspec) \<and>
    raises_only typed_exn (nc_open_relative (system_native_calls sys tc) parent component spec ob profile) \<and>
    raises_only typed_exn (nc_inspect (system_native_calls sys tc) h ob profile step) \<and>
    raises_only typed_exn (nc_next_page (system_native_calls sys tc) h restart) \<and>
    raises_only typed_exn (nc_read_all (system_native_calls sys tc) h max_bytes ob)"
  using assms
  by (simp add: system_native_calls_def open_root_raises open_relative_raises inspect_raises next_page_raises
      read_all_raises)

section \<open>What a read returns\<close>

text \<open>A returned string fills the buffer exactly.\<close>

lemma read_chunks_length:
  "read_chunks sys h chunk failed bad stopped buf pos w = (Inr s, w') \<Longrightarrow> length s = length buf"
proof (induction sys h chunk failed bad stopped buf pos arbitrary: w rule: read_chunks.induct)
  case (1 sys h chunk failed bad stopped buf pos)
  show ?case
  proof (cases "pos < length buf")
    case True
    from "1.prems" obtain got :: u32 and data w1 where "pos + length data \<le> length buf"
      and go: "\<not> (unat got = 0 \<or> bad (unat got) (min (length buf - pos) chunk))"
      and run: "read_chunks sys h chunk failed bad stopped (take pos buf @ data @ drop (pos + length data) buf)
         (pos + unat got) w1 = (Inr s, w')"
      unfolding read_chunks_step [OF True] by (auto simp: run_iff fill_fails not_less split: sum.splits if_splits)
    then have "fill buf pos data = Inr (take pos buf @ data @ drop (pos + length data) buf)" by (simp add: run_iff)
    from "1.IH" [OF True refl this go run] \<open>pos + length data \<le> length buf\<close> show ?thesis by simp
  qed (use "1.prems" in \<open>simp add: read_chunks_full run_iff\<close>)
qed

text \<open>The file behind a handle, as the documentation of the three calls describes it: \<open>at n w\<close> says
  that in the world \<open>w\<close> the file pointer is at \<open>n\<close>.  A read returns any positive number of the bytes
  that are left, up to the requested count, and 0 only at the end.\<close>

definition serves_file :: "'w win32 \<Rightarrow> handle \<Rightarrow> string \<Rightarrow> (nat \<Rightarrow> 'w \<Rightarrow> bool) \<Rightarrow> bool" where
  "serves_file sys h c at \<longleftrightarrow>
     (\<forall>n w. at n w \<longrightarrow> (\<exists>w'. wn_standard_info sys h w =
        (Inr \<lparr>si_end_of_file = int (length c), si_directory = False\<rparr>, w') \<and> at n w')) \<and>
     (\<forall>n w. at n w \<longrightarrow> (\<exists>w'. wn_set_pointer_begin sys h w = (Inr (), w') \<and> at 0 w')) \<and>
     (\<forall>n r w. at n w \<and> r \<noteq> 0 \<longrightarrow> (\<exists>got w'. wn_read_file sys h r w = (Inr (got, take (unat got) (drop n c)), w') \<and>
        unat got \<le> unat r \<and> unat got \<le> length c - n \<and> (n < length c \<longrightarrow> unat got \<noteq> 0) \<and> at (n + unat got) w'))"

lemma serves_fileD:
  assumes "serves_file sys h c at" and "at n w"
  shows "\<exists>w'. wn_standard_info sys h w = (Inr \<lparr>si_end_of_file = int (length c), si_directory = False\<rparr>, w') \<and> at n w'"
    and "\<exists>w'. wn_set_pointer_begin sys h w = (Inr (), w') \<and> at 0 w'"
    and "r \<noteq> 0 \<Longrightarrow> \<exists>got w'. wn_read_file sys h r w = (Inr (got, take (unat got) (drop n c)), w') \<and>
        unat got \<le> unat r \<and> unat got \<le> length c - n \<and> (n < length c \<longrightarrow> unat got \<noteq> 0) \<and> at (n + unat got) w'"
  using assms unfolding serves_file_def by blast+

lemma read_chunks_serves:
  assumes "serves_file sys h c at" and "0 < chunk" and "chunk < 4294967296" and "\<And>g r. g \<le> r \<Longrightarrow> \<not> bad g r"
    and "at pos w" and "pos \<le> length c" and "length buf = length c" and "take pos buf = take pos c"
  shows "\<exists>w'. read_chunks sys h chunk failed bad stopped buf pos w = (Inr c, w') \<and> at (length c) w'"
  using assms
proof (induction sys h chunk failed bad stopped buf pos arbitrary: w rule: read_chunks.induct)
  case (1 sys h chunk failed bad stopped buf pos)
  let ?r = "min (length buf - pos) chunk"
  show ?case
  proof (cases "pos < length buf")
    case True
    have r: "unat (of_nat ?r :: u32) = ?r" using "1.prems"(3) by (intro unat_of_nat_u32) simp
    with True "1.prems"(2) have "(of_nat ?r :: u32) \<noteq> 0" by (metis min_less_iff_conj not_less_zero unat_0 zero_less_diff nat_neq_iff)
    from serves_fileD(3) [OF "1.prems"(1,5) this] r obtain got w1 where
      got: "wn_read_file sys h (of_nat ?r) w = (Inr (got, take (unat got) (drop pos c)), w1)"
        "unat got \<le> ?r" "unat got \<le> length c - pos" "unat got \<noteq> 0" "at (pos + unat got) w1"
      using True "1.prems"(7) by auto
    let ?data = "take (unat got) (drop pos c)" and ?pos = "pos + unat got"
    let ?buf = "take pos buf @ ?data @ drop (pos + length ?data) buf"
    have f: "fill buf pos ?data = Inr ?buf" using got(3) True "1.prems"(7) by (simp add: run_iff)
    have "take ?pos ?buf = take ?pos c"
      using "1.prems"(7,8) got(3) True by (simp add: take_add)
    moreover have "length ?buf = length c" using "1.prems"(7) got(3) True by simp
    moreover have go: "\<not> (unat got = 0 \<or> bad (unat got) ?r)" using got(2,4) "1.prems"(4) by blast
    ultimately have "\<exists>w'. read_chunks sys h chunk failed bad stopped ?buf ?pos w1 = (Inr c, w') \<and> at (length c) w'"
      using "1.IH" [OF True refl f go "1.prems"(1-4) got(5)] "1.prems"(7) got(3) True by simp
    with go got(1) f show ?thesis unfolding read_chunks_step [OF True]
      by (simp add: run_simps or_throw_run(1) [THEN bindM_run(1)])
  qed (use "1.prems" in \<open>simp add: read_chunks_full run_simps\<close>)
qed

text \<open>The answers that the three bounded reads of the sources get from such a file.\<close>

lemma served_read:
  assumes "serves_file sys h c at" and "at n w" and "0 < chunk" and "chunk < 4294967296" and "\<And>g r. g \<le> r \<Longrightarrow> \<not> bad g r"
  obtains w1 w2 w3 w4 w5 where
    "wn_standard_info sys h w = (Inr \<lparr>si_end_of_file = int (length c), si_directory = False\<rparr>, w1)" "at n w1"
    "wn_set_pointer_begin sys h w1 = (Inr (), w2)"
    "read_chunks sys h chunk failed bad stopped (replicate (length c) (CHR 0x00)) 0 w2 = (Inr c, w3)"
    "wn_read_file sys h 1 w3 = (Inr (0, []), w4)"
    "wn_standard_info sys h w4 = (Inr \<lparr>si_end_of_file = int (length c), si_directory = False\<rparr>, w5)" "at (length c) w5"
proof -
  obtain w1 w2 where w12: "wn_standard_info sys h w = (Inr \<lparr>si_end_of_file = int (length c), si_directory = False\<rparr>, w1)"
      "at n w1" "wn_set_pointer_begin sys h w1 = (Inr (), w2)" "at 0 w2"
    using serves_fileD(1,2) [OF assms(1)] assms(2) by metis
  have "\<exists>w3. read_chunks sys h chunk failed bad stopped (replicate (length c) (CHR 0x00)) 0 w2 = (Inr c, w3) \<and> at (length c) w3"
    by (rule read_chunks_serves [OF assms(1,3,4)]) (use assms(5) w12(4) in auto)
  then obtain w3 where w3: "read_chunks sys h chunk failed bad stopped (replicate (length c) (CHR 0x00)) 0 w2 = (Inr c, w3)"
      "at (length c) w3" by blast
  obtain w4 where w4: "wn_read_file sys h 1 w3 = (Inr (0, []), w4)" "at (length c) w4"
    using serves_fileD(3) [OF assms(1) w3(2), of 1] by (auto simp: unat_eq_zero)
  from serves_fileD(1) [OF assms(1) w4(2)] obtain w5 where
      "wn_standard_info sys h w4 = (Inr \<lparr>si_end_of_file = int (length c), si_directory = False\<rparr>, w5)" "at (length c) w5"
    by blast
  with w12 w3 w4 show thesis by (intro that)
qed

lemma read_all_serves:
  assumes "serves_file sys h c at" and "length c \<le> max_bytes" and "at n w"
  shows "\<exists>w'. read_all sys h max_bytes ob w = (Inr c, w') \<and> at (length c) w'"
  unfolding read_all_def Let_def
  by (rule served_read [OF assms(1,3), of 65536 "\<lambda>got requested. False"
        "\<lambda>err. Observation (win32_failure Err_incomplete ob child_profile ''read-child'' err)"
        "observe Err_incomplete ob child_profile ''read-child'' ''early EOF''"])
    (use assms(2) in \<open>auto simp: run_iff\<close>)

lemma read_all_ok:
  assumes "read_all sys h max_bytes ob w = (Inr s, w')"
  shows "length s \<le> max_bytes"
proof -
  from assms obtain info :: standard_info and w1 w2 failed stopped where "si_end_of_file info \<le> int max_bytes"
    "read_chunks sys h 65536 failed (\<lambda>got requested. False) stopped (replicate (nat (si_end_of_file info)) (CHR 0x00)) 0 w1 = (Inr s, w2)"
    unfolding read_all_def Let_def by (auto simp: run_iff not_less split: prod.splits)
  from this(1) read_chunks_length [OF this(2)] show ?thesis by simp
qed

lemma find_from_SomeD: "find_from path c i = Some k \<Longrightarrow> i \<le> k \<and> k < length path \<and> path ! k = c"
  by (auto simp: find_from_def find_Some_iff)

lemma volume_guid_ok:
  assumes "volume_guid path ob profile step = Inr g"
  shows "\<exists>guid rest. g = volume_prefix @ guid @ [wide_brace, wide_backslash] \<and> path = g @ rest"
proof -
  from assms obtain k where k: "take (length volume_prefix) path = volume_prefix"
      "find_from path wide_brace (length volume_prefix) = Some k" "k + 1 < length path" "path ! (k + 1) = wide_backslash"
      "g = take (k + 2) path"
    by (auto simp: volume_guid_def run_iff split: option.splits if_splits)
  note f = find_from_SomeD [OF k(2)]
  let ?n = "length volume_prefix"
  have "take (k + 2) path = take k path @ [path ! k, path ! (k + 1)]"
    using k(3) by (simp add: take_Suc_conv_app_nth)
  also have "take k path = volume_prefix @ drop ?n (take k path)"
    using f k(1) by (metis append_take_drop_id min.absorb1 take_take)
  finally show ?thesis using f k(4,5) by (metis append.assoc append_take_drop_id)
qed

lemma inspect_ok:
  assumes "inspect sys h ob profile step w = (Inr m, w')"
  shows "\<exists>guid rest. m_volume_guid_path m = volume_prefix @ guid @ [wide_brace, wide_backslash] \<and>
    m_final_path m = m_volume_guid_path m @ rest"
proof -
  from assms have "volume_guid (m_final_path m) ob profile step = Inr (m_volume_guid_path m)"
    unfolding inspect_def by (auto simp: run_iff)
  from volume_guid_ok [OF this] show ?thesis by blast
qed

text \<open>A system with one file of content \<open>c\<close>: the world is the file pointer, and a read returns at most
  three bytes at a time.\<close>

definition sample_win32 :: "string \<Rightarrow> nat win32" where
  "sample_win32 c = \<lparr>wn_create_file = (\<lambda>path spec w. ((16, 0), w)), wn_nt_create_file = (\<lambda>parent name spec w. ((0, 20), w)),
     wn_nt_status_to_dos = (\<lambda>status. 0), wn_file_id_info = (\<lambda>h w. (Inr \<lparr>fi_volume_serial = 9, fi_file_id = replicate 16 1\<rparr>, w)),
     wn_attribute_tag_info = (\<lambda>h w. (Inr \<lparr>ti_attributes = 0x20, ti_reparse_tag = 0\<rparr>, w)),
     wn_standard_info = (\<lambda>h w. (Inr \<lparr>si_end_of_file = int (length c), si_directory = False\<rparr>, w)),
     wn_final_path_size = (\<lambda>h w. ((14, 0), w)),
     wn_final_path = (\<lambda>h n w. ((14, take (unat n) (volume_prefix @ [wide_brace, wide_backslash] @ wide ''f''), 0), w)),
     wn_security_info = (\<lambda>h w. ((0, 1), w)), wn_descriptor_control = (\<lambda>d w. (Inr 0x1000, w)),
     wn_descriptor_sddl = (\<lambda>d w. ((True, Some (2, wide ''D:''), 0), w)), wn_local_free = (\<lambda>p w. w),
     wn_directory_info = (\<lambda>h restart n w. (Inl ERROR_NO_MORE_FILES, w)),
     wn_set_pointer_begin = (\<lambda>h w. (Inr (), 0)),
     wn_read_file = (\<lambda>h n w. let got = min (min 3 (unat n)) (length c - w)
        in (Inr (of_nat got, take got (drop w c)), w + got)),
     wn_close_handle = (\<lambda>h w. w)\<rparr>"

lemma sample_win32_fills: "fills_within (sample_win32 c)"
  by (auto simp: fills_within_def sample_win32_def Let_def)

lemma sample_win32_serves: "serves_file (sample_win32 c) h c (\<lambda>n w. n = w)"
proof -
  have "unat (of_nat (min (min 3 (unat r)) k) :: u32) = min (min 3 (unat r)) k" for r :: u32 and k
    by (intro unat_of_nat_u32) simp
  moreover have "unat r \<noteq> 0" if "r \<noteq> 0" for r :: u32 using that by (simp add: unat_eq_zero)
  ultimately show ?thesis by (auto simp: serves_file_def sample_win32_def Let_def)
qed

theorem system_backend_safe_witness:
  "raises_only typed_exn (nc_read_all (system_native_calls (sample_win32 ''abc'') ascii_text_calls) 20 2 ''case'') \<and>
   fst (nc_read_all (system_native_calls (sample_win32 ''abc'') ascii_text_calls) 20 2 ''case'' 0) =
     Inl (observe Err_incomplete ''case'' child_profile ''read-size'' ''unexpected type or oversized child'')"
proof -
  have "fst (nc_read_all (system_native_calls (sample_win32 ''abc'') ascii_text_calls) 20 2 ''case'' 0) =
     Inl (observe Err_incomplete ''case'' child_profile ''read-size'' ''unexpected type or oversized child'')"
    by (simp add: system_native_calls_def read_all_def sample_win32_def or_throw_def sysM_def bindM_def run_simps)
  with system_backend_safe [OF sample_win32_fills] show ?thesis by blast
qed

text \<open>\<^bold>\<open>C40.\<close> A bounded read of a file returns exactly its content: for a file behind the handle, however the
  system splits the reads and wherever the file pointer is, the read of a file within the bound
  returns all of its bytes and nothing else, and a larger file is refused.\<close>

theorem read_all_exact:
  assumes "serves_file sys h c at" and "at n w"
  shows "if length c \<le> max_bytes then \<exists>w'. read_all sys h max_bytes ob w = (Inr c, w') \<and> at (length c) w'
    else \<exists>w'. read_all sys h max_bytes ob w =
      (Inl (observe Err_incomplete ob child_profile ''read-size'' ''unexpected type or oversized child''), w') \<and> at n w'"
proof (cases "length c \<le> max_bytes")
  case False
  obtain w1 where "wn_standard_info sys h w = (Inr \<lparr>si_end_of_file = int (length c), si_directory = False\<rparr>, w1)" "at n w1"
    using serves_fileD(1) [OF assms] by blast
  then have "read_all sys h max_bytes ob w =
      (Inl (observe Err_incomplete ob child_profile ''read-size'' ''unexpected type or oversized child''), w1)"
    unfolding read_all_def using False by (auto simp: raise_iff run_iff)
  with False \<open>at n w1\<close> show ?thesis by auto
qed (use read_all_serves [OF assms(1) _ assms(2)] in simp)

theorem read_all_exact_witness:
  "fst (read_all (sample_win32 ''a longer text'') 20 max_child_bytes ''case'' 5) = Inr ''a longer text''"
  using read_all_exact [OF sample_win32_serves refl, of "''a longer text''" max_child_bytes 20 "''case''" 5]
  by (auto simp: max_child_bytes_def)

text \<open>The identity that an inspection reports is well formed: the final path starts with the volume GUID
  path, which has the form of a GUID path closed by a brace and a backslash, so the volume part of two
  reported paths can be compared as a prefix.\<close>

theorem inspect_volume_bound:
  assumes "inspect sys h ob profile step w = (Inr m, w')"
  shows "\<exists>guid rest. m_volume_guid_path m = volume_prefix @ guid @ [wide_brace, wide_backslash] \<and>
    m_final_path m = m_volume_guid_path m @ rest"
  using assms by (rule inspect_ok)

theorem inspect_volume_bound_witness:
  "\<exists>m w'. inspect (sample_win32 []) 20 ''x'' child_profile ''s'' 0 = (Inr m, w') \<and>
     (\<exists>guid rest. m_volume_guid_path m = volume_prefix @ guid @ [wide_brace, wide_backslash] \<and>
        m_final_path m = m_volume_guid_path m @ rest)"
proof -
  let ?path = "volume_prefix @ [wide_brace, wide_backslash] @ wide ''f''"
  have path: "read_final_path (sample_win32 []) 20 ''x'' child_profile ''s'' 0 = (Inr ?path, 0)"
    by (simp add: read_final_path_def sample_win32_def sysM_def bindM_def run_simps fill_def volume_prefix_def wide_def)
  have guid: "volume_guid ?path ''x'' child_profile ''s'' = Inr (take 13 ?path)"
    by (simp add: volume_guid_def volume_prefix_def wide_def find_from_def run_simps upt_rec_numeral)
  have descriptor: "read_descriptor (sample_win32 []) 20 ''x'' child_profile ''s'' 0 = (Inr (wide ''D:'', 0x1000), 0)"
    by (simp add: read_descriptor_def sample_win32_def sysM_def bindM_def run_simps ERROR_SUCCESS_def)
  have info: "wn_file_id_info (sample_win32 []) 20 0 = (Inr \<lparr>fi_volume_serial = 9, fi_file_id = replicate 16 1\<rparr>, 0)"
      "wn_attribute_tag_info (sample_win32 []) 20 0 = (Inr \<lparr>ti_attributes = 0x20, ti_reparse_tag = 0\<rparr>, 0)"
      "wn_standard_info (sample_win32 []) 20 0 = (Inr \<lparr>si_end_of_file = 0, si_directory = False\<rparr>, 0)"
    by (simp_all add: sample_win32_def)
  have m: "inspect (sample_win32 []) 20 ''x'' child_profile ''s'' 0 =
      (Inr \<lparr>m_volume_guid_path = take 13 ?path, m_final_path = ?path, m_sddl = wide ''D:'', m_volume_serial = 9,
         m_file_id = replicate 16 1, m_attributes = 0x20, m_reparse_tag = 0, m_directory = False, m_dacl_protected = True\<rparr>, 0)"
    unfolding inspect_def using path guid descriptor info
    by (auto simp: run_iff FILE_ATTRIBUTE_DEVICE_def SE_DACL_PROTECTED_def)
  from inspect_volume_bound [OF m] m show ?thesis by blast
qed

end
