(* ===== verification/Handle_Log.thy ===== *)
theory Handle_Log
  imports Cpp_Prelude
begin

text \<open>
  How the adapter uses handles: triples for computations (with a condition for the return and one for
  an exception), and the log of handle operations with its replay.  A log is replayed on a stack of
  open handles: a handle may be used only while it is open, and only the handle opened last may be
  closed.  The readers and the session are run on logged interfaces, and the replay of the log they
  leave is the statement about their handles.
\<close>

section \<open>Triples\<close>

definition triple :: "('s \<Rightarrow> bool) \<Rightarrow> ('s, 'a) cpp \<Rightarrow> ('a \<Rightarrow> 's \<Rightarrow> bool) \<Rightarrow> ('s \<Rightarrow> bool) \<Rightarrow> bool" where
  "triple P m Q E \<longleftrightarrow> (\<forall>s. P s \<longrightarrow> (case m s of (r, s') \<Rightarrow> (case r of Inr x \<Rightarrow> Q x s' | Inl e \<Rightarrow> E s')))"

named_theorems triple_intros "rules of the triples"

lemma tripleD:
  assumes "triple P m Q E" and "P s"
  shows "m s = (Inr x, s') \<Longrightarrow> Q x s'" and "m s = (Inl e, s') \<Longrightarrow> E s'"
  using assms unfolding triple_def by force+

lemma tripleI:
  "(\<And>s x s'. P s \<Longrightarrow> m s = (Inr x, s') \<Longrightarrow> Q x s') \<Longrightarrow> (\<And>s e s'. P s \<Longrightarrow> m s = (Inl e, s') \<Longrightarrow> E s') \<Longrightarrow>
     triple P m Q E"
  unfolding triple_def by (simp split: prod.splits sum.splits)

lemma triple_returnM [triple_intros]: "(\<And>s. P s \<Longrightarrow> Q x s) \<Longrightarrow> triple P (returnM x) Q E"
  by (simp add: triple_def run_simps)

lemma triple_throwM [triple_intros]: "(\<And>s. P s \<Longrightarrow> E s) \<Longrightarrow> triple P (throwM e) Q E"
  by (simp add: triple_def run_simps)

lemma triple_guardM [triple_intros]:
  "(\<And>s. P s \<Longrightarrow> b \<Longrightarrow> Q () s) \<Longrightarrow> (\<And>s. P s \<Longrightarrow> \<not> b \<Longrightarrow> E s) \<Longrightarrow> triple P (guardM b e) Q E"
  by (simp add: triple_def run_simps)

lemma triple_liftM [triple_intros]:
  "(\<And>s x. P s \<Longrightarrow> r = Inr x \<Longrightarrow> Q x s) \<Longrightarrow> (\<And>s. P s \<Longrightarrow> E s) \<Longrightarrow> triple P (liftM r) Q E"
  by (simp add: triple_def run_simps split: sum.splits)

lemma triple_bindM:
  "triple P m R E \<Longrightarrow> (\<And>x. triple (R x) (f x) Q E) \<Longrightarrow> triple P (bindM m f) Q E"
  by (rule tripleI) (auto simp: run_iff raise_iff dest: tripleD)

lemma triple_mono:
  "triple P m Q E \<Longrightarrow> (\<And>s. P' s \<Longrightarrow> P s) \<Longrightarrow> (\<And>x s. Q x s \<Longrightarrow> Q' x s) \<Longrightarrow> (\<And>s. E s \<Longrightarrow> E' s) \<Longrightarrow> triple P' m Q' E'"
  by (rule tripleI) (blast dest: tripleD)+

lemma triple_catchM:
  "triple P m Q R \<Longrightarrow> (\<And>e. triple R (h e) Q E) \<Longrightarrow> (\<And>s. R s \<Longrightarrow> E s) \<Longrightarrow> triple P (catchM m h) Q E"
  by (rule tripleI) (auto simp: catchM_ok raise_iff dest: tripleD)

lemma triple_if [triple_intros]:
  "(b \<Longrightarrow> triple P m Q E) \<Longrightarrow> (\<not> b \<Longrightarrow> triple P n Q E) \<Longrightarrow> triple P (if b then m else n) Q E"
  by simp

section \<open>Invariants\<close>

text \<open>\<open>preserves I m\<close>: the computation keeps the invariant, whether it returns or throws.\<close>

definition preserves :: "('s \<Rightarrow> bool) \<Rightarrow> ('s, 'a) cpp \<Rightarrow> bool" where
  "preserves I m \<longleftrightarrow> (\<forall>s. I s \<longrightarrow> I (snd (m s)))"

named_theorems preserves_intros "rules for computations that keep an invariant"

lemma preservesD: "preserves I m \<Longrightarrow> m s = (r, s') \<Longrightarrow> I s \<Longrightarrow> I s'"
  unfolding preserves_def by (metis snd_conv)

lemma preservesI: "(\<And>s r s'. I s \<Longrightarrow> m s = (r, s') \<Longrightarrow> I s') \<Longrightarrow> preserves I m"
  unfolding preserves_def by (metis prod.collapse)

lemma preserves_triple: "preserves I m \<longleftrightarrow> triple I m (\<lambda>_. I) I"
  unfolding preserves_def triple_def by (auto split: prod.splits sum.splits) (metis prod.collapse)

lemma preserves_pure [preserves_intros]:
  "preserves I (returnM x)" "preserves I (throwM e)" "preserves I (guardM b e)" "preserves I (liftM r)"
  by (auto intro!: preservesI simp: returnM_def throwM_def guardM_def liftM_def split: if_splits)

lemma preserves_readM [preserves_intros]: "preserves I (readM f)"
  by (rule preservesI) (auto simp: readM_def split: prod.splits)

lemma preserves_bindM [preserves_intros]:
  "preserves I m \<Longrightarrow> (\<And>x. preserves I (f x)) \<Longrightarrow> preserves I (bindM m f)"
  unfolding preserves_triple by (rule triple_bindM)

lemma preserves_bindM_dep:
  "preserves I m \<Longrightarrow> (\<And>x s s'. m s = (Inr x, s') \<Longrightarrow> preserves I (f x)) \<Longrightarrow> preserves I (bindM m f)"
  by (rule preservesI) (auto simp: bindM_def split: prod.splits sum.splits dest: preservesD, metis preservesD)

lemma preserves_catchM [preserves_intros]:
  "preserves I m \<Longrightarrow> (\<And>e. preserves I (h e)) \<Longrightarrow> preserves I (catchM m h)"
  unfolding preserves_triple by (rule triple_catchM)

lemma preserves_catch_std [preserves_intros]:
  "preserves I m \<Longrightarrow> (\<And>s. preserves I (h s)) \<Longrightarrow> preserves I (catch_std m h)"
  unfolding catch_std_def by (auto intro!: preserves_intros simp: if_distrib)

lemma preserves_if [preserves_intros]:
  "(b \<Longrightarrow> preserves I m) \<Longrightarrow> (\<not> b \<Longrightarrow> preserves I n) \<Longrightarrow> preserves I (if b then m else n)"
  by simp

lemma preserves_forM [preserves_intros]:
  "(\<And>x. x \<in> set xs \<Longrightarrow> preserves I (f x)) \<Longrightarrow> preserves I (forM xs f)"
  by (induction xs) (auto intro!: preserves_intros)

text \<open>Invariants of the local object, and of the world around it.\<close>

lemma preserves_outerM_local [preserves_intros]: "preserves (\<lambda>s. I (fst s)) (outerM m)"
  by (rule preservesI) (auto simp: outerM_def split: prod.splits)

lemma preserves_localM [preserves_intros]: "(\<And>l. I l \<Longrightarrow> I (f l)) \<Longrightarrow> preserves (\<lambda>s. I (fst s)) (localM f)"
  by (rule preservesI) (auto simp: localM_def split: prod.splits)

lemma preserves_outerM_world [preserves_intros]: "preserves I m \<Longrightarrow> preserves (\<lambda>s. I (snd s)) (outerM m)"
  by (rule preservesI) (auto simp: outerM_def split: prod.splits dest: preservesD)

lemma preserves_localM_world [preserves_intros]: "preserves (\<lambda>s. I (snd s)) (localM f)"
  by (rule preservesI) (auto simp: localM_def split: prod.splits)

section \<open>The log of handle operations\<close>

datatype handle_event = Opened handle | Used handle | Closed handle

fun replay :: "handle list \<Rightarrow> handle_event list \<Rightarrow> handle list option" where
  "replay st [] = Some st"
| "replay st (Opened h # es) = replay (if valid_handle h then h # st else st) es"
| "replay st (Used h # es) = (if h \<in> set st then replay st es else None)"
| "replay (t # st) (Closed h # es) = (if t = h then replay st es else None)"
| "replay [] (Closed h # es) = None"

lemma replay_append: "replay st (xs @ ys) = (case replay st xs of None \<Rightarrow> None | Some st' \<Rightarrow> replay st' ys)"
  by (induction st xs rule: replay.induct) simp_all

text \<open>\<open>log_holds hs log\<close>: the log is well formed and leaves exactly the handles \<open>hs\<close> open (the one
  opened first in front).\<close>

definition log_holds :: "handle list \<Rightarrow> handle_event list \<Rightarrow> bool" where
  "log_holds hs log \<longleftrightarrow> replay [] log = Some (rev hs)"

lemma log_holds_empty [simp]: "log_holds [] []"
  by (simp add: log_holds_def)

lemma log_holds_opened: "log_holds hs log \<Longrightarrow> valid_handle h \<Longrightarrow> log_holds (hs @ [h]) (log @ [Opened h])"
  by (simp add: log_holds_def replay_append)

lemma log_holds_invalid: "log_holds hs log \<Longrightarrow> \<not> valid_handle h \<Longrightarrow> log_holds hs (log @ [Opened h])"
  by (simp add: log_holds_def replay_append)

lemma log_holds_used: "log_holds hs log \<Longrightarrow> h \<in> set hs \<Longrightarrow> log_holds hs (log @ [Used h])"
  by (simp add: log_holds_def replay_append)

lemma log_holds_closed: "log_holds (hs @ [h]) log \<Longrightarrow> log_holds hs (log @ [Closed h])"
  by (simp add: log_holds_def replay_append)

text \<open>What a well formed log with no open handle means for a single handle value: it was closed as
  often as it was opened.\<close>

definition opened_count :: "handle \<Rightarrow> handle_event list \<Rightarrow> nat" where
  "opened_count h log = length (filter (\<lambda>e. e = Opened h) log)"

definition closed_count :: "handle \<Rightarrow> handle_event list \<Rightarrow> nat" where
  "closed_count h log = length (filter (\<lambda>e. e = Closed h) log)"

lemma replay_count:
  "replay st log = Some st' \<Longrightarrow> valid_handle h \<Longrightarrow>
     count_list st h + opened_count h log = count_list st' h + closed_count h log"
  by (induction st log rule: replay.induct) (auto simp: opened_count_def closed_count_def split: if_splits)

lemma closed_as_opened: "log_holds [] log \<Longrightarrow> valid_handle h \<Longrightarrow> closed_count h log = opened_count h log"
  using replay_count [of "[]" log "[]" h] by (simp add: log_holds_def)

end
