(* ===== verification/Protected_Read.thy ===== *)
theory Protected_Read
  imports System_Native Handle_Log
begin

text \<open>
  The read of a sealed file through a chain of held handles, as \<^verbatim>\<open>WindowsP10Reader\<close> and
  \<^verbatim>\<open>WindowsP11CustodyReader\<close> both have it: \<open>check_node\<close>, the scope \<^verbatim>\<open>HeldHandles\<close>, and the part of
  \<^verbatim>\<open>read_verified_p10\<close> and \<^verbatim>\<open>read_verified_p11\<close> that works on the handles.  The two sources repeat these
  lines with other object names, profiles and messages, which are the fields of the record \<open>read_site\<close>;
  the theories \<open>P10_Reader\<close> and \<open>P11_Custody\<close> instantiate them.

  \<open>room n\<close> tells whether the vector of held handles can grow when it has \<open>n\<close> elements: the sources
  handle an exception of \<^verbatim>\<open>push_back\<close>, so the model has it.
\<close>

section \<open>Interfaces\<close>

text \<open>\<^verbatim>\<open>P10Calls\<close> and \<^verbatim>\<open>P11CustodyCalls\<close> have the same operations.  \<^verbatim>\<open>close\<close> is \<^verbatim>\<open>noexcept\<close>.\<close>

record 'w protected_calls =
  pc_open_root :: "wstring \<Rightarrow> root_open_spec \<Rightarrow> ('w, handle) cpp"
  pc_open_relative :: "handle \<Rightarrow> wstring \<Rightarrow> open_spec \<Rightarrow> string \<Rightarrow> ('w, handle) cpp"
  pc_inspect :: "handle \<Rightarrow> string \<Rightarrow> string \<Rightarrow> ('w, metadata) cpp"
  pc_read_content :: "handle \<Rightarrow> nat \<Rightarrow> ('w, string) cpp"
  pc_close :: "handle \<Rightarrow> 'w \<Rightarrow> 'w"

text \<open>The names, the profile and the messages in which the two readers differ.\<close>

record read_site =
  st_profile :: string
  st_object :: string
  st_folder_object :: string
  st_folder_name :: wstring
  st_file_name :: wstring
  st_file_spec :: open_spec
  st_bytes_differ :: string
  st_digest_differs :: string
  st_content_changed :: string

text \<open>The four sealed identities: volume root, P1, the folder and the file.\<close>

record sealed_chain =
  sl_root :: metadata
  sl_p1 :: metadata
  sl_folder :: metadata
  sl_file :: metadata

definition volume_root :: wstring where
  "volume_root = wide [CHR ''C'', CHR '':'', CHR 0x5C]"

definition p1_name :: wstring where
  "p1_name = wide ''S1PF_260926_A''"

section \<open>Checks\<close>

definition fail :: "string \<Rightarrow> error_kind \<Rightarrow> string \<Rightarrow> string \<Rightarrow> string \<Rightarrow> exn" where
  "fail profile kind ob step detail = observe kind ob profile step detail"

text \<open>\<^verbatim>\<open>child_path\<close> repeats \<^verbatim>\<open>child_final_path\<close>, and \<^verbatim>\<open>nonzero_id\<close> the function of that name.\<close>

definition child_path :: "wstring \<Rightarrow> wstring \<Rightarrow> wstring" where
  "child_path parent child = parent @ (if parent = [] \<or> last parent = wide_backslash then [] else [wide_backslash]) @ child"

definition checked_sha256 :: "string \<Rightarrow> 'w bcrypt \<Rightarrow> string \<Rightarrow> string \<Rightarrow> string \<Rightarrow> ('w, string) cpp" where
  "checked_sha256 profile bc ob bs step =
     catchM (sha256 bc bs) (\<lambda>_. throwM (fail profile Err_hash_failure ob step ''BCrypt SHA-256 failed''))"

text \<open>\<open>parent\<close> is the parent with the component under it, or None for the null pointer.\<close>

definition check_node ::
  "string \<Rightarrow> metadata \<Rightarrow> metadata \<Rightarrow> (metadata \<times> wstring) option \<Rightarrow> bool \<Rightarrow> bool \<Rightarrow> string \<Rightarrow> string \<Rightarrow> exn + unit"
where
  "check_node profile actual expected parent directory protected_dacl ob step =
     bindE (guardE (\<not> ((m_attributes actual AND FILE_ATTRIBUTE_REPARSE_POINT) \<noteq> 0 \<or> m_reparse_tag actual \<noteq> 0))
       (fail profile Err_reparse ob step ''reparse object or tag'')) (\<lambda>_.
     bindE (guardE (\<not> (m_directory actual \<noteq> directory \<or>
         ((m_attributes actual AND FILE_ATTRIBUTE_DIRECTORY) \<noteq> 0) \<noteq> directory \<or>
         (m_attributes actual AND FILE_ATTRIBUTE_DEVICE) \<noteq> 0))
       (fail profile Err_identity_drift ob step ''unexpected object type or device attribute'')) (\<lambda>_.
     bindE (guardE (\<not> (\<not> nonzero_id (m_file_id actual) \<or> m_volume_guid_path actual = [] \<or> m_final_path actual = [] \<or>
         m_sddl actual = [] \<or> (protected_dacl \<and> \<not> m_dacl_protected actual)))
       (fail profile Err_incomplete ob step ''required identity or descriptor field absent'')) (\<lambda>_.
     bindE (guardE (case parent of None \<Rightarrow> True | Some (p, component) \<Rightarrow>
         \<not> (m_volume_guid_path actual \<noteq> m_volume_guid_path p \<or> m_volume_serial actual \<noteq> m_volume_serial p \<or>
            m_final_path actual \<noteq> child_path (m_final_path p) component))
       (fail profile Err_identity_drift ob step ''parent binding differs'')) (\<lambda>_.
     guardE (\<not> (m_volume_guid_path actual \<noteq> m_volume_guid_path expected \<or>
         m_volume_serial actual \<noteq> m_volume_serial expected \<or> m_file_id actual \<noteq> m_file_id expected \<or>
         m_final_path actual \<noteq> m_final_path expected \<or> m_directory actual \<noteq> m_directory expected \<or>
         m_attributes actual \<noteq> m_attributes expected \<or> m_reparse_tag actual \<noteq> m_reparse_tag expected \<or>
         m_sddl actual \<noteq> m_sddl expected \<or> m_dacl_protected actual \<noteq> m_dacl_protected expected))
       (fail profile Err_identity_drift ob step ''G2 identity or owner/group/full DACL differs'')))))"

section \<open>Held handles\<close>

definition add_handle ::
  "read_site \<Rightarrow> (nat \<Rightarrow> bool) \<Rightarrow> 'w protected_calls \<Rightarrow> handle \<Rightarrow> (handle list \<times> 'w, handle) cpp"
where
  "add_handle site room calls h =
     bindM (guardM (\<not> (h = null_handle \<or> h = invalid_handle_value))
       (fail (st_profile site) Err_incomplete (st_object site) ''open-handle'' ''invalid native handle'')) (\<lambda>_.
     bindM (readM length) (\<lambda>n.
     bindM (if room n then localM (\<lambda>held. held @ [h])
            else bindM (outerM (\<lambda>w. (Inr (), pc_close calls h w))) (\<lambda>_. throwM (Std Bad_alloc ''bad allocation''))) (\<lambda>_.
     returnM h)))"

text \<open>The scope: the destructor closes the held handles from the last to the first.\<close>

definition with_held :: "'w protected_calls \<Rightarrow> (handle list \<times> 'w, 'a) cpp \<Rightarrow> ('w, 'a) cpp" where
  "with_held calls body = (\<lambda>w. case body ([], w) of (r, (held, w')) \<Rightarrow> (r, fold (pc_close calls) (rev held) w'))"

section \<open>The read\<close>

text \<open>One node of the chain: opened, held, inspected and checked.\<close>

definition enter_node ::
  "read_site \<Rightarrow> (nat \<Rightarrow> bool) \<Rightarrow> 'w protected_calls \<Rightarrow> ('w, handle) cpp \<Rightarrow> metadata \<Rightarrow> (metadata \<times> wstring) option \<Rightarrow>
   bool \<Rightarrow> bool \<Rightarrow> string \<Rightarrow> (handle list \<times> 'w, handle \<times> metadata) cpp"
where
  "enter_node site room calls opening expected parent directory protected_dacl ob =
     bindM (outerM opening) (\<lambda>opened.
     bindM (add_handle site room calls opened) (\<lambda>h.
     bindM (outerM (pc_inspect calls h ob ''initial-identity'')) (\<lambda>meta.
     bindM (liftM (check_node (st_profile site) meta expected parent directory protected_dacl ob ''initial-identity'')) (\<lambda>_.
     returnM (h, meta)))))"

definition recheck_node ::
  "read_site \<Rightarrow> 'w protected_calls \<Rightarrow> handle \<Rightarrow> metadata \<Rightarrow> (metadata \<times> wstring) option \<Rightarrow> bool \<Rightarrow> bool \<Rightarrow> string \<Rightarrow>
   (handle list \<times> 'w, unit) cpp"
where
  "recheck_node site calls h expected parent directory protected_dacl ob =
     bindM (outerM (pc_inspect calls h ob ''final-identity'')) (\<lambda>meta.
     liftM (check_node (st_profile site) meta expected parent directory protected_dacl ob ''final-identity''))"

definition verify_content ::
  "read_site \<Rightarrow> 'w bcrypt \<Rightarrow> 'w protected_calls \<Rightarrow> handle \<Rightarrow> string \<Rightarrow> string \<Rightarrow> (handle list \<times> 'w, string) cpp"
where
  "verify_content site bc calls file canonical sha =
     bindM (outerM (pc_read_content calls file (length canonical))) (\<lambda>bs.
     bindM (guardM (\<not> bs \<noteq> canonical)
       (fail (st_profile site) Err_binding_failure (st_object site) ''canonical-bytes'' (st_bytes_differ site))) (\<lambda>_.
     bindM (outerM (checked_sha256 (st_profile site) bc (st_object site) bs ''content-sha256'')) (\<lambda>digest.
     bindM (guardM (\<not> digest \<noteq> sha)
       (fail (st_profile site) Err_hash_failure (st_object site) ''content-sha256'' (st_digest_differs site))) (\<lambda>_.
     bindM (outerM (pc_read_content calls file (length canonical))) (\<lambda>again.
     bindM (guardM (\<not> again \<noteq> bs)
       (fail (st_profile site) Err_identity_drift (st_object site) ''final-content'' (st_content_changed site))) (\<lambda>_.
     returnM bs))))))"

definition held_read ::
  "read_site \<Rightarrow> (nat \<Rightarrow> bool) \<Rightarrow> 'w bcrypt \<Rightarrow> 'w protected_calls \<Rightarrow> sealed_chain \<Rightarrow> string \<Rightarrow> string \<Rightarrow>
   (handle list \<times> 'w, string) cpp"
where
  "held_read site room bc calls sealed canonical sha =
     bindM (enter_node site room calls (pc_open_root calls volume_root root_identity_spec)
       (sl_root sealed) None True False ''volume-root'') (\<lambda>(root, root_meta).
     bindM (enter_node site room calls (pc_open_relative calls root p1_name ancestor_identity_spec ''P1'')
       (sl_p1 sealed) (Some (root_meta, p1_name)) True True ''P1'') (\<lambda>(p1, p1_meta).
     bindM (enter_node site room calls
       (pc_open_relative calls p1 (st_folder_name site) ancestor_identity_spec (st_folder_object site))
       (sl_folder sealed) (Some (p1_meta, st_folder_name site)) True True (st_folder_object site)) (\<lambda>(folder, folder_meta).
     bindM (enter_node site room calls
       (pc_open_relative calls folder (st_file_name site) (st_file_spec site) (st_object site))
       (sl_file sealed) (Some (folder_meta, st_file_name site)) False True (st_object site)) (\<lambda>(file, file_meta).
     bindM (verify_content site bc calls file canonical sha) (\<lambda>bs.
     bindM (recheck_node site calls root root_meta None True False ''volume-root'') (\<lambda>_.
     bindM (recheck_node site calls p1 p1_meta (Some (root_meta, p1_name)) True True ''P1'') (\<lambda>_.
     bindM (recheck_node site calls folder folder_meta (Some (p1_meta, st_folder_name site)) True True (st_folder_object site)) (\<lambda>_.
     bindM (recheck_node site calls file file_meta (Some (folder_meta, st_file_name site)) False True (st_object site)) (\<lambda>_.
     returnM bs)))))))))"

text \<open>The handlers around the whole read.\<close>

definition reader_handlers :: "read_site \<Rightarrow> string \<Rightarrow> ('w, 'a) cpp \<Rightarrow> ('w, 'a) cpp" where
  "reader_handlers site foreign m = catch_chain m
     (\<lambda>f. throwM (Observation f))
     (\<lambda>what. throwM (observe Err_incomplete (st_object site) (st_profile site) ''reader-exception'' what))
     (throwM (observe Err_incomplete (st_object site) (st_profile site) ''reader-exception'' foreign))"

definition chain_paths :: "sealed_chain \<Rightarrow> read_site \<Rightarrow> bool" where
  "chain_paths sealed site \<longleftrightarrow> \<not> (m_final_path (sl_root sealed) \<noteq> m_volume_guid_path (sl_root sealed) \<or>
     m_final_path (sl_p1 sealed) \<noteq> child_path (m_final_path (sl_root sealed)) p1_name \<or>
     m_final_path (sl_folder sealed) \<noteq> child_path (m_final_path (sl_p1 sealed)) (st_folder_name site) \<or>
     m_final_path (sl_file sealed) \<noteq> child_path (m_final_path (sl_folder sealed)) (st_file_name site))"

section \<open>What a successful read has seen\<close>

text \<open>The conditions on a node that \<open>check_node\<close> puts besides the equality with the sealed identity.\<close>

definition sound_node :: "metadata \<Rightarrow> (metadata \<times> wstring) option \<Rightarrow> bool \<Rightarrow> bool \<Rightarrow> bool" where
  "sound_node m parent directory protected_dacl \<longleftrightarrow>
     (m_attributes m AND FILE_ATTRIBUTE_REPARSE_POINT) = 0 \<and> m_reparse_tag m = 0 \<and> m_directory m = directory \<and>
     ((m_attributes m AND FILE_ATTRIBUTE_DIRECTORY) \<noteq> 0) = directory \<and> (m_attributes m AND FILE_ATTRIBUTE_DEVICE) = 0 \<and>
     nonzero_id (m_file_id m) \<and> m_volume_guid_path m \<noteq> [] \<and> m_final_path m \<noteq> [] \<and> m_sddl m \<noteq> [] \<and>
     (if protected_dacl then m_dacl_protected m else True) \<and>
     (case parent of None \<Rightarrow> True | Some (p, component) \<Rightarrow> m_volume_guid_path m = m_volume_guid_path p \<and>
        m_volume_serial m = m_volume_serial p \<and> m_final_path m = child_path (m_final_path p) component)"

definition sound_chain :: "read_site \<Rightarrow> sealed_chain \<Rightarrow> bool" where
  "sound_chain site sealed \<longleftrightarrow> sound_node (sl_root sealed) None True False \<and>
     sound_node (sl_p1 sealed) (Some (sl_root sealed, p1_name)) True True \<and>
     sound_node (sl_folder sealed) (Some (sl_p1 sealed, st_folder_name site)) True True \<and>
     sound_node (sl_file sealed) (Some (sl_folder sealed, st_file_name site)) False True"

lemma check_node_ok [run_iff]:
  "check_node profile actual expected parent directory protected_dacl ob step = Inr u \<longleftrightarrow>
     actual = expected \<and> sound_node expected parent directory protected_dacl"
  unfolding check_node_def sound_node_def
  by (auto simp: run_iff split: option.splits)

lemma add_handle_ok [run_iff]:
  "add_handle site room calls h (held, w) = (Inr x, (held', w')) \<longleftrightarrow>
     valid_handle h \<and> room (length held) \<and> x = h \<and> held' = held @ [h] \<and> w' = w"
  by (auto simp: add_handle_def run_iff valid_handle_def)

lemma enter_node_ok [run_iff]:
  "enter_node site room calls opening expected parent directory protected_dacl ob (held, w) = (Inr (h, m), (held', w')) \<longleftrightarrow>
     valid_handle h \<and> room (length held) \<and> held' = held @ [h] \<and> m = expected \<and>
     sound_node expected parent directory protected_dacl \<and>
     (\<exists>w1. opening w = (Inr h, w1) \<and> pc_inspect calls h ob ''initial-identity'' w1 = (Inr expected, w'))"
  by (auto simp: enter_node_def run_iff)

lemma recheck_node_ok [run_iff]:
  "recheck_node site calls h expected parent directory protected_dacl ob (held, w) = (Inr u, (held', w')) \<longleftrightarrow>
     held' = held \<and> sound_node expected parent directory protected_dacl \<and>
     pc_inspect calls h ob ''final-identity'' w = (Inr expected, w')"
  by (auto simp: recheck_node_def run_iff)

lemma checked_sha256_ok [run_iff]:
  "checked_sha256 profile bc ob bs step w = (Inr d, w') \<longleftrightarrow> sha256 bc bs w = (Inr d, w')"
  by (simp add: checked_sha256_def run_iff)

lemma verify_content_ok [run_iff]:
  "verify_content site bc calls file canonical sha (held, w) = (Inr s, (held', w')) \<longleftrightarrow>
     s = canonical \<and> held' = held \<and>
     (\<exists>w1 w2. pc_read_content calls file (length canonical) w = (Inr canonical, w1) \<and>
        sha256 bc canonical w1 = (Inr sha, w2) \<and> pc_read_content calls file (length canonical) w2 = (Inr canonical, w'))"
  by (auto simp: verify_content_def run_iff)

text \<open>\<open>answered m x\<close> relates the worlds before and after a call that returned \<open>x\<close>.  The answers of a
  successful read, in order: every node is opened under its parent and shows its sealed identity, the
  content is read, hashed and read again, and every node shows its sealed identity again.\<close>

definition answered :: "('w, 'a) cpp \<Rightarrow> 'a \<Rightarrow> 'w \<Rightarrow> 'w \<Rightarrow> bool" where
  "answered m x w w' \<longleftrightarrow> m w = (Inr x, w')"

definition sealed_answers ::
  "read_site \<Rightarrow> 'w bcrypt \<Rightarrow> 'w protected_calls \<Rightarrow> sealed_chain \<Rightarrow> string \<Rightarrow> string \<Rightarrow>
   handle \<Rightarrow> handle \<Rightarrow> handle \<Rightarrow> handle \<Rightarrow> 'w \<Rightarrow> 'w \<Rightarrow> bool"
where
  "sealed_answers site bc calls sealed canonical sha root p1 folder file =
     answered (pc_open_root calls volume_root root_identity_spec) root OO
     answered (pc_inspect calls root ''volume-root'' ''initial-identity'') (sl_root sealed) OO
     answered (pc_open_relative calls root p1_name ancestor_identity_spec ''P1'') p1 OO
     answered (pc_inspect calls p1 ''P1'' ''initial-identity'') (sl_p1 sealed) OO
     answered (pc_open_relative calls p1 (st_folder_name site) ancestor_identity_spec (st_folder_object site)) folder OO
     answered (pc_inspect calls folder (st_folder_object site) ''initial-identity'') (sl_folder sealed) OO
     answered (pc_open_relative calls folder (st_file_name site) (st_file_spec site) (st_object site)) file OO
     answered (pc_inspect calls file (st_object site) ''initial-identity'') (sl_file sealed) OO
     answered (pc_read_content calls file (length canonical)) canonical OO
     answered (sha256 bc canonical) sha OO
     answered (pc_read_content calls file (length canonical)) canonical OO
     answered (pc_inspect calls root ''volume-root'' ''final-identity'') (sl_root sealed) OO
     answered (pc_inspect calls p1 ''P1'' ''final-identity'') (sl_p1 sealed) OO
     answered (pc_inspect calls folder (st_folder_object site) ''final-identity'') (sl_folder sealed) OO
     answered (pc_inspect calls file (st_object site) ''final-identity'') (sl_file sealed)"

lemma held_read_iff:
  "held_read site room bc calls sealed canonical sha ([], w) = (Inr s, (held, w')) \<longleftrightarrow>
     s = canonical \<and> sound_chain site sealed \<and> room 0 \<and> room 1 \<and> room 2 \<and> room 3 \<and>
     (\<exists>root p1 folder file. held = [root, p1, folder, file] \<and> list_all valid_handle held \<and>
        sealed_answers site bc calls sealed canonical sha root p1 folder file w w')"
  unfolding held_read_def sealed_answers_def sound_chain_def answered_def relcompp_apply
  by (auto simp: run_iff numeral_2_eq_2 numeral_3_eq_3)

lemma with_held_ok:
  "with_held calls body w = (Inr x, w') \<longleftrightarrow>
     (\<exists>held w1. body ([], w) = (Inr x, (held, w1)) \<and> w' = fold (pc_close calls) (rev held) w1)"
  by (auto simp: with_held_def split: prod.splits)

lemma with_held_read_iff:
  "with_held calls (held_read site room bc calls sealed canonical sha) w = (Inr s, w') \<longleftrightarrow>
     s = canonical \<and> sound_chain site sealed \<and> room 0 \<and> room 1 \<and> room 2 \<and> room 3 \<and>
     (\<exists>root p1 folder file w1. list_all valid_handle [root, p1, folder, file] \<and>
        sealed_answers site bc calls sealed canonical sha root p1 folder file w w1 \<and>
        w' = fold (pc_close calls) (rev [root, p1, folder, file]) w1)"
  unfolding with_held_ok held_read_iff by blast

lemma reader_handlers_ok [run_iff]: "reader_handlers site foreign m w = (Inr x, w') \<longleftrightarrow> m w = (Inr x, w')"
  by (simp add: reader_handlers_def run_iff)

section \<open>Failures are typed\<close>

text \<open>What the injected or native calls may raise: any C++ exception, an observation failure having a
  real kind, but no undefined behaviour.\<close>

definition sane_exn :: "exn \<Rightarrow> bool" where
  "sane_exn e \<longleftrightarrow> e \<noteq> Undefined \<and> (\<forall>f. e = Observation f \<longrightarrow> f_kind f \<noteq> Err_none)"

definition sane_calls :: "'w protected_calls \<Rightarrow> bool" where
  "sane_calls calls \<longleftrightarrow> (\<forall>path spec. raises_only sane_exn (pc_open_root calls path spec)) \<and>
     (\<forall>parent component spec ob. raises_only sane_exn (pc_open_relative calls parent component spec ob)) \<and>
     (\<forall>h ob step. raises_only sane_exn (pc_inspect calls h ob step)) \<and>
     (\<forall>h n. raises_only sane_exn (pc_read_content calls h n))"

lemma sane_callsD [raises_intros]:
  assumes "sane_calls calls"
  shows "raises_only sane_exn (pc_open_root calls path spec)"
    "raises_only sane_exn (pc_open_relative calls parent component ospec ob)"
    "raises_only sane_exn (pc_inspect calls h ob step)" "raises_only sane_exn (pc_read_content calls h n)"
  using assms by (auto simp: sane_calls_def)

lemma typed_sane: "typed_exn e \<Longrightarrow> sane_exn e"
  by (auto simp: typed_exn_def sane_exn_def)

lemma sane_std [simp]: "sane_exn (Std c m)"
  by (simp add: sane_exn_def)

lemma sane_observe [simp]: "sane_exn (observe k ob pr st msg) \<longleftrightarrow> k \<noteq> Err_none"
  by (simp add: sane_exn_def observe_def observation_failure_of_def observation_failure_full_def)

lemma fail_sane [simp]: "sane_exn (fail pr k ob st msg) \<longleftrightarrow> k \<noteq> Err_none"
  by (simp add: fail_def)

lemma check_node_raises [raises_intros]: "raises_only sane_exn (liftM (check_node pr a x parent d p ob step))"
  by (rule raises_only_liftM) (auto simp: check_node_def raise_iff)

lemma sha256_sane [raises_intros]: "raises_only sane_exn (sha256 bc bs)"
  by (rule raises_only_mono [OF sha256_raises]) auto

lemma checked_sha256_raises [raises_intros]: "raises_only sane_exn (checked_sha256 pr bc ob bs step)"
  unfolding checked_sha256_def by (rule raises_only_catchM [OF sha256_raises]) (auto intro!: raises_intros)

lemma add_handle_raises [raises_intros]: "raises_only sane_exn (add_handle site room calls h)"
  unfolding add_handle_def
  by (intro raises_intros raises_only_outerM) (auto simp: raises_only_def)

lemma held_read_raises:
  "sane_calls calls \<Longrightarrow> raises_only sane_exn (held_read site room bc calls sealed canonical sha)"
  unfolding held_read_def enter_node_def recheck_node_def verify_content_def
  by (auto intro!: raises_intros split: prod.splits)

lemma raises_only_with_held [raises_intros]: "raises_only P body \<Longrightarrow> raises_only P (with_held calls body)"
  unfolding with_held_def by (rule raises_onlyI) (auto split: prod.splits dest: raises_onlyD)

lemma sane_typed: "sane_exn (Observation f) \<Longrightarrow> typed_exn (Observation f)"
  by (simp add: sane_exn_def typed_exn_def)

lemma reader_handlers_raises: "raises_only sane_exn m \<Longrightarrow> raises_only typed_exn (reader_handlers site foreign m)"
  unfolding reader_handlers_def
  by (erule raises_only_catch_chain) (auto intro!: raises_intros sane_typed simp: sane_exn_def [of Undefined])

section \<open>Every handle is closed\<close>

text \<open>The calls with a log of the handle operations; a failed opening opens nothing.\<close>

definition logged :: "handle_event list \<Rightarrow> ('a \<Rightarrow> handle_event list) \<Rightarrow> ('w, 'a) cpp \<Rightarrow> (handle_event list \<times> 'w, 'a) cpp" where
  "logged before after m = (\<lambda>(log, w). case m w of
       (Inr x, w') \<Rightarrow> (Inr x, (log @ before @ after x, w'))
     | (Inl e, w') \<Rightarrow> (Inl e, (log @ before, w')))"

definition logged_calls :: "'w protected_calls \<Rightarrow> (handle_event list \<times> 'w) protected_calls" where
  "logged_calls calls = \<lparr>
     pc_open_root = (\<lambda>path spec. logged [] (\<lambda>h. [Opened h]) (pc_open_root calls path spec)),
     pc_open_relative = (\<lambda>parent component spec ob.
        logged [Used parent] (\<lambda>h. [Opened h]) (pc_open_relative calls parent component spec ob)),
     pc_inspect = (\<lambda>h ob step. logged [Used h] (\<lambda>_. []) (pc_inspect calls h ob step)),
     pc_read_content = (\<lambda>h n. logged [Used h] (\<lambda>_. []) (pc_read_content calls h n)),
     pc_close = (\<lambda>h (log, w). (log @ [Closed h], pc_close calls h w))\<rparr>"

lemma logged_calls_sel:
  "pc_open_root (logged_calls calls) path rspec = logged [] (\<lambda>h. [Opened h]) (pc_open_root calls path rspec)"
  "pc_open_relative (logged_calls calls) parent component spec ob =
     logged [Used parent] (\<lambda>h. [Opened h]) (pc_open_relative calls parent component spec ob)"
  "pc_inspect (logged_calls calls) h ob step = logged [Used h] (\<lambda>_. []) (pc_inspect calls h ob step)"
  "pc_read_content (logged_calls calls) h n = logged [Used h] (\<lambda>_. []) (pc_read_content calls h n)"
  "pc_close (logged_calls calls) h (log, w) = (log @ [Closed h], pc_close calls h w)"
  by (simp_all add: logged_calls_def)

text \<open>The invariant of the scope: the log leaves exactly the held handles open, among them \<open>S\<close>.\<close>

definition holds :: "handle set \<Rightarrow> handle list \<times> handle_event list \<times> 'w \<Rightarrow> bool" where
  "holds S = (\<lambda>(held, log, w). log_holds held log \<and> S \<subseteq> set held)"

abbreviation keeps :: "handle set \<Rightarrow> (handle list \<times> handle_event list \<times> 'w, 'a) cpp \<Rightarrow> bool" where
  "keeps S m \<equiv> triple (holds S) m (\<lambda>_. holds S) (holds {})"

lemma holds_mono: "holds S s \<Longrightarrow> T \<subseteq> S \<Longrightarrow> holds T s"
  by (auto simp: holds_def)

lemma keeps_used:
  "h \<in> S \<Longrightarrow> keeps S (outerM (logged [Used h] (\<lambda>_. []) m))"
  by (rule tripleI) (auto simp: holds_def outerM_def logged_def intro: log_holds_used split: prod.splits sum.splits)

text \<open>Between the opening of a handle and its place in the vector.\<close>

definition holds_new :: "handle set \<Rightarrow> handle \<Rightarrow> handle list \<times> handle_event list \<times> 'w \<Rightarrow> bool" where
  "holds_new S h = (\<lambda>(held, log, w). log_holds (if valid_handle h then held @ [h] else held) log \<and> S \<subseteq> set held)"

lemma opening_holds:
  assumes "before = [] \<or> (\<exists>p\<in>S. before = [Used p])"
  shows "triple (holds S) (outerM (logged before (\<lambda>h. [Opened h]) m)) (holds_new S) (holds {})"
proof (rule tripleI; clarify)
  have step: "log_holds hs (log @ before)" if "log_holds hs log" "S \<subseteq> set hs" for hs log
    using assms that log_holds_used by auto
  have new: "log_holds (if valid_handle h then hs @ [h] else hs) (log @ before @ [Opened h])"
    if "log_holds hs log" "S \<subseteq> set hs" for hs log h
    using log_holds_opened [OF step [OF that]] log_holds_invalid [OF step [OF that]] by simp
  fix held log w x held' log' w'
  assume "holds S (held, log, w)" "outerM (logged before (\<lambda>h. [Opened h]) m) (held, log, w) = (Inr x, held', log', w')"
  with new [of held log x] show "holds_new S x (held', log', w')"
    by (auto simp: holds_def holds_new_def run_iff logged_def split: prod.splits sum.splits)
next
  have step: "log_holds hs (log @ before)" if "log_holds hs log" "S \<subseteq> set hs" for hs log
    using assms that log_holds_used by auto
  fix held log w e held' log' w'
  assume "holds S (held, log, w)" "outerM (logged before (\<lambda>h. [Opened h]) m) (held, log, w) = (Inl e, held', log', w')"
  with step [of held log] show "holds {} (held', log', w')"
    by (auto simp: holds_def raise_iff logged_def split: prod.splits sum.splits)
qed

lemma add_handle_holds:
  "triple (holds_new S h) (add_handle site room (logged_calls calls) h) (\<lambda>x. holds (insert x S)) (holds {})"
  unfolding add_handle_def
  by (rule tripleI)
    (auto simp: run_iff raise_iff holds_new_def holds_def valid_handle_def logged_calls_def run_simps
      intro: log_holds_closed split: if_splits)

lemma enter_node_holds:
  assumes "before = [] \<or> (\<exists>p\<in>S. before = [Used p])"
  shows "triple (holds S)
     (enter_node site room (logged_calls calls) (logged before (\<lambda>h. [Opened h]) opening) expected parent d p ob)
     (\<lambda>(h, m). holds (insert h S)) (holds {})"
  unfolding enter_node_def logged_calls_sel
  by (auto intro!: triple_bindM [OF opening_holds [OF assms]] triple_bindM [OF add_handle_holds]
      triple_bindM [OF keeps_used] triple_bindM [OF triple_liftM] triple_intros intro: holds_mono)

lemma recheck_node_holds:
  "h \<in> S \<Longrightarrow> keeps S (recheck_node site (logged_calls calls) h expected parent d p ob)"
  unfolding recheck_node_def logged_calls_sel
  by (auto intro!: triple_bindM [OF keeps_used] triple_intros intro: holds_mono)

text \<open>Hashing does not touch the handles.\<close>

definition log_bcrypt :: "'w bcrypt \<Rightarrow> ('l \<times> 'w) bcrypt" where
  "log_bcrypt bc = \<lparr>
     bc_open_algorithm = (\<lambda>(l, w). case bc_open_algorithm bc w of (r, w') \<Rightarrow> (r, (l, w'))),
     bc_create_hash = (\<lambda>a (l, w). case bc_create_hash bc a w of (r, w') \<Rightarrow> (r, (l, w'))),
     bc_hash_data = (\<lambda>h b (l, w). case bc_hash_data bc h b w of (r, w') \<Rightarrow> (r, (l, w'))),
     bc_finish_hash = (\<lambda>h (l, w). case bc_finish_hash bc h w of (r, w') \<Rightarrow> (r, (l, w'))),
     bc_destroy_hash = (\<lambda>h (l, w). (l, bc_destroy_hash bc h w)),
     bc_close_algorithm = (\<lambda>a (l, w). (l, bc_close_algorithm bc a w))\<rparr>"

lemma sha256_log_bcrypt: "sha256 (log_bcrypt bc) bs = outerM (sha256 bc bs)"
  by (rule ext) (auto simp: sha256_def sha256_calls_def log_bcrypt_def outerM_def Let_def split: prod.splits)

lemma outerM_catchM: "catchM (outerM m) (\<lambda>e. throwM (h e)) = outerM (catchM m (\<lambda>e. throwM (h e)))"
  by (rule ext) (auto simp: catchM_def outerM_def throwM_def split: prod.splits sum.splits)

lemma keeps_outer: "keeps S (outerM (outerM m))"
  by (rule tripleI) (auto simp: run_iff raise_iff holds_def)

lemma keeps_guard: "keeps S (guardM b e)"
  by (auto intro!: triple_intros intro: holds_mono)

lemma verify_content_holds:
  "h \<in> S \<Longrightarrow> keeps S (verify_content site (log_bcrypt bc) (logged_calls calls) h canonical sha)"
  unfolding verify_content_def logged_calls_sel checked_sha256_def sha256_log_bcrypt outerM_catchM
  by (auto intro!: triple_bindM [OF keeps_used] triple_bindM [OF keeps_outer] triple_bindM [OF keeps_guard] triple_intros
      intro: holds_mono)

lemma held_read_holds:
  "triple (holds {}) (held_read site room (log_bcrypt bc) (logged_calls calls) sealed canonical sha) (\<lambda>_. holds {}) (holds {})"
  unfolding held_read_def logged_calls_sel
  by (auto intro!: triple_bindM [OF enter_node_holds] triple_bindM [OF recheck_node_holds]
      triple_bindM [OF verify_content_holds] triple_intros split: prod.splits intro: holds_mono)

lemma close_all_holds:
  "log_holds held log \<Longrightarrow> \<exists>log' w'. fold (pc_close (logged_calls calls)) (rev held) (log, w) = (log', w') \<and> log_holds [] log'"
proof (induction held arbitrary: log w rule: rev_induct)
  case (snoc h held)
  from snoc.IH [OF log_holds_closed [OF snoc.prems], of "pc_close calls h w"] show ?case
    by (simp add: logged_calls_sel)
qed simp

lemma with_held_holds:
  assumes "with_held (logged_calls calls) (held_read site room (log_bcrypt bc) (logged_calls calls) sealed canonical sha)
     (log, w) = (r, (log', w'))" and "log_holds [] log"
  shows "log_holds [] log'"
proof -
  obtain held log1 w1 where run: "held_read site room (log_bcrypt bc) (logged_calls calls) sealed canonical sha ([], log, w) =
      (r, (held, log1, w1))"
    and closing: "fold (pc_close (logged_calls calls)) (rev held) (log1, w1) = (log', w')"
    using assms(1) by (auto simp: with_held_def split: prod.splits)
  have "holds {} ([] :: handle list, log, w)" using assms(2) by (simp add: holds_def)
  with tripleD [OF held_read_holds] run have "holds {} (held, log1, w1)" by (cases r) blast+
  then have "log_holds held log1" by (simp add: holds_def)
  from close_all_holds [OF this, of calls w1] closing show ?thesis by auto
qed

section \<open>The contract of a sealed reader\<close>

text \<open>What the two readers share: a preparation that yields the sealed text, then the read of the chain
  on the handles, inside the handlers.\<close>

definition sealed_read ::
  "read_site \<Rightarrow> string \<Rightarrow> ('w, string) cpp \<Rightarrow> (nat \<Rightarrow> bool) \<Rightarrow> 'w bcrypt \<Rightarrow> 'w protected_calls \<Rightarrow> sealed_chain \<Rightarrow> string \<Rightarrow>
   ('w, string) cpp"
where
  "sealed_read site foreign prepare room bc calls sealed sha =
     reader_handlers site foreign (bindM prepare (\<lambda>canonical.
       with_held calls (held_read site room bc calls sealed canonical sha)))"

text \<open>\<open>has_seen\<close>: from the first world to the last, the calls gave the answers of a successful read and
  the four handles were closed in reverse order.\<close>

definition has_seen ::
  "read_site \<Rightarrow> 'w bcrypt \<Rightarrow> 'w protected_calls \<Rightarrow> sealed_chain \<Rightarrow> string \<Rightarrow> string \<Rightarrow> 'w \<Rightarrow> 'w \<Rightarrow> bool"
where
  "has_seen site bc calls sealed text sha w w' \<longleftrightarrow>
     (\<exists>root p1 folder file w1. list_all valid_handle [root, p1, folder, file] \<and>
        sealed_answers site bc calls sealed text sha root p1 folder file w w1 \<and>
        w' = fold (pc_close calls) (rev [root, p1, folder, file]) w1)"

text \<open>A chain of objects that stays as sealed: every call answers, in every world.\<close>

definition stable_site ::
  "read_site \<Rightarrow> 'w protected_calls \<Rightarrow> sealed_chain \<Rightarrow> string \<Rightarrow> bool"
where
  "stable_site site calls sealed text \<longleftrightarrow>
     (\<exists>root p1 folder file. list_all valid_handle [root, p1, folder, file] \<and>
        returns (pc_open_root calls volume_root root_identity_spec) root \<and>
        returns (pc_open_relative calls root p1_name ancestor_identity_spec ''P1'') p1 \<and>
        returns (pc_open_relative calls p1 (st_folder_name site) ancestor_identity_spec (st_folder_object site)) folder \<and>
        returns (pc_open_relative calls folder (st_file_name site) (st_file_spec site) (st_object site)) file \<and>
        (\<forall>step. returns (pc_inspect calls root ''volume-root'' step) (sl_root sealed)) \<and>
        (\<forall>step. returns (pc_inspect calls p1 ''P1'' step) (sl_p1 sealed)) \<and>
        (\<forall>step. returns (pc_inspect calls folder (st_folder_object site) step) (sl_folder sealed)) \<and>
        (\<forall>step. returns (pc_inspect calls file (st_object site) step) (sl_file sealed)) \<and>
        returns (pc_read_content calls file (length text)) text)"

lemma answered_step: "returns m x \<Longrightarrow> (\<And>w1. \<exists>w'. R w1 w') \<Longrightarrow> \<exists>w'. (answered m x OO R) w w'"
  unfolding returns_def answered_def by (meson relcompp.relcompI)

lemma answered_last: "returns m x \<Longrightarrow> \<exists>w'. answered m x w w'"
  by (simp add: returns_def answered_def)

lemma with_held_read_seen:
  "with_held calls (held_read site room bc calls sealed canonical sha) w = (Inr s, w') \<longleftrightarrow>
     s = canonical \<and> sound_chain site sealed \<and> room 0 \<and> room 1 \<and> room 2 \<and> room 3 \<and>
     has_seen site bc calls sealed canonical sha w w'"
  unfolding with_held_read_iff has_seen_def ..

lemma stable_site_seen:
  assumes "stable_site site calls sealed text" and "returns (sha256 bc text) sha"
  shows "\<exists>w'. has_seen site bc calls sealed text sha w w'"
proof -
  from assms(1) obtain root p1 folder leaf where *: "list_all valid_handle [root, p1, folder, leaf]"
      "returns (pc_open_root calls volume_root root_identity_spec) root"
      "returns (pc_open_relative calls root p1_name ancestor_identity_spec ''P1'') p1"
      "returns (pc_open_relative calls p1 (st_folder_name site) ancestor_identity_spec (st_folder_object site)) folder"
      "returns (pc_open_relative calls folder (st_file_name site) (st_file_spec site) (st_object site)) leaf"
      "\<And>step. returns (pc_inspect calls root ''volume-root'' step) (sl_root sealed)"
      "\<And>step. returns (pc_inspect calls p1 ''P1'' step) (sl_p1 sealed)"
      "\<And>step. returns (pc_inspect calls folder (st_folder_object site) step) (sl_folder sealed)"
      "\<And>step. returns (pc_inspect calls leaf (st_object site) step) (sl_file sealed)"
      "returns (pc_read_content calls leaf (length text)) text"
    unfolding stable_site_def by blast
  have "\<exists>w'. sealed_answers site bc calls sealed text sha root p1 folder leaf w w'"
    unfolding sealed_answers_def by (intro answered_step answered_last * assms(2))
  with *(1) show ?thesis unfolding has_seen_def by blast
qed

locale sealed_reader =
  fixes site :: read_site and foreign :: string
    and prepare :: "'w bcrypt \<Rightarrow> 'c \<Rightarrow> ('w, string) cpp"
    and chain :: "'c \<Rightarrow> sealed_chain" and seal :: "'c \<Rightarrow> string"
    and read :: "(nat \<Rightarrow> bool) \<Rightarrow> 'w bcrypt \<Rightarrow> 'c \<Rightarrow> 'w protected_calls \<Rightarrow> ('w, string) cpp"
  assumes read_is: "read room bc c calls = sealed_read site foreign (prepare bc c) room bc calls (chain c) (seal c)"
    and prepare_sane: "raises_only sane_exn (prepare bc c)"
begin

lemma read_iff:
  "read room bc c calls w = (Inr s, w') \<longleftrightarrow>
     sound_chain site (chain c) \<and> room 0 \<and> room 1 \<and> room 2 \<and> room 3 \<and>
     (\<exists>w0. prepare bc c w = (Inr s, w0) \<and> has_seen site bc calls (chain c) s (seal c) w0 w')"
  unfolding read_is sealed_read_def by (auto simp: run_iff with_held_read_seen)

lemma read_typed: "sane_calls calls \<Longrightarrow> raises_only typed_exn (read room bc c calls)"
  unfolding read_is sealed_read_def
  by (intro reader_handlers_raises raises_intros prepare_sane held_read_raises)

lemma read_stable:
  assumes "stable_site site calls (chain c) s" and "sound_chain site (chain c)" and "\<And>n. room n"
    and "returns (prepare bc c) s" and "returns (sha256 bc s) (seal c)"
  shows "returns (read room bc c calls) s"
  unfolding returns_def read_iff
  using assms stable_site_seen [OF assms(1,5)] by (auto simp: returns_def) metis

end

locale logged_sealed_reader = sealed_reader site foreign prepare chain seal read
  for site :: read_site and foreign :: string
    and prepare :: "(handle_event list \<times> 'w) bcrypt \<Rightarrow> 'c \<Rightarrow> (handle_event list \<times> 'w, string) cpp"
    and chain :: "'c \<Rightarrow> sealed_chain" and seal :: "'c \<Rightarrow> string"
    and read :: "(nat \<Rightarrow> bool) \<Rightarrow> (handle_event list \<times> 'w) bcrypt \<Rightarrow> 'c \<Rightarrow> (handle_event list \<times> 'w) protected_calls \<Rightarrow>
      (handle_event list \<times> 'w, string) cpp" +
  assumes prepare_quiet: "prepare (log_bcrypt bc) c (log, w) = (r, (log', w')) \<Longrightarrow> log' = log"
begin

lemma read_closes:
  assumes "read room (log_bcrypt bc) c (logged_calls calls) (log, w) = (r, (log', w'))" and "log_holds [] log"
  shows "log_holds [] log'"
proof -
  let ?body = "\<lambda>canonical. with_held (logged_calls calls)
      (held_read site room (log_bcrypt bc) (logged_calls calls) (chain c) canonical (seal c))"
  have "triple (\<lambda>s. log_holds [] (fst s)) (prepare (log_bcrypt bc) c) (\<lambda>_ s. log_holds [] (fst s)) (\<lambda>s. log_holds [] (fst s))"
    by (rule tripleI) (auto dest!: prepare_quiet)
  moreover have "triple (\<lambda>s. log_holds [] (fst s)) (?body x) (\<lambda>_ s. log_holds [] (fst s)) (\<lambda>s. log_holds [] (fst s))" for x
    by (rule tripleI) (auto dest!: with_held_holds)
  ultimately have "triple (\<lambda>s. log_holds [] (fst s)) (read room (log_bcrypt bc) c (logged_calls calls))
      (\<lambda>_ s. log_holds [] (fst s)) (\<lambda>s. log_holds [] (fst s))"
    unfolding read_is sealed_read_def reader_handlers_def catch_chain_def
    by (intro triple_catchM [OF triple_bindM]) (auto intro!: triple_intros split: exn.splits)
  from tripleD [OF this, of "(log, w)"] assms show ?thesis by (cases r) fastforce+
qed

end

end
