(* ===== verification/Windows_Session.thy ===== *)
theory Windows_Session
  imports Protected_Read
begin

text \<open>
  The session of the Windows adapter (\<^verbatim>\<open>WindowsSession\<close> and \<^verbatim>\<open>WindowsSnapshotSource\<close> in
  \<^verbatim>\<open>windows_snapshot.cpp\<close>) over an arbitrary implementation of \<^verbatim>\<open>NativeCalls\<close>.

  The members of a session are the record \<open>session_state\<close>; a method is a computation on that record
  and the world.  The audit is shared between the source and its sessions: the record \<open>adapter\<close>
  holds it together with the states of the sessions that were opened, and \<open>at_session\<close> runs a method
  on one of them.
\<close>

section \<open>State\<close>

record verified =
  v_handle :: handle
  v_expected :: metadata
  v_object :: string
  v_profile :: string
  v_parent_id :: string

record child =
  ch_handle :: handle
  ch_component :: wstring
  ch_initial :: metadata

record session_state =
  se_audit :: snapshot_audit
  se_handles :: "handle list"
  se_verified :: "verified list"
  se_directory :: handle
  se_initial_inventory_set :: bool
  se_initial_inventory :: "(string, native_entry) std_map"
  se_children :: "(string, child) std_map"

record adapter =
  ad_audit :: snapshot_audit
  ad_sessions :: "session_state list"

type_synonym ('w, 'a) session_op = "(session_state \<times> 'w, 'a) cpp"

definition note_identity :: "identity_observation \<Rightarrow> ('w, unit) session_op" where
  "note_identity ob = localM (\<lambda>s. s\<lparr>se_audit := (se_audit s)\<lparr>au_identities := au_identities (se_audit s) @ [ob]\<rparr>\<rparr>)"

text \<open>\<^verbatim>\<open>audit_inventory\<close> is a reference to the last inventory of the audit.\<close>

fun on_last :: "('a \<Rightarrow> 'a) \<Rightarrow> 'a list \<Rightarrow> 'a list" where
  "on_last f [] = []"
| "on_last f [x] = [f x]"
| "on_last f (x # xs) = x # on_last f xs"

definition note_inventory :: "(inventory_observation \<Rightarrow> inventory_observation) \<Rightarrow> ('w, unit) session_op" where
  "note_inventory f =
     localM (\<lambda>s. s\<lparr>se_audit := (se_audit s)\<lparr>au_inventories := on_last f (au_inventories (se_audit s))\<rparr>\<rparr>)"

section \<open>Methods\<close>

definition require_parent_binding :: "metadata \<Rightarrow> metadata \<Rightarrow> wstring \<Rightarrow> string \<Rightarrow> string \<Rightarrow> exn + unit" where
  "require_parent_binding actual parent component ob profile =
     guardE (\<not> (m_volume_guid_path actual \<noteq> m_volume_guid_path parent \<or> m_volume_serial actual \<noteq> m_volume_serial parent \<or>
         m_final_path actual \<noteq> child_final_path (m_final_path parent) component))
       (observe Err_identity_drift ob profile ''parent-binding'' ''held node does not bind to held parent'')"

definition verify_node :: "'w native_calls \<Rightarrow> verified \<Rightarrow> string \<Rightarrow> ('w, unit) session_op" where
  "verify_node calls node step =
     bindM (outerM (nc_inspect calls (v_handle node) (v_object node) (v_profile node) step)) (\<lambda>actual.
     bindM (note_identity \<lparr>io_object = v_object node, io_profile = v_profile node, io_step = step,
        io_parent_id = v_parent_id node, io_observed = actual\<rparr>) (\<lambda>_.
     bindM (liftM (require_identity actual (v_expected node) (v_object node) (v_profile node) step)) (\<lambda>_.
     guardM (\<not> \<not> m_directory actual)
       (observe Err_identity_drift (v_object node) (v_profile node) step ''expected held directory''))))"

text \<open>\<^verbatim>\<open>handles_.push_back(h)\<close>: the vector may have to grow, which \<open>room\<close> decides from the state of the world and
  the number of handles in it.  When it cannot grow the call throws and the vector is unchanged: the
  handle that was just opened is then in no vector, and no code closes it.\<close>

definition push_handle :: "('w \<Rightarrow> nat \<Rightarrow> bool) \<Rightarrow> handle \<Rightarrow> ('w, unit) session_op" where
  "push_handle room h = (\<lambda>(s, w).
     if room w (length (se_handles s)) then (Inr (), (s\<lparr>se_handles := se_handles s @ [h]\<rparr>, w))
     else (Inl (Std Bad_alloc ''bad allocation''), (s, w)))"

lemma push_handle_ok [run_iff]:
  "push_handle room h (s, w) = (Inr u, sw) \<longleftrightarrow>
     room w (length (se_handles s)) \<and> sw = (s\<lparr>se_handles := se_handles s @ [h]\<rparr>, w)"
  by (auto simp: push_handle_def)

lemma push_handle_fails [raise_iff]:
  "push_handle room h (s, w) = (Inl e, sw) \<longleftrightarrow>
     \<not> room w (length (se_handles s)) \<and> e = Std Bad_alloc ''bad allocation'' \<and> sw = (s, w)"
  by (auto simp: push_handle_def)

definition push_verified :: "verified \<Rightarrow> ('w, unit) session_op" where
  "push_verified v = localM (\<lambda>s. s\<lparr>se_verified := se_verified s @ [v]\<rparr>)"

text \<open>The body of the loop over the ancestors, and the loop: it returns the last handle and its identity.\<close>

fun open_ancestors ::
  "('w \<Rightarrow> nat \<Rightarrow> bool) \<Rightarrow> text_calls \<Rightarrow> 'w native_calls \<Rightarrow> expected_node list \<Rightarrow> handle \<Rightarrow> metadata \<Rightarrow> ('w, handle \<times> metadata) session_op"
where
  "open_ancestors room tc calls [] current parent = returnM (current, parent)"
| "open_ancestors room tc calls (ancestor # rest) current parent =
     bindM (liftM (utf8 tc (x_component ancestor))) (\<lambda>name.
     bindM (outerM (nc_open_relative calls current (x_component ancestor) ancestor_identity_spec name
        general_identity_profile)) (\<lambda>h.
     bindM (push_handle room h) (\<lambda>_.
     bindM (liftM (utf8 tc (x_component ancestor))) (\<lambda>ob.
     bindM (liftM (identity_key tc parent)) (\<lambda>parent_id.
     let node = \<lparr>v_handle = h, v_expected = x_identity ancestor, v_object = ob, v_profile = general_identity_profile,
                 v_parent_id = parent_id\<rparr> in
     bindM (push_verified node) (\<lambda>_.
     bindM (verify_node calls node ''ancestor-identity'') (\<lambda>_.
     bindM (liftM (utf8 tc (x_component ancestor))) (\<lambda>ob2.
     bindM (liftM (require_parent_binding (x_identity ancestor) parent (x_component ancestor) ob2 general_identity_profile)) (\<lambda>_.
     open_ancestors room tc calls rest h (x_identity ancestor))))))))))"

definition initialize :: "('w \<Rightarrow> nat \<Rightarrow> bool) \<Rightarrow> text_calls \<Rightarrow> snapshot_config \<Rightarrow> 'w native_calls \<Rightarrow> ('w, unit) session_op" where
  "initialize room tc config calls =
     bindM (outerM (nc_open_root calls (sc_volume_root_path config) root_identity_spec)) (\<lambda>root.
     bindM (push_handle room root) (\<lambda>_.
     let root_node = \<lparr>v_handle = root, v_expected = sc_root_identity config, v_object = ''volume-root'',
                      v_profile = general_identity_profile, v_parent_id = []\<rparr> in
     bindM (push_verified root_node) (\<lambda>_.
     bindM (verify_node calls root_node ''root-identity'') (\<lambda>_.
     bindM (open_ancestors room tc calls (sc_ancestors config) root (sc_root_identity config)) (\<lambda>(current, parent).
     bindM (outerM (nc_open_relative calls current (x_component (sc_state_directory config)) snapshot_directory_spec
        ''state/'' directory_profile)) (\<lambda>dir.
     bindM (push_handle room dir) (\<lambda>_.
     bindM (localM (\<lambda>s. s\<lparr>se_directory := dir\<rparr>)) (\<lambda>_.
     bindM (liftM (identity_key tc parent)) (\<lambda>parent_id.
     let node = \<lparr>v_handle = dir, v_expected = x_identity (sc_state_directory config), v_object = ''state/'',
                 v_profile = directory_profile, v_parent_id = parent_id\<rparr> in
     bindM (push_verified node) (\<lambda>_.
     bindM (verify_node calls node ''state-directory-identity'') (\<lambda>_.
     liftM (require_parent_binding (x_identity (sc_state_directory config)) parent
        (x_component (sc_state_directory config)) ''state/'' directory_profile))))))))))))"

definition directory_identity :: "text_calls \<Rightarrow> snapshot_config \<Rightarrow> 'w native_calls \<Rightarrow> ('w, string) session_op" where
  "directory_identity tc config calls =
     bindM (readM se_verified) (\<lambda>nodes.
     bindM (forM nodes (\<lambda>node. verify_node calls node ''held-identity'')) (\<lambda>_.
     liftM (identity_key tc (x_identity (sc_state_directory config)))))"

text \<open>The entry that \<^verbatim>\<open>inventory\<close> returns for a native entry.\<close>

definition entry_of :: "string \<Rightarrow> native_entry \<Rightarrow> entry" where
  "entry_of key native = \<lparr>en_name = ne_name native,
     en_type = (if (ne_attributes native AND FILE_ATTRIBUTE_DIRECTORY) \<noteq> 0 then ''directory'' else ''regular''),
     en_file_id = file_id_hex (ne_file_id native), en_parent_id = key,
     en_reparse = ((ne_attributes native AND FILE_ATTRIBUTE_REPARSE_POINT) \<noteq> 0 \<or> ne_reparse_tag native \<noteq> 0)\<rparr>"

text \<open>The loop over the entries of a page, on the local variables \<^verbatim>\<open>result\<close> and \<^verbatim>\<open>observed\<close>.\<close>

fun page_entries ::
  "text_calls \<Rightarrow> snapshot_config \<Rightarrow> native_entry list \<Rightarrow> entry list \<Rightarrow> (string, native_entry) std_map \<Rightarrow>
   ('w, entry list \<times> (string, native_entry) std_map) session_op"
where
  "page_entries tc config [] result observed = returnM (result, observed)"
| "page_entries tc config (native # natives) result observed =
     (if is_dot (ne_name native) then page_entries tc config natives result observed
      else
        bindM (note_inventory (\<lambda>iv. iv\<lparr>iv_entries := iv_entries iv @ [native]\<rparr>)) (\<lambda>_.
        bindM (guardM (\<not> (ne_attributes native AND FILE_ATTRIBUTE_DEVICE) \<noteq> 0)
          (observe Err_identity_drift (ne_name native) child_profile ''enumeration-type''
             ''device-marked state child is not a regular file'')) (\<lambda>_.
        bindM (guardM (\<not> max_entries \<le> length result)
          (observe Err_incomplete ''state/'' directory_profile ''enumeration-limit'' ''state entry limit exceeded'')) (\<lambda>_.
        bindM (guardM (\<not> (ne_name native = [] \<or> map_contains observed (ne_name native)))
          (observe Err_malformed (ne_name native) directory_profile ''enumeration-entry'' ''empty or duplicate name'')) (\<lambda>_.
        bindM (liftM (identity_key tc (x_identity (sc_state_directory config)))) (\<lambda>key.
        page_entries tc config natives (result @ [entry_of key native])
          (map_emplace (ne_name native) native observed)))))))"

text \<open>The loop over the pages: the first argument counts the pages that may still be asked for.\<close>

fun inventory_pages ::
  "nat \<Rightarrow> nat \<Rightarrow> text_calls \<Rightarrow> snapshot_config \<Rightarrow> 'w native_calls \<Rightarrow> entry list \<Rightarrow> (string, native_entry) std_map \<Rightarrow>
   ('w, bool \<times> entry list \<times> (string, native_entry) std_map) session_op"
where
  "inventory_pages 0 page_number tc config calls result observed = returnM (False, result, observed)"
| "inventory_pages (Suc left) page_number tc config calls result observed =
     bindM (readM se_directory) (\<lambda>dir.
     bindM (outerM (nc_next_page calls dir (page_number = 0))) (\<lambda>page.
     if dp_end page then returnM (True, result, observed)
     else
       bindM (note_inventory (\<lambda>iv. iv\<lparr>iv_pages := iv_pages iv + 1\<rparr>)) (\<lambda>_.
       bindM (guardM (\<not> dp_entries page = [])
         (observe Err_incomplete ''state/'' directory_profile ''enumeration-page'' ''empty data page'')) (\<lambda>_.
       bindM (page_entries tc config (dp_entries page) result observed) (\<lambda>(result', observed').
       inventory_pages left (page_number + 1) tc config calls result' observed')))))"

definition inventory :: "text_calls \<Rightarrow> snapshot_config \<Rightarrow> 'w native_calls \<Rightarrow> ('w, entry list) session_op" where
  "inventory tc config calls =
     bindM (directory_identity tc config calls) (\<lambda>_.
     bindM (localM (\<lambda>s. s\<lparr>se_audit := (se_audit s)\<lparr>au_inventories := au_inventories (se_audit s) @
        [\<lparr>iv_phase = (if se_initial_inventory_set s then ''final'' else ''initial''), iv_entries = [], iv_pages = 0,
          iv_explicit_end = False\<rparr>]\<rparr>\<rparr>)) (\<lambda>_.
     bindM (inventory_pages max_pages 0 tc config calls [] []) (\<lambda>(ended, result, observed).
     bindM (guardM (\<not> \<not> ended)
       (observe Err_incomplete ''state/'' directory_profile ''enumeration-limit'' ''no explicit enumeration end'')) (\<lambda>_.
     bindM (note_inventory (\<lambda>iv. iv\<lparr>iv_explicit_end := True\<rparr>)) (\<lambda>_.
     bindM (localM (\<lambda>s. if \<not> se_initial_inventory_set s
        then s\<lparr>se_initial_inventory := observed, se_initial_inventory_set := True\<rparr> else s)) (\<lambda>_.
     returnM result))))))"

text \<open>The body of \<^verbatim>\<open>hold_child\<close> up to its last statement, which records the child.\<close>

definition open_child ::
  "('w \<Rightarrow> nat \<Rightarrow> bool) \<Rightarrow> text_calls \<Rightarrow> snapshot_config \<Rightarrow> 'w native_calls \<Rightarrow> string \<Rightarrow> ('w, child) session_op"
where
  "open_child room tc config calls name =
     bindM (readM (\<lambda>s. \<not> se_initial_inventory_set s \<or> \<not> map_contains (se_initial_inventory s) name \<or>
        map_contains (se_children s) name)) (\<lambda>refused.
     bindM (guardM (\<not> refused)
       (observe Err_incomplete name child_profile ''hold-child'' ''child absent from initial inventory or already held'')) (\<lambda>_.
     bindM (guardM (map_contains (sc_child_sddl config) name)
       (observe Err_unexpected_entry name child_profile ''hold-child'' ''child absent from exact descriptor manifest'')) (\<lambda>_.
     bindM (catch_std (liftM (wide_component tc name))
       (\<lambda>what. throwM (observe Err_malformed name child_profile ''hold-child-name'' what))) (\<lambda>component.
     bindM (readM se_directory) (\<lambda>dir.
     bindM (outerM (nc_open_relative calls dir component snapshot_child_spec name child_profile)) (\<lambda>h.
     bindM (push_handle room h) (\<lambda>_.
     bindM (outerM (nc_inspect calls h name child_profile ''hold-child-identity'')) (\<lambda>actual.
     bindM (liftM (identity_key tc (x_identity (sc_state_directory config)))) (\<lambda>key.
     bindM (note_identity \<lparr>io_object = name, io_profile = child_profile, io_step = ''hold-child-identity'',
        io_parent_id = key, io_observed = actual\<rparr>) (\<lambda>_.
     bindM (liftM (at_or_throw (sc_child_sddl config) name)) (\<lambda>sddl.
     bindM (liftM (require_child actual (x_identity (sc_state_directory config)) component sddl name ''hold-child-identity'')) (\<lambda>_.
     bindM (readM se_initial_inventory) (\<lambda>initial.
     bindM (liftM (at_or_throw initial name)) (\<lambda>native.
     bindM (guardM (\<not> file_id_hex (m_file_id actual) \<noteq> file_id_hex (ne_file_id native))
       (observe Err_identity_drift name child_profile ''hold-child-identity'' ''opened child differs from directory entry'')) (\<lambda>_.
     returnM \<lparr>ch_handle = h, ch_component = component, ch_initial = actual\<rparr>)))))))))))))))"

definition hold_child ::
  "('w \<Rightarrow> nat \<Rightarrow> bool) \<Rightarrow> text_calls \<Rightarrow> snapshot_config \<Rightarrow> 'w native_calls \<Rightarrow> string \<Rightarrow> ('w, unit) session_op"
where
  "hold_child room tc config calls name =
     bindM (open_child room tc config calls name) (\<lambda>c.
     localM (\<lambda>s. s\<lparr>se_children := map_emplace name c (se_children s)\<rparr>))"

definition find_child :: "string \<Rightarrow> ('w, child) session_op" where
  "find_child name = bindM (readM (\<lambda>s. map_at (se_children s) name)) (\<lambda>found.
     case found of Some c \<Rightarrow> returnM c
     | None \<Rightarrow> throwM (observe Err_incomplete name child_profile ''held-child'' ''child handle is not held''))"

definition held_identity :: "text_calls \<Rightarrow> snapshot_config \<Rightarrow> 'w native_calls \<Rightarrow> string \<Rightarrow> ('w, string) session_op" where
  "held_identity tc config calls name =
     bindM (find_child name) (\<lambda>c.
     bindM (outerM (nc_inspect calls (ch_handle c) name child_profile ''held-child-identity'')) (\<lambda>actual.
     bindM (liftM (identity_key tc (x_identity (sc_state_directory config)))) (\<lambda>key.
     bindM (note_identity \<lparr>io_object = name, io_profile = child_profile, io_step = ''held-child-identity'',
        io_parent_id = key, io_observed = actual\<rparr>) (\<lambda>_.
     bindM (liftM (at_or_throw (sc_child_sddl config) name)) (\<lambda>sddl.
     bindM (liftM (require_child actual (x_identity (sc_state_directory config)) (ch_component c) sddl name
        ''held-child-identity'')) (\<lambda>_.
     bindM (liftM (require_identity actual (ch_initial c) name child_profile ''held-child-identity'')) (\<lambda>_.
     returnM (file_id_hex (m_file_id actual)))))))))"

definition read_child :: "'w native_calls \<Rightarrow> string \<Rightarrow> ('w, string) session_op" where
  "read_child calls name = bindM (find_child name) (\<lambda>c. outerM (nc_read_all calls (ch_handle c) max_child_bytes name))"

text \<open>The destructor closes the handles from the last to the first.\<close>

definition close_session :: "'w native_calls \<Rightarrow> session_state \<Rightarrow> 'w \<Rightarrow> 'w" where
  "close_session calls s = fold (nc_close calls) (rev (se_handles s))"

section \<open>The source\<close>

definition at_session :: "nat \<Rightarrow> ('w, 'a) session_op \<Rightarrow> (adapter \<times> 'w, 'a) cpp" where
  "at_session i m = (\<lambda>(ad, w). case m ((ad_sessions ad ! i)\<lparr>se_audit := ad_audit ad\<rparr>, w) of (r, (s, w')) \<Rightarrow>
     (r, (ad\<lparr>ad_audit := se_audit s, ad_sessions := (ad_sessions ad)[i := s]\<rparr>, w')))"

definition windows_session ::
  "('w \<Rightarrow> nat \<Rightarrow> bool) \<Rightarrow> text_calls \<Rightarrow> snapshot_config \<Rightarrow> 'w native_calls \<Rightarrow> nat \<Rightarrow> (adapter \<times> 'w) snapshot_session"
where
  "windows_session room tc config calls i = \<lparr>
     ss_directory_identity = at_session i (directory_identity tc config calls),
     ss_inventory = at_session i (inventory tc config calls),
     ss_hold_child = (\<lambda>name. at_session i (hold_child room tc config calls name)),
     ss_held_identity = (\<lambda>name. at_session i (held_identity tc config calls name)),
     ss_read_child = (\<lambda>name. at_session i (read_child calls name)),
     ss_destroy = (\<lambda>(ad, w). (ad, close_session calls (ad_sessions ad ! i) w))\<rparr>"

definition new_session :: "snapshot_audit \<Rightarrow> session_state" where
  "new_session audit = \<lparr>se_audit = audit, se_handles = [], se_verified = [], se_directory = null_handle,
     se_initial_inventory_set = False, se_initial_inventory = [], se_children = []\<rparr>"

text \<open>The part of \<^verbatim>\<open>open\<close> from \<^verbatim>\<open>make_unique\<close> on: when \<^verbatim>\<open>initialize\<close> throws, the new session is destroyed.\<close>

definition start_session ::
  "('w \<Rightarrow> nat \<Rightarrow> bool) \<Rightarrow> text_calls \<Rightarrow> snapshot_config \<Rightarrow> 'w native_calls \<Rightarrow> (adapter \<times> 'w, (adapter \<times> 'w) snapshot_session option) cpp"
where
  "start_session room tc config calls = (\<lambda>(ad, w).
     case initialize room tc config calls (new_session (ad_audit ad), w) of
       (Inr u, (s, w')) \<Rightarrow> (Inr (Some (windows_session room tc config calls (length (ad_sessions ad)))),
          (ad\<lparr>ad_audit := se_audit s, ad_sessions := ad_sessions ad @ [s]\<rparr>, w'))
     | (Inl e, (s, w')) \<Rightarrow> (Inl e, (ad\<lparr>ad_audit := se_audit s\<rparr>, close_session calls s w')))"

definition open_source ::
  "('w \<Rightarrow> nat \<Rightarrow> bool) \<Rightarrow> text_calls \<Rightarrow> snapshot_config \<Rightarrow> 'w native_calls \<Rightarrow> string \<Rightarrow>
   (adapter \<times> 'w, (adapter \<times> 'w) snapshot_session option) cpp"
where
  "open_source room tc config calls profile =
     bindM (guardM (\<not> profile \<noteq> directory_profile)
       (observe Err_binding_failure ''state/'' profile ''snapshot-profile'' ''unsupported snapshot profile'')) (\<lambda>_.
     bindM (localM (\<lambda>ad. ad\<lparr>ad_audit := (ad_audit ad)\<lparr>au_identities := [], au_inventories := []\<rparr>\<rparr>)) (\<lambda>_.
     start_session room tc config calls))"

definition windows_source ::
  "('w \<Rightarrow> nat \<Rightarrow> bool) \<Rightarrow> text_calls \<Rightarrow> snapshot_config \<Rightarrow> 'w native_calls \<Rightarrow> (adapter \<times> 'w) snapshot_source"
where
  "windows_source room tc config calls = \<lparr>so_open = open_source room tc config calls\<rparr>"

text \<open>The constructor: its checks, and the adapter it starts with.\<close>

definition required_children :: "string list" where
  "required_children = [''lock.bin'', ''state.json'', ''witness.txt'']"

definition make_source :: "snapshot_config \<Rightarrow> bool \<Rightarrow> bool \<Rightarrow> exn + adapter" where
  "make_source config has_calls system_backend =
     bindE (guardE (\<not> (\<not> has_calls \<or> length (sc_volume_root_path config) \<noteq> 3 \<or>
         sc_volume_root_path config ! 1 \<noteq> wide_char (CHR '':'') \<or> sc_volume_root_path config ! 2 \<noteq> wide_backslash \<or>
         length (sc_ancestors config) \<noteq> 2 \<or> \<not> valid_component (x_component (sc_ancestors config ! 0)) \<or>
         \<not> valid_component (x_component (sc_ancestors config ! 1)) \<or>
         \<not> valid_component (x_component (sc_state_directory config)) \<or> m_final_path (sc_root_identity config) = [] \<or>
         m_final_path (x_identity (sc_state_directory config)) = []))
       (Std Invalid_argument ''incomplete reviewed snapshot configuration'')) (\<lambda>_.
     bindE (guardE (\<not> (length (sc_child_sddl config) \<noteq> 3 \<or>
         list_ex (\<lambda>name. \<not> map_contains (sc_child_sddl config) name) required_children \<or>
         list_ex (\<lambda>name. map_at (sc_child_sddl config) name = Some []) required_children))
       (Std Invalid_argument ''exact three-child descriptor manifest is required'')) (\<lambda>_.
     Inr \<lparr>ad_audit = \<lparr>au_system_backend = system_backend, au_identities = [], au_inventories = []\<rparr>, ad_sessions = []\<rparr>))"

definition expected_directory_id :: "text_calls \<Rightarrow> snapshot_config \<Rightarrow> exn + string" where
  "expected_directory_id tc config = identity_key tc (x_identity (sc_state_directory config))"

section \<open>A well behaved source\<close>

definition proper_calls :: "'w native_calls \<Rightarrow> bool" where
  "proper_calls calls \<longleftrightarrow> (\<forall>path spec. raises_only proper_exn (nc_open_root calls path spec)) \<and>
     (\<forall>parent component spec ob profile. raises_only proper_exn (nc_open_relative calls parent component spec ob profile)) \<and>
     (\<forall>h ob profile step. raises_only proper_exn (nc_inspect calls h ob profile step)) \<and>
     (\<forall>h restart. raises_only proper_exn (nc_next_page calls h restart)) \<and>
     (\<forall>h n ob. raises_only proper_exn (nc_read_all calls h n ob))"

lemma proper_callsD [raises_intros]:
  assumes "proper_calls calls"
  shows "raises_only proper_exn (nc_open_root calls path rspec)"
    "raises_only proper_exn (nc_open_relative calls parent component spec ob profile)"
    "raises_only proper_exn (nc_inspect calls h ob profile step)"
    "raises_only proper_exn (nc_next_page calls h restart)" "raises_only proper_exn (nc_read_all calls h n ob)"
  using assms by (auto simp: proper_calls_def)

lemma utf8_proper [raises_intros]: "raises_only proper_exn (liftM (utf8 tc w))"
  by (rule raises_only_liftM) (auto dest: utf8_raises)

lemma identity_key_proper [raises_intros]: "raises_only proper_exn (liftM (identity_key tc m))"
  by (rule raises_only_liftM) (auto simp: identity_key_def raise_iff dest!: utf8_raises)

lemma wide_component_raises: "wide_component tc name = Inl e \<Longrightarrow> std_only e"
  by (auto simp: wide_component_def raise_iff Let_def split: prod.splits)

lemma checks_proper [raises_intros]:
  "raises_only proper_exn (liftM (require_identity a x ob pr st))"
  "raises_only proper_exn (liftM (require_child a m c sddl ob st))"
  "raises_only proper_exn (liftM (require_parent_binding a m c ob pr))"
  by (auto intro!: raises_only_liftM simp: require_identity_def require_child_def require_parent_binding_def raise_iff)

lemma notes_proper [raises_intros]:
  "raises_only P (note_identity ob)" "raises_only P (note_inventory f)" "raises_only P (push_verified v)"
  by (simp_all add: note_identity_def note_inventory_def push_verified_def raises_intros)

lemma push_handle_proper [raises_intros]: "raises_only proper_exn (push_handle room h)"
  by (rule raises_onlyI) (auto simp: push_handle_def split: if_splits)

lemma verify_node_proper [raises_intros]: "proper_calls calls \<Longrightarrow> raises_only proper_exn (verify_node calls node step)"
  unfolding verify_node_def by (auto intro!: raises_intros)

lemma open_ancestors_proper [raises_intros]:
  "proper_calls calls \<Longrightarrow> raises_only proper_exn (open_ancestors room tc calls ancestors current parent)"
  by (induction room tc calls ancestors current parent rule: open_ancestors.induct) (auto intro!: raises_intros simp: Let_def)

lemma initialize_proper [raises_intros]: "proper_calls calls \<Longrightarrow> raises_only proper_exn (initialize room tc config calls)"
  unfolding initialize_def Let_def by (auto intro!: raises_intros split: prod.splits)

lemma directory_identity_proper [raises_intros]:
  "proper_calls calls \<Longrightarrow> raises_only proper_exn (directory_identity tc config calls)"
  unfolding directory_identity_def by (auto intro!: raises_intros)

lemma page_entries_proper [raises_intros]: "raises_only proper_exn (page_entries tc config natives result observed)"
  by (induction tc config natives result observed rule: page_entries.induct) (auto intro!: raises_intros)

lemma inventory_pages_proper [raises_intros]:
  "proper_calls calls \<Longrightarrow> raises_only proper_exn (inventory_pages left n tc config calls result observed)"
  by (induction left n tc config calls result observed rule: inventory_pages.induct)
    (auto intro!: raises_intros split: prod.splits)

lemma inventory_proper [raises_intros]: "proper_calls calls \<Longrightarrow> raises_only proper_exn (inventory tc config calls)"
  unfolding inventory_def by (auto intro!: raises_intros split: prod.splits)

lemma hold_child_proper [raises_intros]: "proper_calls calls \<Longrightarrow> raises_only proper_exn (hold_child room tc config calls name)"
  unfolding hold_child_def open_child_def
  by (auto intro!: raises_intros raises_only_mono [OF catch_std_typed typed_proper] raises_only_liftM
      dest: wide_component_raises)

lemma find_child_proper [raises_intros]: "raises_only proper_exn (find_child name)"
  unfolding find_child_def by (auto intro!: raises_intros split: option.splits)

lemma held_identity_proper [raises_intros]:
  "proper_calls calls \<Longrightarrow> raises_only proper_exn (held_identity tc config calls name)"
  unfolding held_identity_def by (auto intro!: raises_intros)

lemma read_child_proper [raises_intros]: "proper_calls calls \<Longrightarrow> raises_only proper_exn (read_child calls name)"
  unfolding read_child_def by (auto intro!: raises_intros)

lemma at_session_proper [raises_intros]: "raises_only P m \<Longrightarrow> raises_only P (at_session i m)"
  unfolding at_session_def by (rule raises_onlyI) (auto split: prod.splits dest: raises_onlyD)

lemma start_session_proper: "proper_calls calls \<Longrightarrow> raises_only proper_exn (start_session room tc config calls)"
  unfolding start_session_def
  by (rule raises_onlyI) (auto split: prod.splits sum.splits dest: raises_onlyD [OF initialize_proper])

lemma windows_session_proper: "proper_calls calls \<Longrightarrow> proper_session (windows_session room tc config calls i)"
  by (simp add: proper_session_def windows_session_def raises_intros)

lemma open_source_some:
  "open_source room tc config calls profile w = (Inr (Some s), w') \<Longrightarrow> \<exists>i. s = windows_session room tc config calls i"
  by (auto simp: open_source_def run_iff start_session_def split: prod.splits sum.splits)

lemma open_source_proper: "proper_calls calls \<Longrightarrow> raises_only proper_exn (open_source room tc config calls profile)"
  unfolding open_source_def by (auto intro!: raises_intros start_session_proper)

lemma windows_source_proper: "proper_calls calls \<Longrightarrow> proper_source (windows_source room tc config calls)"
  unfolding proper_source_def windows_source_def
  by (simp add: open_source_proper) (metis open_source_some windows_session_proper)

lemma system_calls_proper:
  assumes "fills_within sys"
  shows "proper_calls (system_native_calls sys tc)"
  unfolding proper_calls_def system_native_calls_def
  by (auto intro!: raises_only_mono [OF _ typed_proper] open_root_raises open_relative_raises inspect_raises
      next_page_raises read_all_raises assms)

section \<open>What an inventory contains\<close>

lemma on_last_snoc [simp]: "on_last f (xs @ [x]) = xs @ [f x]"
  by (induction f xs rule: on_last.induct) simp_all

definition children_of :: "native_entry list \<Rightarrow> native_entry list" where
  "children_of natives = filter (\<lambda>n. \<not> is_dot (ne_name n)) natives"

lemma children_of_simps [simp]:
  "children_of [] = []"
  "children_of (n # ns) = (if is_dot (ne_name n) then children_of ns else n # children_of ns)"
  "children_of (xs @ ys) = children_of xs @ children_of ys"
  by (simp_all add: children_of_def)

definition good_native :: "native_entry \<Rightarrow> bool" where
  "good_native n \<longleftrightarrow> ne_name n \<noteq> [] \<and> (ne_attributes n AND FILE_ATTRIBUTE_DEVICE) = 0"

text \<open>The inventory of the audit that is being filled.\<close>

definition auditing :: "session_state \<Rightarrow> inventory_observation list \<Rightarrow> inventory_observation \<Rightarrow> session_state" where
  "auditing s ivs iv = s\<lparr>se_audit := (se_audit s)\<lparr>au_inventories := ivs @ [iv]\<rparr>\<rparr>"

lemma note_inventory_auditing [run_iff]:
  "note_inventory f (auditing s ivs iv, w) = (Inr u, sw) \<longleftrightarrow> sw = (auditing s ivs (f iv), w)"
  by (auto simp: note_inventory_def auditing_def run_iff)

lemma page_entries_ok:
  assumes "page_entries tc config natives result observed (auditing s ivs iv, w) = (Inr (r, o'), (s', w'))"
    and "identity_key tc (x_identity (sc_state_directory config)) = Inr key"
    and "length result \<le> max_entries"
  shows "r = result @ map (entry_of key) (children_of natives) \<and>
    o' = sorted_map.fill (map (\<lambda>n. (ne_name n, n)) (children_of natives)) observed \<and> w' = w \<and>
    s' = auditing s ivs (iv\<lparr>iv_entries := iv_entries iv @ children_of natives\<rparr>) \<and>
    length r \<le> max_entries \<and> list_all good_native (children_of natives) \<and>
    distinct (map ne_name (children_of natives)) \<and>
    set (map ne_name (children_of natives)) \<inter> fst ` set observed = {}"
  using assms
proof (induction tc config natives result observed arbitrary: iv rule: page_entries.induct)
  case (1 tc config result observed)
  then show ?case by (auto simp: run_iff)
next
  case (2 tc config native natives result observed)
  show ?case
  proof (cases "is_dot (ne_name native)")
    case False
    let ?iv = "iv\<lparr>iv_entries := iv_entries iv @ [native]\<rparr>"
    from "2.prems" False have g: "good_native native" "length result < max_entries" "ne_name native \<notin> fst ` set observed"
      and run: "page_entries tc config natives (result @ [entry_of key native]) (map_emplace (ne_name native) native observed)
        (auditing s ivs ?iv, w) = (Inr (r, o'), (s', w'))"
      by (auto simp: run_iff good_native_def map_contains_def map_of_eq_None_iff not_le)
    have c: "children_of (native # natives) = native # children_of natives" using False by simp
    have "length (result @ [entry_of key native]) \<le> max_entries" using g(2) by simp
    note ih = "2.IH"(2) [OF False run "2.prems"(2) this, unfolded map_emplace_keys]
    then show ?thesis unfolding c using g(1,3) by auto
  next
    case True
    with "2.prems"(1) have "page_entries tc config natives result observed (auditing s ivs iv, w) = (Inr (r, o'), (s', w'))"
      by simp
    from "2.IH"(1) [OF True this "2.prems"(2,3)] True show ?thesis by auto
  qed
qed

text \<open>The pages that the directory answered, up to an explicit end.\<close>

fun answered_pages :: "'w native_calls \<Rightarrow> handle \<Rightarrow> bool \<Rightarrow> directory_page list \<Rightarrow> 'w \<Rightarrow> 'w \<Rightarrow> bool" where
  "answered_pages calls dir restart [] w w' \<longleftrightarrow>
     (\<exists>page. nc_next_page calls dir restart w = (Inr page, w') \<and> dp_end page)"
| "answered_pages calls dir restart (page # pages) w w' \<longleftrightarrow> \<not> dp_end page \<and> dp_entries page \<noteq> [] \<and>
     (\<exists>w1. nc_next_page calls dir restart w = (Inr page, w1) \<and> answered_pages calls dir False pages w1 w')"

definition all_children :: "directory_page list \<Rightarrow> native_entry list" where
  "all_children pages = children_of (concat (map dp_entries pages))"

definition named :: "native_entry list \<Rightarrow> (string \<times> native_entry) list" where
  "named ns = map (\<lambda>n. (ne_name n, n)) ns"

lemma fill_append: "sorted_map.fill (xs @ ys) m = sorted_map.fill ys (sorted_map.fill xs m)"
  by (induction xs arbitrary: m) simp_all

lemma fill_keys: "fst ` set (sorted_map.fill kvs m) = fst ` set kvs \<union> fst ` set m"
  by (induction kvs arbitrary: m) (auto simp: map_emplace_keys)

lemma fst_named: "fst ` set (named ns) = set (map ne_name ns)"
  by (force simp: named_def)

lemma se_directory_auditing [simp]: "se_directory (auditing s ivs iv) = se_directory s"
  by (simp add: auditing_def)

lemma inventory_pages_ok:
  assumes "inventory_pages left n tc config calls result observed (auditing s ivs iv, w) = (Inr (True, r, o'), (s', w'))"
    and "identity_key tc (x_identity (sc_state_directory config)) = Inr key"
    and "length result \<le> max_entries"
  shows "\<exists>pages. length pages < left \<and> answered_pages calls (se_directory s) (n = 0) pages w w' \<and>
    r = result @ map (entry_of key) (all_children pages) \<and> o' = sorted_map.fill (named (all_children pages)) observed \<and>
    s' = auditing s ivs (iv\<lparr>iv_entries := iv_entries iv @ all_children pages, iv_pages := iv_pages iv + length pages\<rparr>) \<and>
    length r \<le> max_entries \<and> list_all good_native (all_children pages) \<and>
    distinct (map ne_name (all_children pages)) \<and>
    set (map ne_name (all_children pages)) \<inter> fst ` set observed = {}"
  using assms
proof (induction left n tc config calls result observed arbitrary: iv w rule: inventory_pages.induct)
  case (2 left n tc config calls result observed)
  from "2.prems"(1) obtain page w1 where page: "nc_next_page calls (se_directory s) (n = 0) w = (Inr page, w1)"
    by (auto simp: run_iff)
  show ?case
  proof (cases "dp_end page")
    case True
    with "2.prems"(1,3) page show ?thesis
      by (intro exI [of _ "[]"]) (auto simp: run_iff all_children_def named_def auditing_def)
  next
    case False
    let ?iv = "iv\<lparr>iv_pages := iv_pages iv + 1\<rparr>"
    from "2.prems"(1) page False obtain r1 o1 s1 w2 where ne: "dp_entries page \<noteq> []"
      and pe: "page_entries tc config (dp_entries page) result observed (auditing s ivs ?iv, w1) = (Inr (r1, o1), (s1, w2))"
      and rest: "inventory_pages left (n + 1) tc config calls r1 o1 (s1, w2) = (Inr (True, r, o'), (s', w'))"
      by (auto simp: run_iff)
    note p = page_entries_ok [OF pe "2.prems"(2,3)]
    let ?iv1 = "?iv\<lparr>iv_entries := iv_entries iv @ children_of (dp_entries page)\<rparr>"
    from p rest have run: "inventory_pages left (n + 1) tc config calls r1 o1 (auditing s ivs ?iv1, w2) = (Inr (True, r, o'), (s', w'))"
      by simp
    from "2.IH" [OF False run "2.prems"(2)] p
    obtain pages where *: "length pages < left" "answered_pages calls (se_directory s) False pages w2 w'"
      "r = r1 @ map (entry_of key) (all_children pages)" "o' = sorted_map.fill (named (all_children pages)) o1"
      "s' = auditing s ivs (?iv1\<lparr>iv_entries := iv_entries ?iv1 @ all_children pages, iv_pages := iv_pages ?iv1 + length pages\<rparr>)"
      "length r \<le> max_entries" "list_all good_native (all_children pages)"
      "distinct (map ne_name (all_children pages))" "set (map ne_name (all_children pages)) \<inter> fst ` set o1 = {}"
      by auto
    have c: "all_children (page # pages) = children_of (dp_entries page) @ all_children pages"
      by (simp add: all_children_def)
    have o1: "o1 = sorted_map.fill (named (children_of (dp_entries page))) observed" using p by (simp add: named_def)
    have keys: "fst ` set o1 = set (map ne_name (children_of (dp_entries page))) \<union> fst ` set observed"
      by (simp add: o1 fill_keys fst_named)
    show ?thesis
    proof (intro exI [of _ "page # pages"] conjI)
      show "length (page # pages) < Suc left" using *(1) by simp
      show "answered_pages calls (se_directory s) (n = 0) (page # pages) w w'" using False ne page *(2) p by auto
      show "r = result @ map (entry_of key) (all_children (page # pages))" using *(3) p c by simp
      show "o' = sorted_map.fill (named (all_children (page # pages))) observed"
        using *(4) o1 c by (simp add: named_def fill_append)
      show "s' = auditing s ivs (iv\<lparr>iv_entries := iv_entries iv @ all_children (page # pages),
          iv_pages := iv_pages iv + length (page # pages)\<rparr>)" using *(5) c by (simp add: auditing_def)
      show "length r \<le> max_entries" by fact
      show "list_all good_native (all_children (page # pages))" using *(7) p c by simp
      show "distinct (map ne_name (all_children (page # pages)))" using *(8,9) p c keys by auto
      show "set (map ne_name (all_children (page # pages))) \<inter> fst ` set observed = {}" using *(9) p c keys by auto
    qed
  qed
qed (simp add: run_iff)

text \<open>What the methods leave unchanged in the session: everything except the audit.\<close>

definition same_but_audit :: "session_state \<Rightarrow> session_state \<Rightarrow> bool" where
  "same_but_audit s s' \<longleftrightarrow> (\<exists>au. s' = s\<lparr>se_audit := au\<rparr>)"

lemma same_but_audit_simps [simp]:
  "same_but_audit s s" "same_but_audit s (s\<lparr>se_audit := au\<rparr>)"
proof -
  show "same_but_audit s s" unfolding same_but_audit_def by (rule exI [of _ "se_audit s"]) simp
qed (auto simp: same_but_audit_def)

lemma same_but_audit_trans: "same_but_audit s s1 \<Longrightarrow> same_but_audit s1 s2 \<Longrightarrow> same_but_audit s s2"
  by (auto simp: same_but_audit_def)

text \<open>An invariant of the session that does not look at the audit.\<close>

definition audit_blind :: "(session_state \<Rightarrow> bool) \<Rightarrow> bool" where
  "audit_blind I \<longleftrightarrow> (\<forall>s au. I s \<longrightarrow> I (s\<lparr>se_audit := au\<rparr>))"

lemma audit_blind_same: "audit_blind (same_but_audit s)"
  using same_but_audit_trans by (auto simp: audit_blind_def)

abbreviation keeps_session :: "(session_state \<Rightarrow> bool) \<Rightarrow> ('w, 'a) session_op \<Rightarrow> bool" where
  "keeps_session I m \<equiv> preserves (\<lambda>s. I (fst s)) m"

lemma notes_blind [preserves_intros]:
  assumes "audit_blind I"
  shows "keeps_session I (note_identity ob)" "keeps_session I (note_inventory f)"
  using assms unfolding note_identity_def note_inventory_def audit_blind_def by (auto intro!: preserves_intros)

lemma verify_node_blind [preserves_intros]: "audit_blind I \<Longrightarrow> keeps_session I (verify_node calls node step)"
  unfolding verify_node_def by (auto intro!: preserves_intros)

lemma directory_identity_blind [preserves_intros]:
  "audit_blind I \<Longrightarrow> keeps_session I (directory_identity tc config calls)"
  unfolding directory_identity_def by (auto intro!: preserves_intros)

lemma page_entries_blind [preserves_intros]:
  "audit_blind I \<Longrightarrow> keeps_session I (page_entries tc config natives result observed)"
  by (induction tc config natives result observed rule: page_entries.induct) (auto intro!: preserves_intros)

lemma inventory_pages_blind [preserves_intros]:
  "audit_blind I \<Longrightarrow> keeps_session I (inventory_pages left n tc config calls result observed)"
  by (induction left n tc config calls result observed rule: inventory_pages.induct)
    (auto intro!: preserves_intros split: prod.splits)

lemma find_child_blind [preserves_intros]: "keeps_session I (find_child name)"
  unfolding find_child_def by (auto intro!: preserves_intros split: option.splits)

lemma held_identity_blind [preserves_intros]:
  "audit_blind I \<Longrightarrow> keeps_session I (held_identity tc config calls name)"
  unfolding held_identity_def by (auto intro!: preserves_intros)

lemma read_child_blind [preserves_intros]: "keeps_session I (read_child calls name)"
  unfolding read_child_def by (auto intro!: preserves_intros)

lemma directory_identity_same:
  "directory_identity tc config calls (s, w) = (r, (s', w')) \<Longrightarrow> same_but_audit s s'"
  using preservesD [OF directory_identity_blind [OF audit_blind_same [of s]]] by fastforce

lemma directory_identity_key:
  "directory_identity tc config calls sw = (Inr key, sw') \<Longrightarrow>
     identity_key tc (x_identity (sc_state_directory config)) = Inr key"
  by (cases sw; cases sw') (auto simp: directory_identity_def run_iff)

lemma inventory_ok:
  assumes "inventory tc config calls (s, w) = (Inr result, (s', w'))"
  shows "\<exists>key pages w1. identity_key tc (x_identity (sc_state_directory config)) = Inr key \<and>
    length pages < max_pages \<and> answered_pages calls (se_directory s) True pages w1 w' \<and>
    result = map (entry_of key) (all_children pages) \<and> length result \<le> max_entries \<and>
    list_all good_native (all_children pages) \<and> distinct (map ne_name (all_children pages)) \<and>
    last (au_inventories (se_audit s')) =
      \<lparr>iv_phase = (if se_initial_inventory_set s then ''final'' else ''initial''), iv_entries = all_children pages,
       iv_pages = length pages, iv_explicit_end = True\<rparr> \<and>
    s' = (if se_initial_inventory_set s then s\<lparr>se_audit := se_audit s'\<rparr>
      else s\<lparr>se_audit := se_audit s', se_initial_inventory := sorted_map.fill (named (all_children pages)) [],
             se_initial_inventory_set := True\<rparr>)"
proof -
  let ?iv = "\<lambda>s. \<lparr>iv_phase = (if se_initial_inventory_set s then ''final'' else ''initial''), iv_entries = [], iv_pages = 0,
      iv_explicit_end = False\<rparr>"
  from assms obtain key s1 w1 observed s2 where d: "directory_identity tc config calls (s, w) = (Inr key, (s1, w1))"
    and p: "inventory_pages max_pages 0 tc config calls [] []
      (auditing s1 (au_inventories (se_audit s1)) (?iv s1), w1) = (Inr (True, result, observed), (s2, w'))"
    and s': "s' = (let s3 = s2\<lparr>se_audit := (se_audit s2)\<lparr>au_inventories := on_last (\<lambda>iv. iv\<lparr>iv_explicit_end := True\<rparr>)
         (au_inventories (se_audit s2))\<rparr>\<rparr>
       in if \<not> se_initial_inventory_set s3 then s3\<lparr>se_initial_inventory := observed, se_initial_inventory_set := True\<rparr> else s3)"
    unfolding inventory_def auditing_def by (auto simp: run_iff note_inventory_def Let_def)
  note key = directory_identity_key [OF d]
  from inventory_pages_ok [OF p key] obtain pages where *: "length pages < max_pages"
      "answered_pages calls (se_directory s1) True pages w1 w'" "result = map (entry_of key) (all_children pages)"
      "observed = sorted_map.fill (named (all_children pages)) []"
      "s2 = auditing s1 (au_inventories (se_audit s1)) ((?iv s1)\<lparr>iv_entries := all_children pages, iv_pages := length pages\<rparr>)"
      "length result \<le> max_entries" "list_all good_native (all_children pages)" "distinct (map ne_name (all_children pages))"
    by auto
  from directory_identity_same [OF d] obtain au where same: "s1 = s\<lparr>se_audit := au\<rparr>"
    by (auto simp: same_but_audit_def)
  have s2: "s2 = s\<lparr>se_audit := au\<lparr>au_inventories := au_inventories au @
      [(?iv s)\<lparr>iv_entries := all_children pages, iv_pages := length pages\<rparr>]\<rparr>\<rparr>"
    using *(5) unfolding same auditing_def by simp
  have "answered_pages calls (se_directory s) True pages w1 w'" using *(2) unfolding same by simp
  moreover have "last (au_inventories (se_audit s')) = (?iv s)\<lparr>iv_entries := all_children pages, iv_pages := length pages,
      iv_explicit_end := True\<rparr>"
    unfolding s' s2 Let_def by simp
  moreover have "s' = (if se_initial_inventory_set s then s\<lparr>se_audit := se_audit s'\<rparr>
      else s\<lparr>se_audit := se_audit s', se_initial_inventory := sorted_map.fill (named (all_children pages)) [],
             se_initial_inventory_set := True\<rparr>)"
    unfolding s' s2 *(4) Let_def by simp
  ultimately show ?thesis using *(1,3,6-8) key
    by (intro exI [of _ key] exI [of _ pages] exI [of _ w1]) simp
qed

end
