(* ===== verification/Protected_Samples.thy ===== *)
theory Protected_Samples
  imports Protected_Read
begin

text \<open>A concrete sealed chain and calls that serve it, for any reader: the instances of the hypotheses
  of the theorems about the readers.\<close>

definition sample_node :: "wstring \<Rightarrow> bool \<Rightarrow> metadata" where
  "sample_node path directory = \<lparr>m_volume_guid_path = [wide_backslash], m_final_path = path, m_sddl = wide ''D:P'',
     m_volume_serial = 9, m_file_id = replicate 16 1, m_attributes = (if directory then 0x10 else 0x20), m_reparse_tag = 0,
     m_directory = directory, m_dacl_protected = True\<rparr>"

definition sample_chain :: "read_site \<Rightarrow> sealed_chain" where
  "sample_chain site =
     (let root = [wide_backslash]; p1 = child_path root p1_name; folder = child_path p1 (st_folder_name site);
          file = child_path folder (st_file_name site)
      in \<lparr>sl_root = sample_node root True, sl_p1 = sample_node p1 True, sl_folder = sample_node folder True,
          sl_file = sample_node file False\<rparr>)"

definition sample_calls :: "sealed_chain \<Rightarrow> string \<Rightarrow> 'w protected_calls" where
  "sample_calls sealed text = \<lparr>
     pc_open_root = (\<lambda>path spec. returnM 16),
     pc_open_relative = (\<lambda>parent component spec ob. returnM (parent + 4)),
     pc_inspect = (\<lambda>h ob step. returnM (if h = 16 then sl_root sealed else if h = 20 then sl_p1 sealed
        else if h = 24 then sl_folder sealed else sl_file sealed)),
     pc_read_content = (\<lambda>h n. returnM text),
     pc_close = (\<lambda>h w. w)\<rparr>"

lemma child_path_nonempty: "parent \<noteq> [] \<Longrightarrow> child_path parent child \<noteq> []"
  by (simp add: child_path_def)

lemma sample_node_sel [simp]:
  "m_volume_guid_path (sample_node path d) = [wide_backslash]" "m_final_path (sample_node path d) = path"
  "m_volume_serial (sample_node path d) = 9"
  by (simp_all add: sample_node_def)

lemma sample_id_nonzero: "nonzero_id (replicate 16 1)"
  by (simp add: nonzero_id_def numeral_eq_Suc)

lemma sample_node_sound:
  "path \<noteq> [] \<Longrightarrow>
     (case parent of None \<Rightarrow> True | Some (p, component) \<Rightarrow> m_volume_guid_path p = [wide_backslash] \<and> m_volume_serial p = 9 \<and>
        path = child_path (m_final_path p) component) \<Longrightarrow> sound_node (sample_node path directory) parent directory dacl"
  by (auto simp: sound_node_def sample_node_def sample_id_nonzero wide_def FILE_ATTRIBUTE_REPARSE_POINT_def
      FILE_ATTRIBUTE_DIRECTORY_def FILE_ATTRIBUTE_DEVICE_def split: option.splits)

lemma sample_chain_sound: "sound_chain site (sample_chain site)"
  unfolding sound_chain_def sample_chain_def Let_def
  by (auto intro!: sample_node_sound child_path_nonempty)

lemma sample_chain_paths: "chain_paths (sample_chain site) site"
  by (simp add: chain_paths_def sample_chain_def Let_def)

lemma sample_calls_stable: "stable_site site (sample_calls sealed text) sealed text"
  unfolding stable_site_def
  by (intro exI [of _ "16 :: handle"] exI [of _ "20 :: handle"] exI [of _ "24 :: handle"] exI [of _ "28 :: handle"])
    (simp add: sample_calls_def returns_def run_simps valid_handle_def null_handle_def invalid_handle_value_def)

end
