(* ===== verification/Session_Custody.thy ===== *)
theory Session_Custody
  imports Windows_Session Protected_Samples
begin

text \<open>
  What a session of the Windows adapter holds.  The invariant \<open>session_invar\<close> says which child
  records a session may have; every method keeps it, whether it returns or throws, so it holds in every
  reachable state, and the identity that a session reports for a held child is the one of its
  directory entry.  A sample session, run to the identity of a held child, instantiates the theorems.
\<close>

section \<open>The invariant of a session\<close>

text \<open>The conditions of \<open>require_child\<close>.\<close>

definition bound_child :: "metadata \<Rightarrow> metadata \<Rightarrow> wstring \<Rightarrow> wstring \<Rightarrow> bool" where
  "bound_child actual parent component sddl \<longleftrightarrow> \<not> m_directory actual \<and>
     (m_attributes actual AND (FILE_ATTRIBUTE_DIRECTORY OR FILE_ATTRIBUTE_DEVICE)) = 0 \<and> m_dacl_protected actual \<and>
     sddl \<noteq> [] \<and> m_sddl actual = sddl \<and> (m_attributes actual AND FILE_ATTRIBUTE_REPARSE_POINT) = 0 \<and>
     m_reparse_tag actual = 0 \<and> m_volume_guid_path actual = m_volume_guid_path parent \<and>
     m_volume_serial actual = m_volume_serial parent \<and>
     m_final_path actual = child_final_path (m_final_path parent) component \<and> nonzero_id (m_file_id actual)"

lemma require_child_ok [run_iff]:
  "require_child actual parent component sddl ob step = Inr u \<longleftrightarrow> bound_child actual parent component sddl"
  by (auto simp: require_child_def bound_child_def run_iff)

lemma require_identity_ok [run_iff]:
  "require_identity actual expected ob profile step = Inr u \<longleftrightarrow> same_identity actual expected \<and> m_final_path actual \<noteq> [] \<and>
     m_volume_guid_path actual \<noteq> [] \<and> m_sddl actual \<noteq> [] \<and> nonzero_id (m_file_id actual) \<and>
     (m_attributes actual AND FILE_ATTRIBUTE_REPARSE_POINT) = 0 \<and> m_reparse_tag actual = 0"
  by (auto simp: require_identity_def run_iff)

declare at_or_throw_ok [run_iff]

text \<open>A held child: its handle is among the handles of the session, it was opened under its own name,
  it is bound to the state directory with the descriptor of the manifest, and its file id is that of
  its entry in the initial inventory.\<close>

definition child_ok :: "text_calls \<Rightarrow> snapshot_config \<Rightarrow> session_state \<Rightarrow> string \<Rightarrow> child \<Rightarrow> bool" where
  "child_ok tc config s name c \<longleftrightarrow> ch_handle c \<in> set (se_handles s) \<and> wide_component tc name = Inr (ch_component c) \<and>
     (\<exists>native sddl. map_at (se_initial_inventory s) name = Some native \<and> map_at (sc_child_sddl config) name = Some sddl \<and>
        file_id_hex (m_file_id (ch_initial c)) = file_id_hex (ne_file_id native) \<and>
        bound_child (ch_initial c) (x_identity (sc_state_directory config)) (ch_component c) sddl)"

definition session_invar :: "text_calls \<Rightarrow> snapshot_config \<Rightarrow> session_state \<Rightarrow> bool" where
  "session_invar tc config s \<longleftrightarrow> map_invar (se_initial_inventory s) \<and> map_invar (se_children s) \<and>
     (\<forall>name c. map_at (se_children s) name = Some c \<longrightarrow> child_ok tc config s name c) \<and>
     (\<forall>v\<in>set (se_verified s). v_handle v \<in> set (se_handles s)) \<and>
     (if se_initial_inventory_set s then True else se_children s = [])"

lemma map_invar_empty [simp]: "map_invar []"
  by (simp add: map_invar_def)

lemma session_invar_new: "session_invar tc config (new_session au)"
  by (simp add: session_invar_def new_session_def map_invar_def map_at_def)

lemma session_invar_grow:
  "session_invar tc config s \<Longrightarrow> session_invar tc config (s\<lparr>se_audit := au, se_handles := se_handles s @ hs\<rparr>)"
  unfolding session_invar_def child_ok_def by (auto split: if_splits)

lemma session_invar_blind: "audit_blind (session_invar tc config)"
  unfolding audit_blind_def session_invar_def child_ok_def by (auto split: if_splits)

lemma session_invar_push [preserves_intros]: "keeps_session (session_invar tc config) (push_handle room h)"
proof (rule preservesI; clarsimp)
  fix s w r s' w'
  assume "session_invar tc config s" and "push_handle room h (s, w) = (r, s', w')"
  with session_invar_grow [where au = "se_audit s" and s = s and hs = "[h]"] show "session_invar tc config s'"
    by (auto simp: push_handle_def split: if_splits)
qed

lemma session_invar_verified:
  "session_invar tc config s \<Longrightarrow> v_handle v \<in> set (se_handles s) \<Longrightarrow>
     session_invar tc config (s\<lparr>se_verified := se_verified s @ [v]\<rparr>)"
  unfolding session_invar_def child_ok_def by (auto split: if_splits)

lemma session_invar_first:
  "session_invar tc config s \<Longrightarrow> map_invar observed \<Longrightarrow> \<not> se_initial_inventory_set s \<Longrightarrow>
     session_invar tc config (s\<lparr>se_initial_inventory := observed, se_initial_inventory_set := True\<rparr>)"
  by (simp add: session_invar_def map_at_def)

lemma session_invar_child:
  assumes "session_invar tc config s" and "child_ok tc config s name c" and "se_initial_inventory_set s"
  shows "session_invar tc config (s\<lparr>se_children := map_emplace name c (se_children s)\<rparr>)"
  using assms unfolding session_invar_def child_ok_def
  by (auto simp: map_at_def map_of_emplace map_emplace_invar split: if_splits)

lemma page_entries_observed:
  "page_entries tc config natives result observed sw = (Inr (r, o'), sw') \<Longrightarrow> map_invar observed \<Longrightarrow> map_invar o'"
  by (induction tc config natives result observed arbitrary: sw rule: page_entries.induct)
    (auto simp: run_iff map_emplace_invar split: if_splits)

lemma inventory_pages_observed:
  "inventory_pages left n tc config calls result observed sw = (Inr (b, r, o'), sw') \<Longrightarrow> map_invar observed \<Longrightarrow> map_invar o'"
  by (induction left n tc config calls result observed arbitrary: sw rule: inventory_pages.induct)
    (auto simp: run_iff split: if_splits dest: page_entries_observed)

lemma inventory_invar: "keeps_session (session_invar tc config) (inventory tc config calls)"
  unfolding inventory_def
proof (rule preserves_bindM [OF directory_identity_blind [OF session_invar_blind]], rule preserves_bindM)
  show "keeps_session (session_invar tc config) (localM (\<lambda>s. s\<lparr>se_audit := (se_audit s)\<lparr>au_inventories :=
      au_inventories (se_audit s) @ [\<lparr>iv_phase = (if se_initial_inventory_set s then ''final'' else ''initial''),
        iv_entries = [], iv_pages = 0, iv_explicit_end = False\<rparr>]\<rparr>\<rparr>))"
    using session_invar_blind [of tc config] by (intro preserves_localM) (simp add: audit_blind_def)
  show "keeps_session (session_invar tc config) (bindM (inventory_pages max_pages 0 tc config calls [] [])
     (\<lambda>(ended, result, observed).
     bindM (guardM (\<not> \<not> ended)
       (observe Err_incomplete ''state/'' directory_profile ''enumeration-limit'' ''no explicit enumeration end'')) (\<lambda>_.
     bindM (note_inventory (\<lambda>iv. iv\<lparr>iv_explicit_end := True\<rparr>)) (\<lambda>_.
     bindM (localM (\<lambda>s. if \<not> se_initial_inventory_set s
        then s\<lparr>se_initial_inventory := observed, se_initial_inventory_set := True\<rparr> else s)) (\<lambda>_.
     returnM result)))))"
    by (rule preserves_bindM_dep)
      (auto intro!: preserves_intros session_invar_blind session_invar_first
        dest: inventory_pages_observed split: prod.splits)
qed

lemma open_child_invar [preserves_intros]: "keeps_session (session_invar tc config) (open_child room tc config calls name)"
  unfolding open_child_def by (auto intro!: preserves_intros session_invar_blind)

lemma open_child_ok:
  assumes "open_child room tc config calls name (s, w) = (Inr c, (s', w'))"
  shows "child_ok tc config s' name c \<and> se_initial_inventory_set s'"
  using assms unfolding open_child_def child_ok_def
  by (auto simp: run_iff note_identity_def)

lemma hold_child_invar: "keeps_session (session_invar tc config) (hold_child room tc config calls name)"
proof (rule preservesI; clarsimp)
  fix s w r s' w'
  assume inv: "session_invar tc config s" and run: "hold_child room tc config calls name (s, w) = (r, s', w')"
  obtain r1 s1 w1 where o: "open_child room tc config calls name (s, w) = (r1, s1, w1)" by (metis surj_pair)
  from preservesD [OF open_child_invar o] inv have inv1: "session_invar tc config s1" by simp
  show "session_invar tc config s'"
  proof (cases r1)
    case (Inl e)
    with run o inv1 show ?thesis by (simp add: hold_child_def bindM_def)
  next
    case (Inr c)
    with run o have "s' = s1\<lparr>se_children := map_emplace name c (se_children s1)\<rparr>"
      by (simp add: hold_child_def bindM_def localM_def)
    moreover from open_child_ok [OF o [unfolded Inr]] have "child_ok tc config s1 name c" "se_initial_inventory_set s1" by auto
    ultimately show ?thesis using session_invar_child [OF inv1] by simp
  qed
qed

text \<open>During the initialization: the invariant, with the handles opened so far among those of the session.\<close>

definition opened_invar :: "text_calls \<Rightarrow> snapshot_config \<Rightarrow> handle set \<Rightarrow> session_state \<Rightarrow> bool" where
  "opened_invar tc config H s \<longleftrightarrow> session_invar tc config s \<and> H \<subseteq> set (se_handles s)"

lemma opened_invar_blind: "audit_blind (opened_invar tc config H)"
  using session_invar_blind [of tc config] by (auto simp: audit_blind_def opened_invar_def)

lemma opened_invar_verified:
  "v_handle v \<in> H \<Longrightarrow> keeps_session (opened_invar tc config H) (push_verified v)"
  unfolding push_verified_def
  by (intro preserves_localM) (auto simp: opened_invar_def intro: session_invar_verified)

lemma opened_invar_push:
  assumes "\<And>x. keeps_session (opened_invar tc config (insert h H)) (f x)"
  shows "keeps_session (opened_invar tc config H) (bindM (push_handle room h) f)"
proof (rule preservesI; clarsimp)
  fix s w r s' w'
  assume inv: "opened_invar tc config H s" and run: "bindM (push_handle room h) f (s, w) = (r, s', w')"
  show "opened_invar tc config H s'"
  proof (cases "room w (length (se_handles s))")
    case True
    from inv have "opened_invar tc config (insert h H) (s\<lparr>se_handles := se_handles s @ [h]\<rparr>)"
      using session_invar_grow [where au = "se_audit s" and s = s and hs = "[h]"] by (auto simp: opened_invar_def)
    with preservesD [OF assms, of "()" "(s\<lparr>se_handles := se_handles s @ [h]\<rparr>, w)" r "(s', w')"] run True
    show ?thesis by (auto simp: push_handle_def bindM_def opened_invar_def)
  next
    case False
    with run inv show ?thesis by (simp add: push_handle_def bindM_def)
  qed
qed

lemma open_ancestors_invar [preserves_intros]:
  "keeps_session (opened_invar tc config H) (open_ancestors room tc' calls nodes current parent)"
proof (induction room tc' calls nodes current parent arbitrary: H rule: open_ancestors.induct)
  case (2 room tc' calls ancestor rest current parent)
  show ?case unfolding open_ancestors.simps Let_def
    by (intro opened_invar_push opened_invar_verified preserves_intros opened_invar_blind "2.IH" [OF refl]) simp
qed (simp add: preserves_intros)

lemma opened_invar_directory: "opened_invar tc config H s \<Longrightarrow> opened_invar tc config H (s\<lparr>se_directory := d\<rparr>)"
  by (auto simp: opened_invar_def session_invar_def child_ok_def)

lemma initialize_invar: "keeps_session (opened_invar tc config {}) (initialize room tc config calls)"
  unfolding initialize_def Let_def
  by (auto intro!: opened_invar_push opened_invar_verified preserves_intros opened_invar_blind opened_invar_directory
      split: prod.splits)

section \<open>Reachable states\<close>

text \<open>The states of a session from its initialization on: any method may run, with any outcome, and
  other sessions of the source may write to the shared audit in between.\<close>

inductive session_reach :: "('w \<Rightarrow> nat \<Rightarrow> bool) \<Rightarrow> text_calls \<Rightarrow> snapshot_config \<Rightarrow> 'w native_calls \<Rightarrow> session_state \<Rightarrow> bool"
  for room :: "'w \<Rightarrow> nat \<Rightarrow> bool" and tc :: text_calls and config :: snapshot_config and calls :: "'w native_calls"
where
  start: "initialize room tc config calls (new_session au, w) = (Inr u, (s', w')) \<Longrightarrow> session_reach room tc config calls s'"
| shared_audit: "session_reach room tc config calls s \<Longrightarrow> session_reach room tc config calls (s\<lparr>se_audit := au\<rparr>)"
| run_directory_identity: "session_reach room tc config calls s \<Longrightarrow> directory_identity tc config calls (s, w) = (r, (s', w')) \<Longrightarrow>
    session_reach room tc config calls s'"
| run_inventory: "session_reach room tc config calls s \<Longrightarrow> inventory tc config calls (s, w) = (r, (s', w')) \<Longrightarrow>
    session_reach room tc config calls s'"
| run_hold_child: "session_reach room tc config calls s \<Longrightarrow> hold_child room tc config calls name (s, w) = (r, (s', w')) \<Longrightarrow>
    session_reach room tc config calls s'"
| run_held_identity: "session_reach room tc config calls s \<Longrightarrow> held_identity tc config calls name (s, w) = (r, (s', w')) \<Longrightarrow>
    session_reach room tc config calls s'"
| run_read_child: "session_reach room tc config calls s \<Longrightarrow> read_child calls name (s, w) = (r, (s', w')) \<Longrightarrow>
    session_reach room tc config calls s'"

lemma session_reach_invar: "session_reach room tc config calls s \<Longrightarrow> session_invar tc config s"
proof (induction rule: session_reach.induct)
  case (start au w u s' w')
  from preservesD [OF initialize_invar start] show ?case by (simp add: opened_invar_def session_invar_new)
next
  case (shared_audit s au)
  then show ?case using session_invar_blind by (auto simp: audit_blind_def)
qed (auto dest!: preservesD [OF directory_identity_blind [OF session_invar_blind]] preservesD [OF inventory_invar]
  preservesD [OF hold_child_invar] preservesD [OF held_identity_blind [OF session_invar_blind]]
  preservesD [OF read_child_blind [where I = "session_invar tc config"]])

lemma find_child_run [run_iff]:
  "find_child name (s, w) = (Inr c, (s', w')) \<longleftrightarrow> map_at (se_children s) name = Some c \<and> s' = s \<and> w' = w"
  by (cases "map_at (se_children s) name") (auto simp: find_child_def run_iff)

lemma held_identity_ok:
  assumes "held_identity tc config calls name (s, w) = (Inr fid, (s', w'))"
  obtains c actual sddl where "map_at (se_children s) name = Some c"
    "nc_inspect calls (ch_handle c) name child_profile ''held-child-identity'' w = (Inr actual, w')"
    "map_at (sc_child_sddl config) name = Some sddl"
    "bound_child actual (x_identity (sc_state_directory config)) (ch_component c) sddl"
    "same_identity actual (ch_initial c)" "fid = file_id_hex (m_file_id actual)"
  using assms unfolding held_identity_def by (auto simp: run_iff note_identity_def)

text \<open>\<^bold>\<open>C32.\<close> An inventory is complete and faithful: when it returns, the directory answered a first page that
  restarts the enumeration, further pages, and an explicit end within the page limit; the entries are
  exactly those of the pages without the dot entries, in order, at most 32, with distinct nonempty
  names and no device among them; the audit shows the same entries, the number of pages and the explicit
  end; and the first inventory, but no later one, becomes the initial inventory of the session.\<close>

theorem inventory_complete:
  assumes "inventory tc config calls (s, w) = (Inr result, (s', w'))"
  shows "\<exists>key pages w1. identity_key tc (x_identity (sc_state_directory config)) = Inr key \<and>
    length pages < max_pages \<and> answered_pages calls (se_directory s) True pages w1 w' \<and>
    result = map (entry_of key) (all_children pages) \<and> length result \<le> max_entries \<and>
    list_all good_native (all_children pages) \<and> distinct (map ne_name (all_children pages)) \<and>
    last (au_inventories (se_audit s')) =
      \<lparr>iv_phase = (if se_initial_inventory_set s then ''final'' else ''initial''), iv_entries = all_children pages,
       iv_pages = length pages, iv_explicit_end = True\<rparr> \<and>
    s' = (if se_initial_inventory_set s then s\<lparr>se_audit := se_audit s'\<rparr>
      else s\<lparr>se_audit := se_audit s', se_initial_inventory := sorted_map.fill (named (all_children pages)) [],
             se_initial_inventory_set := True\<rparr>)"
  using assms by (rule inventory_ok)

text \<open>\<^bold>\<open>C30.\<close> The identity of a held child is pinned: in every reachable state of a session, an identity reported
  for a child comes from the handle that the session holds for it; that handle still shows the
  object that was opened under the child's own name (same volume, path, descriptor and file id, bound to the
  state directory, no reparse point, no device), and the reported id is the file id of the
  child's entry in the initial inventory.\<close>

theorem held_identity_pinned:
  assumes "session_reach room tc config calls s" and "held_identity tc config calls name (s, w) = (Inr fid, (s', w'))"
  shows "\<exists>c actual native sddl. map_at (se_children s) name = Some c \<and> ch_handle c \<in> set (se_handles s) \<and>
    wide_component tc name = Inr (ch_component c) \<and>
    nc_inspect calls (ch_handle c) name child_profile ''held-child-identity'' w = (Inr actual, w') \<and>
    same_identity actual (ch_initial c) \<and> map_at (sc_child_sddl config) name = Some sddl \<and>
    bound_child actual (x_identity (sc_state_directory config)) (ch_component c) sddl \<and>
    map_at (se_initial_inventory s) name = Some native \<and> fid = file_id_hex (ne_file_id native)"
proof -
  from held_identity_ok [OF assms(2)] obtain c actual sddl where r: "map_at (se_children s) name = Some c"
    "nc_inspect calls (ch_handle c) name child_profile ''held-child-identity'' w = (Inr actual, w')"
    "map_at (sc_child_sddl config) name = Some sddl"
    "bound_child actual (x_identity (sc_state_directory config)) (ch_component c) sddl"
    "same_identity actual (ch_initial c)" "fid = file_id_hex (m_file_id actual)" .
  from session_reach_invar [OF assms(1)] r(1) have "child_ok tc config s name c" by (simp add: session_invar_def)
  with r show ?thesis by (auto simp: child_ok_def same_identity_def)
qed

text \<open>\<^bold>\<open>C29.\<close> The invariant of a session: in every state that a session reaches, whatever its native calls
  answered or threw, a child is recorded only under the name of an entry of the initial inventory
  and of the descriptor manifest, with a handle the session holds, bound to the state directory, and
  with the file id of its entry; every verified node has a handle the session holds; and no child is
  held before the first inventory.\<close>

theorem session_invariant:
  assumes "session_reach room tc config calls s"
  shows "session_invar tc config s"
  using assms by (rule session_reach_invar)

section \<open>A sample session\<close>

text \<open>A vector that can always grow.\<close>

abbreviation roomy :: "'w \<Rightarrow> nat \<Rightarrow> bool" where
  "roomy \<equiv> \<lambda>w n. True"

definition sample_dir :: "wstring \<Rightarrow> metadata" where
  "sample_dir path = \<lparr>m_volume_guid_path = [wide_backslash], m_final_path = path, m_sddl = wide ''D:P'',
     m_volume_serial = 9, m_file_id = replicate 16 1, m_attributes = 0x10, m_reparse_tag = 0,
     m_directory = True, m_dacl_protected = True\<rparr>"

definition sample_path :: "string list \<Rightarrow> wstring" where
  "sample_path components = foldl child_final_path [wide_backslash] (map wide components)"

definition sample_child :: "string \<Rightarrow> metadata" where
  "sample_child name = (sample_dir (sample_path [''a'', ''b'', ''s'', name]))
     \<lparr>m_file_id := replicate 16 2, m_attributes := 0x20, m_directory := False\<rparr>"

definition sample_config :: snapshot_config where
  "sample_config = \<lparr>sc_volume_root_path = wide [CHR ''C'', CHR '':'', CHR 0x5C], sc_root_identity = sample_dir (sample_path []),
     sc_ancestors = [\<lparr>x_component = wide ''a'', x_identity = sample_dir (sample_path [''a''])\<rparr>,
       \<lparr>x_component = wide ''b'', x_identity = sample_dir (sample_path [''a'', ''b''])\<rparr>],
     sc_state_directory = \<lparr>x_component = wide ''s'', x_identity = sample_dir (sample_path [''a'', ''b'', ''s''])\<rparr>,
     sc_child_sddl = [(''lock.bin'', wide ''D:P''), (''state.json'', wide ''D:P''), (''witness.txt'', wide ''D:P'')]\<rparr>"

text \<open>The state directory has one child; every call answers, and the first page of an enumeration shows it.\<close>

definition sample_native :: "'w native_calls" where
  "sample_native = \<lparr>nc_open_root = (\<lambda>path spec. returnM 16),
     nc_open_relative = (\<lambda>parent component spec ob profile.
        returnM (if parent = 16 then 20 else if parent = 20 then 24 else if parent = 24 then 28 else 32)),
     nc_inspect = (\<lambda>h ob profile step. returnM (
        if h = 16 then sample_dir (sample_path []) else if h = 20 then sample_dir (sample_path [''a''])
        else if h = 24 then sample_dir (sample_path [''a'', ''b'']) else if h = 28 then sample_dir (sample_path [''a'', ''b'', ''s''])
        else sample_child ob)),
     nc_next_page = (\<lambda>h restart. returnM (if restart then \<lparr>dp_end = False, dp_entries = [\<lparr>ne_name = ''lock.bin'',
        ne_file_id = replicate 16 2, ne_attributes = 0x20, ne_reparse_tag = 0\<rparr>]\<rparr> else \<lparr>dp_end = True, dp_entries = []\<rparr>)),
     nc_read_all = (\<lambda>h n ob. returnM ''x''),
     nc_close = (\<lambda>h w. w)\<rparr>"

lemma sample_dir_sel [simp]:
  "m_final_path (sample_dir path) = path" "m_directory (sample_dir path)"
  by (simp_all add: sample_dir_def)

lemma sample_dir_identity [simp]:
  "path \<noteq> [] \<Longrightarrow> require_identity (sample_dir path) (sample_dir path) ob pr step = Inr ()"
  by (simp add: run_iff same_identity_def sample_dir_def sample_id_nonzero FILE_ATTRIBUTE_REPARSE_POINT_def wide_def)

lemma sample_dir_binding [simp]:
  "require_parent_binding (sample_dir (child_final_path path component)) (sample_dir path) component ob pr = Inr ()"
  by (simp add: require_parent_binding_def sample_dir_def guardE_def)

lemma child_final_path_nonempty [simp]: "parent \<noteq> [] \<Longrightarrow> child_final_path parent component \<noteq> []"
  by (simp add: child_final_path_def)

lemma sample_path_simps [simp]:
  "sample_path [] = [wide_backslash]" "sample_path (xs @ [x]) = child_final_path (sample_path xs) (wide x)"
  by (simp_all add: sample_path_def)

lemma sample_path_steps [simp]:
  "sample_path [x] = child_final_path (sample_path []) (wide x)"
  "sample_path [x, y] = child_final_path (sample_path [x]) (wide y)"
  "sample_path [x, y, z] = child_final_path (sample_path [x, y]) (wide z)"
  "sample_path [x, y, z, u] = child_final_path (sample_path [x, y, z]) (wide u)"
  by (simp_all add: sample_path_def)

lemma ascii_utf8_runs: "length w \<le> int_max \<Longrightarrow> \<exists>t. utf8 ascii_text_calls w = Inr t"
  by (auto simp: utf8_def ascii_text_calls_def Let_def run_simps)

lemma sample_key: "length path \<le> int_max \<Longrightarrow> \<exists>key. identity_key ascii_text_calls (sample_dir path) = Inr key"
  using ascii_utf8_runs [of path] by (auto simp: identity_key_def run_simps)

lemma length_child_final_path: "length (child_final_path parent component) \<le> length parent + 1 + length component"
  by (simp add: child_final_path_def)

lemma sample_keys:
  obtains k0 k1 k2 k3 where "identity_key ascii_text_calls (sample_dir (sample_path [])) = Inr k0"
    "identity_key ascii_text_calls (sample_dir (sample_path [''a''])) = Inr k1"
    "identity_key ascii_text_calls (sample_dir (sample_path [''a'', ''b''])) = Inr k2"
    "identity_key ascii_text_calls (sample_dir (sample_path [''a'', ''b'', ''s''])) = Inr k3"
proof -
  have "length (sample_path cs) \<le> int_max" if "cs \<in> {[], [''a''], [''a'', ''b''], [''a'', ''b'', ''s'']}" for cs
    using that by (auto simp: sample_path_def child_final_path_def wide_def int_max_def simp del: sample_path_steps sample_path_simps)
  then have "\<exists>key. identity_key ascii_text_calls (sample_dir (sample_path cs)) = Inr key"
    if "cs \<in> {[], [''a''], [''a'', ''b''], [''a'', ''b'', ''s'']}" for cs
    using that sample_key by blast
  from this [of "[]"] this [of "[''a'']"] this [of "[''a'', ''b'']"] this [of "[''a'', ''b'', ''s'']"] that
  show ?thesis by blast
qed

lemma sample_utf8 [simp]:
  "utf8 ascii_text_calls (wide ''a'') = Inr ''a''" "utf8 ascii_text_calls (wide ''b'') = Inr ''b''"
  by (simp_all add: utf8_def ascii_text_calls_def wide_def wide_char_def Let_def run_simps int_max_def of_char_def char_of_def
      bit_Suc_0_iff)

lemma sample_wide [simp]: "wide_component ascii_text_calls ''lock.bin'' = Inr (wide ''lock.bin'')"
  by code_simp

lemmas session_run = bindM_def run_simps sample_native_def sample_config_def verify_node_def new_session_def
  note_identity_def note_inventory_def push_handle_def push_verified_def Let_def

lemma sample_initialize:
  "\<exists>s'. initialize roomy ascii_text_calls sample_config sample_native (new_session au, w) = (Inr (), (s', w)) \<and>
    se_directory s' = 28 \<and> se_initial_inventory_set s' = False \<and> se_children s' = [] \<and>
    map (\<lambda>v. (v_handle v, v_expected v)) (se_verified s') = 
      [(16, sample_dir (sample_path [])), (20, sample_dir (sample_path [''a''])),
       (24, sample_dir (sample_path [''a'', ''b''])), (28, sample_dir (sample_path [''a'', ''b'', ''s'']))]"
  by (rule sample_keys) (simp add: session_run initialize_def)


lemma sample_child_ok [simp]:
  "require_child (sample_child name) (sample_dir (sample_path [''a'', ''b'', ''s''])) (wide name) (wide ''D:P'') ob step = Inr ()"
  "require_identity (sample_child name) (sample_child name) ob pr step = Inr ()"
  "m_file_id (sample_child name) = replicate 16 2"
  by (simp_all add: run_iff bound_child_def same_identity_def sample_child_def sample_dir_def wide_def nonzero_id_def numeral_eq_Suc
      FILE_ATTRIBUTE_DIRECTORY_def FILE_ATTRIBUTE_DEVICE_def FILE_ATTRIBUTE_REPARSE_POINT_def)

lemma pages_unfold:
  "inventory_pages max_pages n tc config calls result observed =
     inventory_pages (Suc (Suc (max_pages - 2))) n tc config calls result observed"
  by (simp add: max_pages_def numeral_eq_Suc)

lemma sample_session_runs:
  obtains s1 es s2 s3 s4 where
    "initialize roomy ascii_text_calls sample_config sample_native (new_session au, w) = (Inr (), (s1, w))"
    "inventory ascii_text_calls sample_config sample_native (s1, w) = (Inr es, (s2, w))" "map en_name es = [''lock.bin'']"
    "hold_child roomy ascii_text_calls sample_config sample_native ''lock.bin'' (s2, w) = (Inr (), (s3, w))"
    "held_identity ascii_text_calls sample_config sample_native ''lock.bin'' (s3, w) = (Inr (file_id_hex (replicate 16 2)), (s4, w))"
    "length (se_verified s3) = 4" "length (se_children s3) = 1"
proof (rule sample_keys)
  fix k0 k1 k2 k3
  assume keys: "identity_key ascii_text_calls (sample_dir (sample_path [])) = Inr k0"
    "identity_key ascii_text_calls (sample_dir (sample_path [''a''])) = Inr k1"
    "identity_key ascii_text_calls (sample_dir (sample_path [''a'', ''b''])) = Inr k2"
    "identity_key ascii_text_calls (sample_dir (sample_path [''a'', ''b'', ''s''])) = Inr k3"
  note map_defs = map_contains_def map_at_def
  obtain s1 where 1: "initialize roomy ascii_text_calls sample_config sample_native (new_session au, w) = (Inr (), (s1, w))"
    "se_directory s1 = 28" "\<not> se_initial_inventory_set s1" "se_children s1 = []"
    "map (\<lambda>v. (v_handle v, v_expected v)) (se_verified s1) =
      [(16, sample_dir (sample_path [])), (20, sample_dir (sample_path [''a''])),
       (24, sample_dir (sample_path [''a'', ''b''])), (28, sample_dir (sample_path [''a'', ''b'', ''s'']))]"
    using keys by (simp add: session_run initialize_def)
  then obtain n1 n2 n3 n4 where nodes: "se_verified s1 = [n1, n2, n3, n4]" by (auto simp: map_eq_Cons_conv)
  obtain es s2 where 2: "inventory ascii_text_calls sample_config sample_native (s1, w) = (Inr es, (s2, w))"
    "map en_name es = [''lock.bin'']" "se_directory s2 = 28" "se_initial_inventory_set s2" "se_children s2 = []" "length (se_verified s2) = 4"
    "se_initial_inventory s2 = [(''lock.bin'', \<lparr>ne_name = ''lock.bin'',
        ne_file_id = replicate 16 2, ne_attributes = 0x20, ne_reparse_tag = 0\<rparr>)]"
    using keys 1(2-) by (simp add: session_run inventory_def directory_identity_def pages_unfold is_dot_def nodes
      FILE_ATTRIBUTE_DEVICE_def max_entries_def map_defs entry_of_def)
  obtain s3 where 3: "hold_child roomy ascii_text_calls sample_config sample_native ''lock.bin'' (s2, w) = (Inr (), (s3, w))"
    "se_children s3 = [(''lock.bin'', \<lparr>ch_handle = 32, ch_component = wide ''lock.bin'', ch_initial = sample_child ''lock.bin''\<rparr>)]"
    "length (se_verified s3) = 4"
    using keys 2(3-) by (simp add: session_run hold_child_def open_child_def catch_std_def catchM_def map_defs at_or_throw_def
      del: sample_path_steps)
  obtain s4 where 4: "held_identity ascii_text_calls sample_config sample_native ''lock.bin'' (s3, w) =
     (Inr (file_id_hex (replicate 16 2)), (s4, w))"
    using keys 3(2) by (simp add: session_run held_identity_def find_child_def map_defs at_or_throw_def del: sample_path_steps)
  show ?thesis by (rule that [OF 1(1) 2(1,2) 3(1) 4 3(3)]) (simp add: 3(2))
qed

theorem inventory_complete_witness:
  "\<exists>s es s' key pages. inventory ascii_text_calls sample_config sample_native (s, ()) = (Inr es, (s', ())) \<and>
    es = map (entry_of key) (all_children pages) \<and> map ne_name (all_children pages) = [''lock.bin''] \<and>
    last (au_inventories (se_audit s')) =
      \<lparr>iv_phase = (if se_initial_inventory_set s then ''final'' else ''initial''), iv_entries = all_children pages,
       iv_pages = length pages, iv_explicit_end = True\<rparr>"
proof -
  obtain s es s' where run: "inventory ascii_text_calls sample_config sample_native (s, ()) = (Inr es, (s', ()))"
    and names: "map en_name es = [''lock.bin'']" by (rule sample_session_runs)
  from inventory_complete [OF run] obtain key pages where *: "es = map (entry_of key) (all_children pages)"
    "last (au_inventories (se_audit s')) =
      \<lparr>iv_phase = (if se_initial_inventory_set s then ''final'' else ''initial''), iv_entries = all_children pages,
       iv_pages = length pages, iv_explicit_end = True\<rparr>" by auto
  have "map ne_name (all_children pages) = [''lock.bin'']"
    using names unfolding *(1) by (simp add: comp_def entry_of_def)
  with run * show ?thesis
    by (intro exI [of _ s] exI [of _ es] exI [of _ s'] exI [of _ key] exI [of _ pages]) simp
qed

theorem held_identity_pinned_witness:
  "\<exists>s fid s' c native. held_identity ascii_text_calls sample_config sample_native ''lock.bin'' (s, ()) = (Inr fid, (s', ())) \<and>
    map_at (se_children s) ''lock.bin'' = Some c \<and> ch_handle c \<in> set (se_handles s) \<and>
    map_at (se_initial_inventory s) ''lock.bin'' = Some native \<and> fid = file_id_hex (ne_file_id native)"
proof -
  obtain s1 es s2 s3 s4 where
    run: "initialize roomy ascii_text_calls sample_config sample_native
        (new_session \<lparr>au_system_backend = False, au_identities = [], au_inventories = []\<rparr>, ()) = (Inr (), (s1, ()))"
    "inventory ascii_text_calls sample_config sample_native (s1, ()) = (Inr es, (s2, ()))"
    "hold_child roomy ascii_text_calls sample_config sample_native ''lock.bin'' (s2, ()) = (Inr (), (s3, ()))"
    "held_identity ascii_text_calls sample_config sample_native ''lock.bin'' (s3, ()) = (Inr (file_id_hex (replicate 16 2)), (s4, ()))"
    by (rule sample_session_runs)
  have "session_reach roomy ascii_text_calls sample_config (sample_native :: unit native_calls) s3"
    by (rule session_reach.intros(5) [OF session_reach.intros(4) [OF session_reach.intros(1) [OF run(1)] run(2)] run(3)])
  from held_identity_pinned [OF this run(4)] run(4) show ?thesis by blast
qed

theorem session_invariant_witness:
  "\<exists>s. session_reach roomy ascii_text_calls sample_config (sample_native :: unit native_calls) s \<and>
     session_invar ascii_text_calls sample_config s \<and> length (se_verified s) = 4 \<and> length (se_children s) = 1"
proof -
  obtain s1 es s2 s3 where
    run: "initialize roomy ascii_text_calls sample_config sample_native
        (new_session \<lparr>au_system_backend = False, au_identities = [], au_inventories = []\<rparr>, ()) = (Inr (), (s1, ()))"
    "inventory ascii_text_calls sample_config sample_native (s1, ()) = (Inr es, (s2, ()))"
    "hold_child roomy ascii_text_calls sample_config sample_native ''lock.bin'' (s2, ()) = (Inr (), (s3, ()))"
    and size: "length (se_verified s3) = 4" "length (se_children s3) = 1"
    by (rule sample_session_runs)
  have "session_reach roomy ascii_text_calls sample_config (sample_native :: unit native_calls) s3"
    by (rule session_reach.intros(5) [OF session_reach.intros(4) [OF session_reach.intros(1) [OF run(1)] run(2)] run(3)])
  with session_invariant [OF this] size show ?thesis by blast
qed

end
