(* ===== verification/Session_Handles.thy ===== *)
theory Session_Handles
  imports Session_Custody
begin

text \<open>
  The handles of a session of the Windows adapter.  A session is run on native calls with a log of the
  handle operations: opened with \<open>initialize\<close>, used through any sequence of its methods, with any
  outcome of each, and destroyed.  The log is then replayed: no handle was used before it was opened
  or after it was closed, and every handle that the session recorded was closed once, the last opened
  first.  A handle whose \<^verbatim>\<open>push_back\<close> throws is not recorded, and is the only one that is never closed.
\<close>

section \<open>Logged native calls\<close>

definition logged_native :: "'w native_calls \<Rightarrow> (handle_event list \<times> 'w) native_calls" where
  "logged_native calls = \<lparr>
     nc_open_root = (\<lambda>path spec. logged [] (\<lambda>h. [Opened h]) (nc_open_root calls path spec)),
     nc_open_relative = (\<lambda>parent component spec ob profile.
        logged [Used parent] (\<lambda>h. [Opened h]) (nc_open_relative calls parent component spec ob profile)),
     nc_inspect = (\<lambda>h ob profile step. logged [Used h] (\<lambda>_. []) (nc_inspect calls h ob profile step)),
     nc_next_page = (\<lambda>h restart. logged [Used h] (\<lambda>_. []) (nc_next_page calls h restart)),
     nc_read_all = (\<lambda>h n ob. logged [Used h] (\<lambda>_. []) (nc_read_all calls h n ob)),
     nc_close = (\<lambda>h (log, w). (log @ [Closed h], nc_close calls h w))\<rparr>"

lemma logged_native_sel:
  "nc_open_root (logged_native calls) path rspec = logged [] (\<lambda>h. [Opened h]) (nc_open_root calls path rspec)"
  "nc_open_relative (logged_native calls) parent component spec ob profile =
     logged [Used parent] (\<lambda>h. [Opened h]) (nc_open_relative calls parent component spec ob profile)"
  "nc_inspect (logged_native calls) h ob profile step = logged [Used h] (\<lambda>_. []) (nc_inspect calls h ob profile step)"
  "nc_next_page (logged_native calls) h restart = logged [Used h] (\<lambda>_. []) (nc_next_page calls h restart)"
  "nc_read_all (logged_native calls) h n ob = logged [Used h] (\<lambda>_. []) (nc_read_all calls h n ob)"
  "nc_close (logged_native calls) h (log, w) = (log @ [Closed h], nc_close calls h w)"
  by (simp_all add: logged_native_def)

text \<open>A call that opens returns a valid handle or throws.\<close>

definition opens_valid :: "'w native_calls \<Rightarrow> bool" where
  "opens_valid calls \<longleftrightarrow> (\<forall>path spec w h w'. nc_open_root calls path spec w = (Inr h, w') \<longrightarrow> valid_handle h) \<and>
     (\<forall>parent component spec ob profile w h w'.
        nc_open_relative calls parent component spec ob profile w = (Inr h, w') \<longrightarrow> valid_handle h)"

section \<open>The invariant\<close>

text \<open>The log is well formed and leaves open the handles \<open>hs\<close>, in the order of their opening, and among them
  the handles \<open>leaked\<close> (the last one opened first).\<close>

definition log_keeps :: "handle list \<Rightarrow> handle list \<Rightarrow> handle_event list \<Rightarrow> bool" where
  "log_keeps hs leaked log \<longleftrightarrow> (\<exists>st. replay [] log = Some st \<and> st \<in> shuffles (rev hs) leaked)"

lemma log_keeps_empty: "log_keeps [] [] []"
  by (simp add: log_keeps_def)

lemma log_keeps_none: "log_keeps hs [] log \<longleftrightarrow> log_holds hs log"
  by (simp add: log_keeps_def log_holds_def)

lemma log_keeps_used: "log_keeps hs leaked log \<Longrightarrow> h \<in> set hs \<Longrightarrow> log_keeps hs leaked (log @ [Used h])"
  using set_shuffles [of _ "rev hs" leaked] by (fastforce simp: log_keeps_def replay_append)

lemma log_keeps_opened:
  "log_keeps hs leaked log \<Longrightarrow> valid_handle h \<Longrightarrow> log_keeps (hs @ [h]) leaked (log @ [Opened h])"
  "log_keeps hs leaked log \<Longrightarrow> valid_handle h \<Longrightarrow> log_keeps hs (h # leaked) (log @ [Opened h])"
  by (auto simp: log_keeps_def replay_append intro: Cons_in_shuffles_leftI Cons_in_shuffles_rightI)

lemma count_shuffles: "zs \<in> shuffles xs ys \<Longrightarrow> count_list zs x = count_list xs x + count_list ys x"
  by (induction xs ys arbitrary: zs rule: shuffles.induct) auto

lemma log_keeps_count:
  assumes "log_keeps hs leaked log" and "valid_handle h"
  shows "opened_count h log = count_list hs h + count_list leaked h + closed_count h log"
proof -
  from assms(1) obtain st where "replay [] log = Some st" and st: "st \<in> shuffles (rev hs) leaked" by (auto simp: log_keeps_def)
  from replay_count [OF this(1) assms(2)] count_shuffles [OF st, of h] show ?thesis by (simp add: count_list_rev)
qed

text \<open>The handle was opened, and the vector had no room in the world that its opening left.\<close>

definition no_room :: "(handle_event list \<times> 'w \<Rightarrow> nat \<Rightarrow> bool) \<Rightarrow> handle_event list \<Rightarrow> handle \<Rightarrow> bool" where
  "no_room room log h \<longleftrightarrow> (\<exists>p q w n. log = p @ Opened h # q \<and> \<not> room (p @ [Opened h], w) n)"

lemma no_room_append: "no_room room log h \<Longrightarrow> no_room room (log @ es) h"
  unfolding no_room_def by (metis append_Cons append_assoc)

text \<open>The log leaves open the handles of the session and those for which there was no room, and closes
  none; the handles of the verified nodes, of the children, and those in \<open>S\<close> are handles of the session,
  and with \<open>d\<close> the directory handle too.\<close>

definition tracked ::
  "(handle_event list \<times> 'w \<Rightarrow> nat \<Rightarrow> bool) \<Rightarrow> bool \<Rightarrow> handle set \<Rightarrow> session_state \<times> handle_event list \<times> 'w \<Rightarrow> bool"
where
  "tracked room d S = (\<lambda>(s, log, w).
     (\<exists>leaked. log_keeps (se_handles s) leaked log \<and> list_all (no_room room log) leaked) \<and> (\<forall>h. Closed h \<notin> set log) \<and>
     S \<subseteq> set (se_handles s) \<and>
     (\<forall>v\<in>set (se_verified s). v_handle v \<in> set (se_handles s)) \<and>
     (\<forall>(name, c)\<in>set (se_children s). ch_handle c \<in> set (se_handles s)) \<and>
     (if d then se_directory s \<in> set (se_handles s) else True))"

lemma tracked_log:
  assumes "tracked room d S (s, log, w)" and "h \<in> set (se_handles s)"
  shows "tracked room d S (s, log @ [Used h], w')"
proof -
  from assms(1) obtain leaked where "log_keeps (se_handles s) leaked log" "list_all (no_room room log) leaked"
    by (auto simp: tracked_def)
  with assms(2) have "log_keeps (se_handles s) leaked (log @ [Used h]) \<and> list_all (no_room room (log @ [Used h])) leaked"
    by (auto simp: list_all_iff log_keeps_used no_room_append)
  with assms(1) show ?thesis by (auto simp: tracked_def)
qed

abbreviation tracks ::
  "(handle_event list \<times> 'w \<Rightarrow> nat \<Rightarrow> bool) \<Rightarrow> bool \<Rightarrow> handle set \<Rightarrow>
   (session_state \<times> handle_event list \<times> 'w, 'a) cpp \<Rightarrow> bool"
where
  "tracks room d S m \<equiv> triple (tracked room d S) m (\<lambda>_. tracked room d S) (tracked room d {})"

named_theorems tracks_intros "rules for computations of a session that keep the log tracked"

lemma tracked_mono: "tracked room d S s \<Longrightarrow> T \<subseteq> S \<Longrightarrow> tracked room d T s"
  by (auto simp: tracked_def)

lemma tracks_pure [tracks_intros]:
  "tracks room d S (returnM x)" "tracks room d S (throwM e)" "tracks room d S (guardM b e)" "tracks room d S (liftM r)"
  by (auto intro!: triple_intros intro: tracked_mono)

lemma tracks_bindM [tracks_intros]: "tracks room d S m \<Longrightarrow> (\<And>x. tracks room d S (f x)) \<Longrightarrow> tracks room d S (bindM m f)"
  by (rule triple_bindM)

lemma tracks_if [tracks_intros]:
  "(b \<Longrightarrow> tracks room d S m) \<Longrightarrow> (\<not> b \<Longrightarrow> tracks room d S n) \<Longrightarrow> tracks room d S (if b then m else n)"
  by simp

lemma tracks_used [tracks_intros]: "h \<in> S \<Longrightarrow> tracks room d S (outerM (logged [Used h] (\<lambda>_. []) m))"
proof (rule tripleI)
  fix x and st st' :: "session_state \<times> handle_event list \<times> 'a"
  assume "h \<in> S" and t: "tracked room d S st"
  then have "h \<in> set (se_handles (fst st))" by (auto simp: tracked_def)
  from tracked_log [OF _ this, of room d S "fst (snd st)" "snd (snd st)"] t
  have *: "tracked room d S (fst st, fst (snd st) @ [Used h], w')" for w' by simp
  { assume "outerM (logged [Used h] (\<lambda>_. []) m) st = (Inr x, st')"
    with * show "tracked room d S st'" by (auto simp: outerM_def logged_def split: prod.splits sum.splits) }
  { fix e assume "outerM (logged [Used h] (\<lambda>_. []) m) st = (Inl e, st')"
    with * show "tracked room d {} st'"
      by (auto simp: outerM_def logged_def intro: tracked_mono split: prod.splits sum.splits) }
qed

lemma tracks_notes [tracks_intros]: "tracks room d S (note_identity ob)" "tracks room d S (note_inventory f)"
  unfolding note_identity_def note_inventory_def
  by (rule tripleI; auto simp: run_iff raise_iff tracked_def)+

lemma tracks_catch_std [tracks_intros]:
  "tracks room d S m \<Longrightarrow> tracks room d S (catch_std m (\<lambda>s. throwM (h s)))"
  unfolding catch_std_def
  by (erule triple_catchM) (auto intro!: triple_intros simp: if_distrib)

text \<open>What is read from the session names handles that the session holds.\<close>

lemma triple_readM:
  assumes grant: "\<And>st :: session_state \<times> handle_event list \<times> 'w. tracked room d S st \<Longrightarrow> T (f (fst st)) \<subseteq> set (se_handles (fst st))"
    and rest: "\<And>x. triple (tracked room d (S \<union> T x)) (g x :: (session_state \<times> handle_event list \<times> 'w, 'a) cpp) Q (tracked room d {})"
  shows "triple (tracked room d S) (bindM (readM f) g) Q (tracked room d {})"
proof (rule triple_bindM)
  show "triple (tracked room d S) (readM f :: (session_state \<times> handle_event list \<times> 'w, _) cpp) (\<lambda>x. tracked room d (S \<union> T x)) (tracked room d {})"
  proof (rule tripleI)
    fix x and st st' :: "session_state \<times> handle_event list \<times> 'w"
    assume "tracked room d S st" "readM f st = (Inr x, st')"
    with grant [of st] show "tracked room d (S \<union> T x) st'" by (auto simp: run_iff tracked_def)
  qed (simp add: raise_iff)
qed (rule rest)

lemma triple_read_verified:
  "(\<And>x. triple (tracked room d (S \<union> v_handle ` set x)) (g x) Q (tracked room d {})) \<Longrightarrow>
     triple (tracked room d S) (bindM (readM se_verified) g) Q (tracked room d {})"
  by (rule triple_readM [where T = "\<lambda>nodes. v_handle ` set nodes"]) (auto simp: tracked_def)

lemma triple_read_directory:
  "(\<And>x. triple (tracked room True (S \<union> {x})) (g x) Q (tracked room True {})) \<Longrightarrow>
     triple (tracked room True S) (bindM (readM se_directory) g) Q (tracked room True {})"
  by (rule triple_readM [where T = "\<lambda>dir. {dir}"]) (auto simp: tracked_def)

lemma triple_read_child:
  "(\<And>x. triple (tracked room d (S \<union> ch_handle ` set_option x)) (g x) Q (tracked room d {})) \<Longrightarrow>
     triple (tracked room d S) (bindM (readM (\<lambda>s. map_at (se_children s) name)) g) Q (tracked room d {})"
  by (rule triple_readM [where T = "\<lambda>found. ch_handle ` set_option found"])
    (auto simp: tracked_def map_at_def dest!: map_of_SomeD)

lemma triple_read_any:
  "(\<And>x. triple (tracked room d S) (g x) Q (tracked room d {})) \<Longrightarrow> triple (tracked room d S) (bindM (readM f) g) Q (tracked room d {})"
  by (rule triple_readM [where T = "\<lambda>_. {}"]) auto

lemma tracks_weaken: "tracks room d (S \<union> T) m \<Longrightarrow> triple (tracked room d (S \<union> T)) m (\<lambda>_. tracked room d S) (tracked room d {})"
  by (erule triple_mono) (auto intro: tracked_mono)

lemma tracks_readM_any [tracks_intros]: "(\<And>x. tracks room d S (g x)) \<Longrightarrow> tracks room d S (bindM (readM f) g)"
  by (rule triple_read_any)

text \<open>Opening a handle and recording it.\<close>

lemma tracked_before:
  assumes "before = [] \<or> (\<exists>p\<in>S. before = [Used p])" and "tracked room d S (s, log, w)"
  shows "tracked room d S (s, log @ before, w')"
proof (cases "before = []")
  case True
  with assms(2) show ?thesis by (simp add: tracked_def)
next
  case False
  with assms(1) obtain p where p: "p \<in> S" "before = [Used p]" by blast
  with assms(2) have "p \<in> set (se_handles s)" by (auto simp: tracked_def)
  from tracked_log [OF assms(2) this] show ?thesis by (simp add: p(2))
qed

lemma tracked_opened:
  assumes "tracked room d S (s, log, w)" and "valid_handle h"
  shows "tracked room d (insert h S) (s\<lparr>se_handles := se_handles s @ [h]\<rparr>, log @ [Opened h], w')"
    and "\<not> room (log @ [Opened h], v) n \<Longrightarrow> tracked room d S (s, log @ [Opened h], w')"
proof -
  let ?log = "log @ [Opened h]"
  from assms(1) obtain leaked where l: "log_keeps (se_handles s) leaked log" "list_all (no_room room log) leaked"
    by (auto simp: tracked_def)
  then have all: "list_all (no_room room ?log) leaked" by (auto simp: list_all_iff no_room_append)
  have "log_keeps (se_handles s @ [h]) leaked ?log" by (rule log_keeps_opened(1) [OF l(1) assms(2)])
  with assms(1) all show "tracked room d (insert h S) (s\<lparr>se_handles := se_handles s @ [h]\<rparr>, ?log, w')"
    by (auto simp: tracked_def)
  assume "\<not> room (?log, v) n"
  then have "no_room room ?log h" unfolding no_room_def by blast
  moreover have "log_keeps (se_handles s) (h # leaked) ?log" by (rule log_keeps_opened(2) [OF l(1) assms(2)])
  ultimately have "\<exists>leaked. log_keeps (se_handles s) leaked ?log \<and> list_all (no_room room ?log) leaked"
    using all by (intro exI [of _ "h # leaked"]) simp
  with assms(1) show "tracked room d S (s, ?log, w')" by (simp add: tracked_def)
qed

lemma tracks_open:
  assumes "before = [] \<or> (\<exists>p\<in>S. before = [Used p])" and "\<And>w h w'. m w = (Inr h, w') \<Longrightarrow> valid_handle h"
    and "\<And>h. triple (tracked room d (insert h S)) (f h) Q (tracked room d {})"
  shows "triple (tracked room d S)
    (bindM (outerM (logged before (\<lambda>h. [Opened h]) m)) (\<lambda>h. bindM (push_handle room h) (\<lambda>_. f h))) Q (tracked room d {})"
proof -
  let ?open = "bindM (outerM (logged before (\<lambda>h. [Opened h]) m)) (\<lambda>h. bindM (push_handle room h) (\<lambda>_. returnM h))"
  have "triple (tracked room d S) ?open (\<lambda>h. tracked room d (insert h S)) (tracked room d {})"
  proof (rule tripleI; clarify)
    fix s log w x s' log' w'
    assume t: "tracked room d S (s, log, w)" and "?open (s, log, w) = (Inr x, s', log', w')"
    then have *: "valid_handle x" "s' = s\<lparr>se_handles := se_handles s @ [x]\<rparr>" "log' = (log @ before) @ [Opened x]"
      using assms(2) by (auto simp: run_iff logged_def split: prod.splits sum.splits)
    show "tracked room d (insert x S) (s', log', w')"
      unfolding *(2,3) by (rule tracked_opened(1) [OF tracked_before [OF assms(1) t] *(1)])
  next
    fix s log w e s' log' w'
    assume t: "tracked room d S (s, log, w)" and "?open (s, log, w) = (Inl e, s', log', w')"
    then consider "s' = s" "log' = log @ before"
      | h n where "s' = s" "log' = (log @ before) @ [Opened h]" "valid_handle h" "\<not> room ((log @ before) @ [Opened h], w') n"
      using assms(2) by (auto simp: raise_iff run_iff logged_def split: prod.splits sum.splits)
    then have "tracked room d S (s', log', w')"
    proof cases
      case 1
      with tracked_before [OF assms(1) t] show ?thesis by simp
    next
      case (2 h n)
      from tracked_opened(2) [OF tracked_before [OF assms(1) t] 2(3,4)] show ?thesis unfolding 2(1,2) .
    qed
    then show "tracked room d {} (s', log', w')" by (rule tracked_mono) simp
  qed
  from triple_bindM [OF this assms(3)] show ?thesis by (simp add: bindM_assoc bindM_returnM)
qed

section \<open>The methods\<close>

lemma verify_node_tracks [tracks_intros]:
  "v_handle node \<in> S \<Longrightarrow> tracks room d S (verify_node (logged_native calls) node step)"
  unfolding verify_node_def logged_native_sel by (intro tracks_intros)

lemma tracks_forM [tracks_intros]: "(\<And>x. x \<in> set xs \<Longrightarrow> tracks room d S (f x)) \<Longrightarrow> tracks room d S (forM xs f)"
  by (induction xs) (auto intro!: tracks_intros)

lemma directory_identity_tracks [tracks_intros]:
  "tracks room d S (directory_identity tc config (logged_native calls))"
  unfolding directory_identity_def
  by (rule triple_read_verified)
    (rule tracks_weaken, auto intro!: tracks_intros)

lemma page_entries_tracks [tracks_intros]: "tracks room d S (page_entries tc config natives result observed)"
  by (induction tc config natives result observed rule: page_entries.induct) (auto intro!: tracks_intros)

lemma inventory_pages_tracks [tracks_intros]:
  "tracks room True S (inventory_pages left n tc config (logged_native calls) result observed)"
proof (induction left n tc config calls result observed arbitrary: S rule: inventory_pages.induct)
  case (2 left n tc config calls result observed)
  show ?case unfolding inventory_pages.simps logged_native_sel
    by (rule triple_read_directory)
      (rule tracks_weaken, auto intro!: tracks_intros "2.IH" split: prod.splits)
qed (auto intro: tracks_intros)

lemma tracks_localM [tracks_intros]:
  "(\<And>s. se_handles (f s) = se_handles s \<and> se_verified (f s) = se_verified s \<and> se_children (f s) = se_children s \<and>
     se_directory (f s) = se_directory s) \<Longrightarrow> tracks room d S (localM f)"
  by (rule tripleI) (auto simp: run_iff raise_iff tracked_def)

lemma inventory_tracks: "tracks room True S (inventory tc config (logged_native calls))"
  unfolding inventory_def by (auto intro!: tracks_intros split: prod.splits)

lemma open_child_tracks:
  assumes "opens_valid calls"
  shows "triple (tracked room True S) (open_child room tc config (logged_native calls) name) (\<lambda>c. tracked room True {ch_handle c}) (tracked room True {})"
proof -
  let ?Q = "\<lambda>c. tracked room True {ch_handle c}"
  have valid: "valid_handle h" if "nc_open_relative calls dir component spec ob profile w = (Inr h, w')"
    for h dir component spec ob profile w w' using that assms unfolding opens_valid_def by blast
  have final: "triple (tracked room True (insert h U)) (returnM \<lparr>ch_handle = h, ch_component = component, ch_initial = actual\<rparr>) ?Q (tracked room True {})"
    for h U component actual by (rule triple_returnM) (auto intro: tracked_mono)
  show ?thesis unfolding open_child_def logged_native_sel
    by (intro triple_bindM [OF tracks_pure(3)] triple_bindM [OF tracks_pure(4)] triple_bindM [OF tracks_catch_std] tracks_pure
       triple_bindM [OF tracks_used] triple_bindM [OF tracks_notes(1)] final tracks_open [OF _ valid]
       triple_read_directory triple_read_any) auto
qed

lemma set_map_emplace: "set (map_emplace k v m) \<subseteq> insert (k, v) (set m)"
  by (induction k v m rule: map_emplace.induct) auto

lemma record_child_tracks:
  "triple (tracked room True {ch_handle c}) (localM (\<lambda>s. s\<lparr>se_children := map_emplace name c (se_children s)\<rparr>))
     (\<lambda>_. tracked room True {}) (tracked room True {})"
  by (rule tripleI) (auto simp: run_iff raise_iff tracked_def dest!: subsetD [OF set_map_emplace])

lemma hold_child_tracks: "opens_valid calls \<Longrightarrow> tracks room True {} (hold_child room tc config (logged_native calls) name)"
  unfolding hold_child_def by (rule triple_bindM [OF open_child_tracks record_child_tracks])

lemma bindM_throwM: "bindM (throwM e) f = throwM e"
  by (rule ext) (simp add: bindM_def throwM_def)

lemma find_child_tracks:
  "(\<And>c. triple (tracked room True {ch_handle c}) (g c) Q (tracked room True {})) \<Longrightarrow>
     triple (tracked room True {}) (bindM (find_child name) g) Q (tracked room True {})"
  unfolding find_child_def bindM_assoc
proof (rule triple_read_child)
  fix found
  assume *: "\<And>c. triple (tracked room True {ch_handle c}) (g c) Q (tracked room True {})"
  show "triple (tracked room True ({} \<union> ch_handle ` set_option found)) (bindM (case found of Some c \<Rightarrow> returnM c
     | None \<Rightarrow> throwM (observe Err_incomplete name child_profile ''held-child'' ''child handle is not held'')) g) Q (tracked room True {})"
    using * [of "the found"]
    by (cases found) (auto simp: bindM_returnM bindM_throwM intro!: triple_throwM)
qed

lemma held_identity_tracks: "tracks room True {} (held_identity tc config (logged_native calls) name)"
  unfolding held_identity_def logged_native_sel
  by (rule find_child_tracks, rule tracks_weaken [where S = "{}", simplified]) (auto intro!: tracks_intros)

lemma read_child_tracks: "tracks room True {} (read_child (logged_native calls) name)"
  unfolding read_child_def logged_native_sel
  by (rule find_child_tracks, rule tracks_weaken [where S = "{}", simplified]) (auto intro!: tracks_intros)

section \<open>Opening\<close>

lemma push_verified_tracks [tracks_intros]: "v_handle v \<in> S \<Longrightarrow> tracks room d S (push_verified v)"
  unfolding push_verified_def by (rule tripleI) (auto simp: run_iff raise_iff tracked_def)

lemma open_ancestors_tracks:
  assumes "opens_valid calls" and "current \<in> S"
  shows "triple (tracked room False S) (open_ancestors room tc (logged_native calls) nodes current parent)
    (\<lambda>(h, p). tracked room False {h}) (tracked room False {})"
  using assms(2)
proof (induction nodes arbitrary: S current parent)
  case Nil
  then show ?case by (auto intro!: triple_intros intro: tracked_mono)
next
  case (Cons ancestor rest)
  have valid: "valid_handle h" if "nc_open_relative calls dir component spec ob profile w = (Inr h, w')"
    for h dir component spec ob profile w w' using that assms(1) unfolding opens_valid_def by blast
  show ?case unfolding open_ancestors.simps logged_native_sel Let_def
    by (intro triple_bindM [OF tracks_pure(4)] tracks_open [OF _ valid] triple_bindM [OF push_verified_tracks]
       triple_bindM [OF verify_node_tracks] Cons.IH) (auto simp: Cons.prems)
qed

lemma set_directory_tracks:
  "dir \<in> S \<Longrightarrow> triple (tracked room False S) (localM (\<lambda>s. s\<lparr>se_directory := dir\<rparr>)) (\<lambda>_. tracked room True S) (tracked room False {})"
  by (rule tripleI) (auto simp: run_iff raise_iff tracked_def)

lemma tracks_ready: "tracks room True S m \<Longrightarrow> triple (tracked room True S) m (\<lambda>_. tracked room True {}) (tracked room False {})"
  by (erule triple_mono) (auto simp: tracked_def)

lemma initialize_tracks:
  assumes "opens_valid calls"
  shows "triple (tracked room False {}) (initialize room tc config (logged_native calls)) (\<lambda>_. tracked room True {}) (tracked room False {})"
proof -
  have valid: "valid_handle h" if "nc_open_relative calls dir component spec ob profile w = (Inr h, w')"
    for h dir component spec ob profile w w' using that assms unfolding opens_valid_def by blast
  have root: "valid_handle h" if "nc_open_root calls path spec w = (Inr h, w')" for path spec w h w'
    using that assms unfolding opens_valid_def by blast
  have directory: "triple (tracked room False {current})
     (bindM (outerM (nc_open_relative (logged_native calls) current (x_component (sc_state_directory config)) snapshot_directory_spec
        ''state/'' directory_profile)) (\<lambda>dir.
     bindM (push_handle room dir) (\<lambda>_.
     bindM (localM (\<lambda>s. s\<lparr>se_directory := dir\<rparr>)) (\<lambda>_.
     bindM (liftM (identity_key tc parent)) (\<lambda>parent_id.
     let node = \<lparr>v_handle = dir, v_expected = x_identity (sc_state_directory config), v_object = ''state/'',
                 v_profile = directory_profile, v_parent_id = parent_id\<rparr> in
     bindM (push_verified node) (\<lambda>_.
     bindM (verify_node (logged_native calls) node ''state-directory-identity'') (\<lambda>_.
     liftM (require_parent_binding (x_identity (sc_state_directory config)) parent
        (x_component (sc_state_directory config)) ''state/'' directory_profile))))))))
     (\<lambda>_. tracked room True {}) (tracked room False {})" for current parent
    unfolding logged_native_sel Let_def
    by (intro tracks_open [OF _ valid] triple_bindM [OF set_directory_tracks] tracks_ready tracks_intros) auto
  show ?thesis unfolding initialize_def Let_def logged_native_sel(1)
    by (intro tracks_open [OF _ root] triple_bindM [OF push_verified_tracks] triple_bindM [OF verify_node_tracks]
      triple_bindM [OF open_ancestors_tracks [OF assms]]) (auto split: prod.splits intro!: directory [unfolded Let_def])
qed

section \<open>The life of a session\<close>

datatype session_call =
  Directory_identity | Inventory | Hold_child string | Held_identity string | Read_child string

text \<open>One call, with its outcome dropped: a client may go on after an exception.\<close>

definition session_step ::
  "('w \<Rightarrow> nat \<Rightarrow> bool) \<Rightarrow> text_calls \<Rightarrow> snapshot_config \<Rightarrow> 'w native_calls \<Rightarrow> session_call \<Rightarrow> session_state \<times> 'w \<Rightarrow> session_state \<times> 'w"
where
  "session_step room tc config calls c st = (case c of
       Directory_identity \<Rightarrow> snd (directory_identity tc config calls st)
     | Inventory \<Rightarrow> snd (inventory tc config calls st)
     | Hold_child name \<Rightarrow> snd (hold_child room tc config calls name st)
     | Held_identity name \<Rightarrow> snd (held_identity tc config calls name st)
     | Read_child name \<Rightarrow> snd (read_child calls name st))"

text \<open>Opened, used and destroyed; a session whose initialization throws is destroyed at once.\<close>

definition session_life ::
  "('w \<Rightarrow> nat \<Rightarrow> bool) \<Rightarrow> text_calls \<Rightarrow> snapshot_config \<Rightarrow> 'w native_calls \<Rightarrow> session_call list \<Rightarrow> snapshot_audit \<Rightarrow> 'w \<Rightarrow> 'w"
where
  "session_life room tc config calls cs audit w = (case initialize room tc config calls (new_session audit, w) of
       (Inl e, (s, w')) \<Rightarrow> close_session calls s w'
     | (Inr u, (s, w')) \<Rightarrow> (case fold (session_step room tc config calls) cs (s, w') of (s', w'') \<Rightarrow> close_session calls s' w''))"

lemma tracks_snd: "tracks room d {} m \<Longrightarrow> tracked room d {} st \<Longrightarrow> tracked room d {} (snd (m st))"
  by (cases "m st"; cases "fst (m st)") (auto dest: tripleD)

lemma session_step_tracked:
  assumes "opens_valid calls" and "tracked room True {} st"
  shows "tracked room True {} (session_step room tc config (logged_native calls) c st)"
  by (cases c) (auto simp: session_step_def intro!: tracks_snd [OF _ assms(2)] directory_identity_tracks inventory_tracks
      hold_child_tracks [OF assms(1)] held_identity_tracks read_child_tracks)

lemma session_steps_tracked:
  assumes "opens_valid calls" and "tracked room True {} st"
  shows "tracked room True {} (fold (session_step room tc config (logged_native calls)) cs st)"
  using assms(2)
proof (induction cs arbitrary: st)
  case (Cons c cs)
  from Cons.IH [OF session_step_tracked [OF assms(1) Cons.prems]] show ?case by simp
qed simp

lemma close_session_log: "fst (close_session (logged_native calls) s (log, w)) = log @ map Closed (rev (se_handles s))"
proof -
  have "fst (fold (nc_close (logged_native calls)) hs (log, w)) = log @ map Closed hs" for hs
    by (induction hs arbitrary: log w) (simp_all add: logged_native_sel)
  then show ?thesis by (simp add: close_session_def)
qed

lemma log_keeps_closed: "log_holds hs log \<Longrightarrow> log_holds [] (log @ map Closed (rev hs))"
proof (induction hs arbitrary: log rule: rev_induct)
  case (snoc h hs)
  from snoc.IH [OF log_holds_closed [OF snoc.prems]] show ?case by simp
qed simp

lemma closed_count_end:
  "\<forall>h. Closed h \<notin> set log \<Longrightarrow> closed_count h (log @ map Closed hs) = count_list hs h"
  "opened_count h (log @ map Closed hs) = opened_count h log"
  by (induction hs) (auto simp: closed_count_def opened_count_def filter_empty_conv)

text \<open>The log of a life: the calls, then the destructor.\<close>

definition custody ::
  "(handle_event list \<times> 'w \<Rightarrow> nat \<Rightarrow> bool) \<Rightarrow> handle_event list \<Rightarrow> handle_event list \<Rightarrow> handle list \<Rightarrow> handle list \<Rightarrow> bool"
where
  "custody room log calls_log hs leaked \<longleftrightarrow> log = calls_log @ map Closed (rev hs) \<and> (\<forall>h. Closed h \<notin> set calls_log) \<and>
     log_keeps hs leaked calls_log \<and> list_all (no_room room calls_log) leaked"

lemma tracked_custody:
  "tracked room d S (s, log, w) \<Longrightarrow> \<exists>leaked. custody room (fst (close_session (logged_native calls) s (log, w))) log (se_handles s) leaked"
  by (auto simp: custody_def tracked_def close_session_log)

lemma session_life_custody:
  assumes "opens_valid calls"
  shows "\<exists>calls_log hs leaked.
    custody room (fst (session_life room tc config (logged_native calls) cs audit ([], w))) calls_log hs leaked"
proof -
  obtain r s log w' where run: "initialize room tc config (logged_native calls) (new_session audit, [], w) = (r, (s, log, w'))"
    by (metis surj_pair)
  have start: "tracked room False {} (new_session audit, [], w)"
    by (auto simp: tracked_def new_session_def intro!: exI [of _ "[]"] log_keeps_empty)
  show ?thesis
  proof (cases r)
    case (Inl e)
    with tripleD(2) [OF initialize_tracks [OF assms] start] run have "tracked room False {} (s, log, w')" by blast
    from tracked_custody [OF this, of calls] run Inl show ?thesis by (auto simp: session_life_def)
  next
    case (Inr u)
    with tripleD(1) [OF initialize_tracks [OF assms] start] run have "tracked room True {} (s, log, w')" by blast
    from session_steps_tracked [OF assms this, of tc config cs] obtain s2 log2 w2 where
      "fold (session_step room tc config (logged_native calls)) cs (s, log, w') = (s2, log2, w2)"
      and "tracked room True {} (s2, log2, w2)" by (metis surj_pair)
    with tracked_custody [OF this(2), of calls] run Inr show ?thesis by (auto simp: session_life_def)
  qed
qed

lemma custody_count:
  "custody room log calls_log hs leaked \<Longrightarrow> valid_handle h \<Longrightarrow> opened_count h log = closed_count h log + count_list leaked h"
  using log_keeps_count [of hs leaked calls_log h] closed_count_end(1) [of calls_log h "rev hs"] closed_count_end(1) [of calls_log h "[]"]
    closed_count_end(2) [of h calls_log "rev hs"]
  by (simp add: custody_def count_list_rev)

lemma custody_roomy: "custody room log calls_log hs leaked \<Longrightarrow> \<forall>v n. room v n \<Longrightarrow> leaked = [] \<and> log_holds [] log"
  by (cases leaked) (auto simp: custody_def no_room_def log_keeps_none log_keeps_closed)

text \<open>\<^bold>\<open>C31.\<close> The custody of a session's handles: over native calls that open a valid handle or throw, a session is
  opened, used by any sequence of calls with any outcome of each, and destroyed, or destroyed at once when
  its initialization throws.  The destructor closes the handles of the session once each, the last opened
  first, and nothing else closes one; before that, every handle is used only while it is open.  A handle
  that was opened and is never closed is one for which \<^verbatim>\<open>handles_.push_back\<close> had no room, right after
  its opening: for every handle value the openings are the closings and those leaks.  So when the
  vector can always grow, every handle that was opened is closed exactly once, in reverse order.\<close>

theorem session_handles_closed:
  assumes "opens_valid calls" and "log = fst (session_life room tc config (logged_native calls) cs audit ([], w))"
  shows "(\<exists>calls_log hs leaked. log = calls_log @ map Closed (rev hs) \<and> (\<forall>h. Closed h \<notin> set calls_log) \<and>
      log_keeps hs leaked calls_log \<and> list_all (no_room room calls_log) leaked \<and>
      (\<forall>h. valid_handle h \<longrightarrow> opened_count h log = closed_count h log + count_list leaked h)) \<and>
    ((\<forall>v n. room v n) \<longrightarrow> log_holds [] log \<and> (\<forall>h. valid_handle h \<longrightarrow> closed_count h log = opened_count h log))"
proof -
  from session_life_custody [OF assms(1), of room tc config cs audit w] obtain calls_log hs leaked where
    c: "custody room log calls_log hs leaked" unfolding assms(2) by blast
  from c [unfolded custody_def] custody_count [OF c] custody_roomy [OF c] closed_as_opened show ?thesis by blast
qed

text \<open>The leak is real: when the vector cannot take its first handle, the volume root stays open.\<close>

theorem session_handle_leak:
  "fst (session_life (\<lambda>w n. n \<noteq> 0) tc config (logged_native sample_native) cs audit ([], w)) = [Opened 16]"
  by (simp add: session_life_def initialize_def logged_native_def logged_def sample_native_def push_handle_def close_session_def
      new_session_def bindM_def outerM_def returnM_def)

lemma sample_native_opens: "opens_valid sample_native"
  by (auto simp: opens_valid_def sample_native_def run_iff valid_handle_def null_handle_def invalid_handle_value_def)

theorem session_handles_closed_witness:
  "log_holds [] (fst (session_life roomy ascii_text_calls sample_config (logged_native sample_native)
     [Inventory, Hold_child ''lock.bin'', Read_child ''lock.bin'', Inventory]
     \<lparr>au_system_backend = False, au_identities = [], au_inventories = []\<rparr> ([], ())))"
  using session_handles_closed [OF sample_native_opens refl, where room = roomy and tc = ascii_text_calls and config = sample_config
     and cs = "[Inventory, Hold_child ''lock.bin'', Read_child ''lock.bin'', Inventory]"
     and audit = "\<lparr>au_system_backend = False, au_identities = [], au_inventories = []\<rparr>" and w = "()"] by simp

end
