(* ===== verification/Authority_Binding.thy ===== *)
theory Authority_Binding
  imports Snapshot_Runs
begin

text \<open>
  The authority binding (\<^verbatim>\<open>authority_binding.hpp\<close>, \<^verbatim>\<open>authority_binding.cpp\<close>): before a snapshot is
  compared, the protected P10 and P11 contents are bound to the approved record, to the frozen case
  and to the SID of the controller.  The result is a local object of the function that its three
  handlers complete, so the body is a computation on the pair of the result and the world.
\<close>

section \<open>Data\<close>

record approved_authority_binding =
  ap_created_sids :: sid_set
  ap_reviewed_images :: p10_build_hashes
  ap_rendered_p10_sha256 :: string
  ap_selected_case_id :: string
  ap_selected_p11_sha256 :: string
  ap_state_directory_identity :: string

record 'w protected_authority_reader =
  par_read_verified_p10 :: "('w, string) cpp"
  par_read_authenticated_fixture_head :: "('w, string) cpp"

record bound_comparison_input =
  bi_fixture :: fixture_case
  bi_state_directory_identity :: string
  bi_protected_p11_bytes :: string
  bi_rendered_p10_sha256 :: string

record authority_binding_evidence =
  ae_ready_for_snapshot :: bool
  ae_error :: error_kind
  ae_object :: string
  ae_profile :: string
  ae_step :: string
  ae_detail :: string
  ae_p10_sha256 :: string
  ae_p11_sha256 :: string
  ae_case_id :: string
  ae_ntstatus :: int
  ae_win32_error :: u32
  ae_has_ntstatus :: bool
  ae_has_win32_error :: bool

record authority_binding_result =
  ar_evidence :: authority_binding_evidence
  ar_comparison_input :: "bound_comparison_input option"

definition authority_evidence_init :: authority_binding_evidence where
  "authority_evidence_init = \<lparr>ae_ready_for_snapshot = False, ae_error = Err_none, ae_object = [], ae_profile = [],
     ae_step = [], ae_detail = [], ae_p10_sha256 = [], ae_p11_sha256 = [], ae_case_id = [], ae_ntstatus = 0,
     ae_win32_error = 0, ae_has_ntstatus = False, ae_has_win32_error = False\<rparr>"

definition authority_result_init :: authority_binding_result where
  "authority_result_init = \<lparr>ar_evidence = authority_evidence_init, ar_comparison_input = None\<rparr>"

section \<open>Operations\<close>

definition p10_profile :: string where
  "p10_profile = ''protected-P10/handle-bound-identity-read''"

definition p11_profile :: string where
  "p11_profile = ''A3/ReadFixtureHead/authenticated-response''"

definition binding_stop :: "error_kind \<Rightarrow> string \<Rightarrow> string \<Rightarrow> string \<Rightarrow> string \<Rightarrow> exn" where
  "binding_stop kind ob profile step message = observe kind ob profile step message"

definition checked_hash :: "'w bcrypt \<Rightarrow> string \<Rightarrow> string \<Rightarrow> string \<Rightarrow> ('w, string) cpp" where
  "checked_hash bc bs ob step = catch_std (sha256 bc bs)
     (\<lambda>what. throwM (observe Err_hash_failure ob ''BCrypt-SHA256/authority-binding'' step what))"

text \<open>The nine comparisons of the selected case with the frozen one.\<close>

definition case_differs :: "fixture_case option \<Rightarrow> fixture_case \<Rightarrow> bool" where
  "case_differs frozen selected = (case frozen of None \<Rightarrow> True | Some f \<Rightarrow>
     c_state f \<noteq> c_state selected \<or> c_status f \<noteq> c_status selected \<or>
     c_generation f \<noteq> c_generation selected \<or> c_worker_runs f \<noteq> c_worker_runs selected \<or>
     c_old_files f \<noteq> c_old_files selected \<or> c_latest_files f \<noteq> c_latest_files selected \<or>
     c_old_digest f \<noteq> c_old_digest selected \<or> c_latest_digest f \<noteq> c_latest_digest selected)"

text \<open>A read through the reader, with the handlers around it.\<close>

definition guarded_read :: "('w, string) cpp \<Rightarrow> string \<Rightarrow> string \<Rightarrow> string \<Rightarrow> string \<Rightarrow> ('w, string) cpp" where
  "guarded_read m ob profile step foreign = catch_chain m
     (\<lambda>f. throwM (Observation f))
     (\<lambda>what. throwM (observe Err_incomplete ob profile step what))
     (throwM (observe Err_incomplete ob profile step foreign))"

abbreviation set_evidence ::
  "(authority_binding_evidence \<Rightarrow> authority_binding_evidence) \<Rightarrow> (authority_binding_result \<times> 'w, unit) cpp"
where
  "set_evidence g \<equiv> localM (\<lambda>r. r\<lparr>ar_evidence := g (ar_evidence r)\<rparr>)"

text \<open>The statements of the \<^verbatim>\<open>try\<close> block up to the P10 read: selection, frozen case, controller SID and
  the approved rendering.  The result is the expected P10 text.\<close>

definition approve_p10 ::
  "'w bcrypt \<Rightarrow> approved_authority_binding \<Rightarrow> fixture_case \<Rightarrow> string \<Rightarrow> ('w, string) cpp"
where
  "approve_p10 bc approved selected_case actual_controller_sid =
     bindM (guardM (\<not> (ap_selected_case_id approved \<noteq> c_id selected_case \<or> ap_state_directory_identity approved = []))
       (binding_stop Err_binding_failure ''P10'' p10_profile ''g2-selection''
          ''case or state-directory binding missing'')) (\<lambda>_.
     bindM (catch_std (fixture_cases bc)
         (\<lambda>what. throwM (observe Err_hash_failure ''P10'' ''BCrypt-SHA256/frozen-case'' ''frozen-case-digest'' what)))
       (\<lambda>frozen_cases.
     bindM (guardM (\<not> case_differs (find (\<lambda>item. c_id item = c_id selected_case) frozen_cases) selected_case)
       (binding_stop Err_binding_failure ''P10'' p10_profile ''frozen-case''
          ''selected fixture differs from frozen source case'')) (\<lambda>_.
     bindM (guardM (\<not> (actual_controller_sid = [] \<or> actual_controller_sid \<noteq> sid_controller (ap_created_sids approved)))
       (binding_stop Err_binding_failure ''A2-token'' p10_profile ''controller-sid''
          ''actual controller SID differs from created C SID'')) (\<lambda>_.
     bindM (catch_std (render_p10 bc (ap_created_sids approved) (ap_reviewed_images approved))
         (\<lambda>what. throwM (observe Err_binding_failure ''P10'' p10_profile ''g2-render'' what))) (\<lambda>expected_p10.
     bindM (checked_hash bc expected_p10 ''P10'' ''p10-expected-hash'') (\<lambda>expected_p10_hash.
     bindM (guardM (\<not> expected_p10_hash \<noteq> ap_rendered_p10_sha256 approved)
       (binding_stop Err_binding_failure ''P10'' p10_profile ''g2-rendered-hash''
          ''rendered P10 differs from approved G2 hash'')) (\<lambda>_.
     returnM expected_p10)))))))"

text \<open>From the observed P10 to the expected P11, after P10 has been read.\<close>

definition bind_p10 ::
  "'w bcrypt \<Rightarrow> approved_authority_binding \<Rightarrow> fixture_case \<Rightarrow> string \<Rightarrow> string \<Rightarrow>
   (authority_binding_result \<times> 'w, string) cpp"
where
  "bind_p10 bc approved selected_case expected_p10 observed_p10 =
     bindM (guardM (\<not> observed_p10 \<noteq> expected_p10)
       (binding_stop Err_binding_failure ''P10'' p10_profile ''p10-canonical-bytes''
          ''P10 bytes differ from approved canonical rendering'')) (\<lambda>_.
     bindM (outerM (checked_hash bc observed_p10 ''P10'' ''p10-observed-hash'')) (\<lambda>h.
     bindM (set_evidence (\<lambda>e. e\<lparr>ae_p10_sha256 := h\<rparr>)) (\<lambda>_.
     bindM (guardM (\<not> h \<noteq> ap_rendered_p10_sha256 approved)
       (binding_stop Err_binding_failure ''P10'' p10_profile ''p10-observed-hash''
          ''observed P10 hash differs from G2 record'')) (\<lambda>_.
     bindM (catch_std (liftM (render_p11 selected_case h))
         (\<lambda>what. throwM (observe Err_binding_failure ''P11'' p11_profile ''case-head-render'' what))) (\<lambda>expected_p11.
     bindM (outerM (checked_hash bc expected_p11 ''P11'' ''p11-expected-hash'')) (\<lambda>expected_p11_hash.
     bindM (guardM (\<not> expected_p11_hash \<noteq> ap_selected_p11_sha256 approved)
       (binding_stop Err_binding_failure ''P11'' p11_profile ''g2-head-hash''
          ''selected P11 differs from approved G2 hash'')) (\<lambda>_.
     returnM expected_p11)))))))"

text \<open>The end of the block, after P11 has been read.\<close>

definition bind_p11 ::
  "'w bcrypt \<Rightarrow> approved_authority_binding \<Rightarrow> fixture_case \<Rightarrow> string \<Rightarrow> string \<Rightarrow>
   (authority_binding_result \<times> 'w, unit) cpp"
where
  "bind_p11 bc approved selected_case expected_p11 observed_p11 =
     bindM (guardM (\<not> observed_p11 \<noteq> expected_p11)
       (binding_stop Err_binding_failure ''P11'' p11_profile ''head-canonical-bytes''
          ''A3 head differs from selected canonical fixture record'')) (\<lambda>_.
     bindM (outerM (checked_hash bc observed_p11 ''P11'' ''p11-observed-hash'')) (\<lambda>h.
     bindM (set_evidence (\<lambda>e. e\<lparr>ae_p11_sha256 := h\<rparr>)) (\<lambda>_.
     bindM (guardM (\<not> h \<noteq> ap_selected_p11_sha256 approved)
       (binding_stop Err_binding_failure ''P11'' p11_profile ''p11-observed-hash''
          ''observed P11 hash differs from G2 record'')) (\<lambda>_.
     bindM (localM (\<lambda>r. r\<lparr>ar_comparison_input := Some
        \<lparr>bi_fixture = selected_case, bi_state_directory_identity = ap_state_directory_identity approved,
         bi_protected_p11_bytes = observed_p11, bi_rendered_p10_sha256 = ae_p10_sha256 (ar_evidence r)\<rparr>\<rparr>)) (\<lambda>_.
     set_evidence (\<lambda>e. e\<lparr>ae_ready_for_snapshot := True,
        ae_detail := ''canonical protected content bound; native reader proof and snapshot remain separate''\<rparr>))))))"

definition bind_body ::
  "'w bcrypt \<Rightarrow> 'w protected_authority_reader \<Rightarrow> approved_authority_binding \<Rightarrow> fixture_case \<Rightarrow> string \<Rightarrow>
   (authority_binding_result \<times> 'w, unit) cpp"
where
  "bind_body bc reader approved selected_case actual_controller_sid =
     bindM (set_evidence (\<lambda>e. e\<lparr>ae_case_id := c_id selected_case\<rparr>)) (\<lambda>_.
     bindM (outerM (approve_p10 bc approved selected_case actual_controller_sid)) (\<lambda>expected_p10.
     bindM (outerM (guarded_read (par_read_verified_p10 reader) ''P10'' p10_profile ''read-verified-p10''
        ''non-standard C++ exception from P10 reader'')) (\<lambda>observed_p10.
     bindM (bind_p10 bc approved selected_case expected_p10 observed_p10) (\<lambda>expected_p11.
     bindM (outerM (guarded_read (par_read_authenticated_fixture_head reader) ''P11'' p11_profile ''read-fixture-head''
        ''non-standard C++ exception from P11 reader'')) (\<lambda>observed_p11.
     bind_p11 bc approved selected_case expected_p11 observed_p11)))))"

definition stop_binding :: "observation_failure \<Rightarrow> authority_binding_result \<Rightarrow> authority_binding_result" where
  "stop_binding f r = r\<lparr>ar_comparison_input := None,
     ar_evidence := (ar_evidence r)\<lparr>ae_ready_for_snapshot := False, ae_error := f_kind f,
       ae_object := f_object f, ae_profile := f_profile f, ae_step := f_step f, ae_detail := f_message f,
       ae_ntstatus := f_ntstatus f, ae_has_ntstatus := f_has_ntstatus f,
       ae_win32_error := f_win32_error f, ae_has_win32_error := f_has_win32_error f\<rparr>\<rparr>"

definition stop_unclassified_binding :: "string \<Rightarrow> authority_binding_result \<Rightarrow> authority_binding_result" where
  "stop_unclassified_binding msg r = r\<lparr>ar_comparison_input := None,
     ar_evidence := (ar_evidence r)\<lparr>ae_ready_for_snapshot := False, ae_error := Err_incomplete,
       ae_object := ''P10/P11'', ae_profile := ''protected-authority-binding'',
       ae_step := ''unclassified-binding'', ae_detail := msg\<rparr>\<rparr>"

definition bind_protected_authority ::
  "'w bcrypt \<Rightarrow> 'w protected_authority_reader \<Rightarrow> approved_authority_binding \<Rightarrow> fixture_case \<Rightarrow> string \<Rightarrow>
   ('w, authority_binding_result) cpp"
where
  "bind_protected_authority bc reader approved selected_case actual_controller_sid =
     with_local authority_result_init
       (catch_chain (bind_body bc reader approved selected_case actual_controller_sid)
         (\<lambda>f. localM (stop_binding f))
         (\<lambda>what. localM (stop_unclassified_binding what))
         (localM (stop_unclassified_binding ''unexpected non-standard C++ exception'')))"

section \<open>A successful binding\<close>

lemma checked_hash_ok [run_iff]:
  "checked_hash bc bs ob step w = (Inr h, w') \<longleftrightarrow> sha256 bc bs w = (Inr h, w')"
  by (simp add: checked_hash_def run_iff)

lemma guarded_read_ok [run_iff]:
  "guarded_read m ob profile step foreign w = (Inr x, w') \<longleftrightarrow> m w = (Inr x, w')"
  by (simp add: guarded_read_def run_iff)

lemma case_same: "\<not> case_differs (find (\<lambda>item. c_id item = c_id sel) cs) sel \<Longrightarrow> sel \<in> set cs"
  by (auto simp: case_differs_def find_Some_iff split: option.splits) (metis fixture_case.equality nth_mem old.unit.exhaust)

lemma approve_p10_ok:
  assumes "bcrypt_computes bc H" and "approve_p10 bc approved sel csid w = (Inr p10, w')"
  shows "sel \<in> set (frozen_cases H) \<and> csid \<noteq> [] \<and> csid = sid_controller (ap_created_sids approved) \<and>
    ap_selected_case_id approved = c_id sel \<and> ap_state_directory_identity approved \<noteq> [] \<and>
    distinct_sids (ap_created_sids approved) \<and> reviewed_hashes (ap_reviewed_images approved) \<and>
    p10 = p10_text H (ap_created_sids approved) (ap_reviewed_images approved) \<and>
    ap_rendered_p10_sha256 approved = hex_bytes (H p10)"
proof -
  from assms(2) obtain cs w1 w2 w3 w4 h where r: "ap_selected_case_id approved = c_id sel"
      "ap_state_directory_identity approved \<noteq> []" "fixture_cases bc w1 = (Inr cs, w2)"
      "\<not> case_differs (find (\<lambda>item. c_id item = c_id sel) cs) sel" "csid \<noteq> []"
      "csid = sid_controller (ap_created_sids approved)"
      "render_p10 bc (ap_created_sids approved) (ap_reviewed_images approved) w2 = (Inr p10, w3)"
      "sha256 bc p10 w3 = (Inr h, w4)" "h = ap_rendered_p10_sha256 approved"
    unfolding approve_p10_def by (auto simp: run_iff)
  with case_same [OF r(4)] fixture_cases_value [OF assms(1) r(3)] bcrypt_hash.hash_value [OF assms(1) r(8)]
    render_p10_value [OF assms(1) r(7)]
  show ?thesis by (auto simp: p10_text_def)
qed

text \<open>What the approved record binds: the frozen case, the controller, and the two canonical texts by
  content and by hash.\<close>

definition authority_bound ::
  "(string \<Rightarrow> bytes) \<Rightarrow> approved_authority_binding \<Rightarrow> fixture_case \<Rightarrow> string \<Rightarrow> string \<Rightarrow> string \<Rightarrow> bool"
where
  "authority_bound H approved sel csid p10 p11 \<longleftrightarrow>
     sel \<in> set (frozen_cases H) \<and> csid \<noteq> [] \<and> csid = sid_controller (ap_created_sids approved) \<and>
     ap_selected_case_id approved = c_id sel \<and> ap_state_directory_identity approved \<noteq> [] \<and>
     distinct_sids (ap_created_sids approved) \<and> reviewed_hashes (ap_reviewed_images approved) \<and>
     p10 = p10_text H (ap_created_sids approved) (ap_reviewed_images approved) \<and>
     ap_rendered_p10_sha256 approved = hex_bytes (H p10) \<and>
     render_p11 sel (hex_bytes (H p10)) = Inr p11 \<and> ap_selected_p11_sha256 approved = hex_bytes (H p11)"

definition bound_result :: "approved_authority_binding \<Rightarrow> fixture_case \<Rightarrow> string \<Rightarrow> authority_binding_result" where
  "bound_result approved sel p11 = \<lparr>ar_evidence = authority_evidence_init\<lparr>ae_ready_for_snapshot := True,
       ae_detail := ''canonical protected content bound; native reader proof and snapshot remain separate'',
       ae_p10_sha256 := ap_rendered_p10_sha256 approved, ae_p11_sha256 := ap_selected_p11_sha256 approved,
       ae_case_id := c_id sel\<rparr>,
     ar_comparison_input = Some \<lparr>bi_fixture = sel, bi_state_directory_identity = ap_state_directory_identity approved,
       bi_protected_p11_bytes = p11, bi_rendered_p10_sha256 = ap_rendered_p10_sha256 approved\<rparr>\<rparr>"

lemma bind_body_ok:
  assumes "bcrypt_computes bc H"
    and "bind_body bc reader approved sel csid (authority_result_init, w) = (Inr u, (r, w'))"
  shows "\<exists>p10 p11 w1 w2 w3 w4. authority_bound H approved sel csid p10 p11 \<and> r = bound_result approved sel p11 \<and>
    par_read_verified_p10 reader w1 = (Inr p10, w2) \<and>
    par_read_authenticated_fixture_head reader w3 = (Inr p11, w4)"
proof -
  from assms(2) obtain w1 p10 w2 p11 w3 w4 w5 w6 w7 w8 h1 h2 h3 where
    a: "approve_p10 bc approved sel csid w = (Inr p10, w1)"
    and reads: "par_read_verified_p10 reader w1 = (Inr p10, w2)"
      "par_read_authenticated_fixture_head reader w4 = (Inr p11, w5)"
    and h: "sha256 bc p10 w2 = (Inr h1, w3)" "h1 = ap_rendered_p10_sha256 approved" "render_p11 sel h1 = Inr p11"
      "sha256 bc p11 w3 = (Inr h2, w4)" "h2 = ap_selected_p11_sha256 approved"
      "sha256 bc p11 w5 = (Inr h3, w6)" "h3 = ap_selected_p11_sha256 approved"
    and r: "r = bound_result approved sel p11"
    unfolding bind_body_def bind_p10_def bind_p11_def
    by (auto simp: run_iff bound_result_def authority_result_init_def)
  from approve_p10_ok [OF assms(1) a] h bcrypt_hash.hash_value [OF assms(1) h(1)] bcrypt_hash.hash_value [OF assms(1) h(4)]
  have "authority_bound H approved sel csid p10 p11" by (auto simp: authority_bound_def)
  with reads r show ?thesis by blast
qed

text \<open>A returned result is either the end of a full run of the body, or a stop.\<close>

lemma bind_protected_authority_cases:
  assumes "bind_protected_authority bc reader approved sel csid w = (Inr r, w')"
  obtains (bound) "bind_body bc reader approved sel csid (authority_result_init, w) = (Inr (), (r, w'))"
  | (stopped) "\<not> ae_ready_for_snapshot (ar_evidence r)" "ar_comparison_input r = None"
proof -
  from assms consider "bind_body bc reader approved sel csid (authority_result_init, w) = (Inr (), (r, w'))"
    | x r1 w1 where "(case x of Observation f \<Rightarrow> localM (stop_binding f)
         | Std c msg \<Rightarrow> localM (stop_unclassified_binding msg)
         | Foreign \<Rightarrow> localM (stop_unclassified_binding ''unexpected non-standard C++ exception'')
         | Undefined \<Rightarrow> throwM Undefined) (r1, w1) = (Inr (), (r, w'))"
    by (auto simp: bind_protected_authority_def run_iff catch_chain_def catchM_ok)
  then show thesis
  proof cases
    case 2
    then have "\<not> ae_ready_for_snapshot (ar_evidence r) \<and> ar_comparison_input r = None"
      by (cases x) (auto simp: run_iff stop_binding_def stop_unclassified_binding_def)
    then show thesis by (blast intro: stopped)
  qed (rule bound)
qed

lemma binding_sound:
  assumes "bcrypt_computes bc H"
    and "bind_protected_authority bc reader approved sel csid w = (Inr r, w')"
    and "ae_ready_for_snapshot (ar_evidence r) \<or> ar_comparison_input r \<noteq> None"
  shows "\<exists>p10 p11 w1 w2 w3 w4. authority_bound H approved sel csid p10 p11 \<and> r = bound_result approved sel p11 \<and>
    par_read_verified_p10 reader w1 = (Inr p10, w2) \<and>
    par_read_authenticated_fixture_head reader w3 = (Inr p11, w4)"
  using assms(2)
proof (cases rule: bind_protected_authority_cases)
  case bound
  then show ?thesis by (rule bind_body_ok [OF assms(1)])
qed (use assms(3) in blast)

text \<open>\<^bold>\<open>C2.\<close> Soundness of the binding: a result that is ready for the snapshot, or carries a comparison
  input, was produced from a P10 and a P11 that were read and equal the canonical texts for the
  approved SIDs, images and the frozen case; their hashes are the approved ones, the controller's SID
  is the approved controller's, and the comparison input is exactly this case, directory, P11 and
  P10 hash.\<close>

theorem authority_binding_sound:
  assumes "bcrypt_computes bc H"
    and "bind_protected_authority bc reader approved sel csid w = (Inr r, w')"
    and "ae_ready_for_snapshot (ar_evidence r) \<or> ar_comparison_input r \<noteq> None"
  shows "\<exists>p10 p11 w1 w2 w3 w4. authority_bound H approved sel csid p10 p11 \<and> r = bound_result approved sel p11 \<and>
    par_read_verified_p10 reader w1 = (Inr p10, w2) \<and>
    par_read_authenticated_fixture_head reader w3 = (Inr p11, w4)"
  by (rule binding_sound [OF assms])

section \<open>The binding always returns\<close>

lemma typed_binding_stop [simp]: "typed_exn (binding_stop k ob pr st msg) \<longleftrightarrow> k \<noteq> Err_none"
  by (simp add: binding_stop_def)

lemma checked_hash_typed [raises_intros]: "raises_only typed_exn (checked_hash bc bs ob step)"
  unfolding checked_hash_def by (intro raises_intros) simp

lemma guarded_read_known:
  assumes "raises_only defined m" and "kindless m \<Longrightarrow> K"
  shows "raises_only (known K) (guarded_read m ob pr st msg)"
  unfolding guarded_read_def
  by (rule raises_only_catch_chain [OF raises_lawful [of m K, OF assms]])
    (auto intro!: raises_intros simp: known_def lawful_def binding_stop_def observe_def observation_failure_of_def
      observation_failure_full_def)

lemma approve_p10_typed [raises_intros]: "raises_only typed_exn (approve_p10 bc approved sel csid)"
  unfolding approve_p10_def by (intro raises_intros) simp_all

lemma render_p11_std: "raises_only std_only (liftM (render_p11 c p))"
  by (rule raises_only_liftM) (rule render_p11_raises)

lemma bind_p10_typed [raises_intros]: "raises_only typed_exn (bind_p10 bc approved sel expected observed)"
  unfolding bind_p10_def by (intro raises_intros render_p11_std) simp_all

lemma bind_p11_typed [raises_intros]: "raises_only typed_exn (bind_p11 bc approved sel expected observed)"
  unfolding bind_p11_def by (intro raises_intros) simp_all

lemma bind_body_known:
  assumes "raises_only defined (par_read_verified_p10 reader)" "kindless (par_read_verified_p10 reader) \<Longrightarrow> K"
    and "raises_only defined (par_read_authenticated_fixture_head reader)"
      "kindless (par_read_authenticated_fixture_head reader) \<Longrightarrow> K"
  shows "raises_only (known K) (bind_body bc reader approved sel csid)"
  unfolding bind_body_def
  by (intro raises_intros guarded_read_known assms typed_known [OF approve_p10_typed] typed_known [OF bind_p10_typed]
      typed_known [OF bind_p11_typed])

lemma bind_body_result:
  assumes "bind_body bc reader approved sel csid (authority_result_init, w) = (Inr u, (r, w'))"
  shows "\<exists>p11. r = bound_result approved sel p11"
  using assms unfolding bind_body_def bind_p10_def bind_p11_def
  by (auto simp: run_iff bound_result_def authority_result_init_def)

text \<open>A closed result: ready exactly with a comparison input, with no error when ready, and without a
  recorded error only when it is ready or \<open>K\<close> holds.\<close>

definition closed_unless :: "bool \<Rightarrow> authority_binding_result \<Rightarrow> bool" where
  "closed_unless K r \<longleftrightarrow> (ae_ready_for_snapshot (ar_evidence r) \<longleftrightarrow> ar_comparison_input r \<noteq> None) \<and>
     (ae_ready_for_snapshot (ar_evidence r) \<longrightarrow> ae_error (ar_evidence r) = Err_none) \<and>
     (\<not> ae_ready_for_snapshot (ar_evidence r) \<and> ae_error (ar_evidence r) = Err_none \<longrightarrow> K)"

lemma binding_total:
  assumes "raises_only defined (par_read_verified_p10 reader)" "kindless (par_read_verified_p10 reader) \<Longrightarrow> K"
    and "raises_only defined (par_read_authenticated_fixture_head reader)"
      "kindless (par_read_authenticated_fixture_head reader) \<Longrightarrow> K"
  shows "\<exists>r w'. bind_protected_authority bc reader approved sel csid w = (Inr r, w') \<and> closed_unless K r"
proof -
  obtain x r w' where b: "bind_body bc reader approved sel csid (authority_result_init, w) = (x, (r, w'))"
    by (cases "bind_body bc reader approved sel csid (authority_result_init, w)") (metis prod.collapse)
  show ?thesis
  proof (cases x)
    case (Inl y)
    then have "known K y" using raises_onlyD [OF bind_body_known [of reader K, OF assms]] b by blast
    then show ?thesis
      using b Inl
      by (auto simp: bind_protected_authority_def with_local_def catch_chain_def catchM_def localM_def known_def
          stop_binding_def closed_unless_def)
  next
    case (Inr u)
    then have "bind_protected_authority bc reader approved sel csid w = (Inr r, w')"
      using b by (simp add: bind_protected_authority_def with_local_def catch_chain_def catchM_def)
    moreover obtain p11 where "r = bound_result approved sel p11" using bind_body_result [OF b [unfolded Inr]] by blast
    ultimately show ?thesis by (auto simp: bound_result_def authority_evidence_init_def closed_unless_def)
  qed
qed

text \<open>\<^bold>\<open>C6.\<close> The binding is total and fail-closed: whatever the reader throws short of undefined behaviour,
  standard exceptions or not, the function returns a result and never throws; the result carries a
  comparison input exactly when it is ready for the snapshot, and a ready result records no error.  A
  result that is not ready records an error, with one exception that the code leaves open: the reader
  can raise an \<^verbatim>\<open>ObservationFailure\<close> whose kind is \<^verbatim>\<open>none\<close>, which the handler copies.\<close>

theorem authority_binding_fail_closed:
  assumes "raises_only defined (par_read_verified_p10 reader)"
    and "raises_only defined (par_read_authenticated_fixture_head reader)"
  shows "\<exists>r w'. bind_protected_authority bc reader approved sel csid w = (Inr r, w') \<and>
    (ae_ready_for_snapshot (ar_evidence r) \<longleftrightarrow> ar_comparison_input r \<noteq> None) \<and>
    (ae_ready_for_snapshot (ar_evidence r) \<longrightarrow> ae_error (ar_evidence r) = Err_none) \<and>
    (\<not> ae_ready_for_snapshot (ar_evidence r) \<and> ae_error (ar_evidence r) = Err_none \<longrightarrow>
      kindless (par_read_verified_p10 reader) \<or> kindless (par_read_authenticated_fixture_head reader))"
  unfolding closed_unless_def [symmetric] by (rule binding_total [OF assms(1) _ assms(2)]) simp_all

section \<open>When the protected objects are read\<close>

lemma bindM_cong_run:
  assumes "m w = m' w" and "\<And>x w'. m w = (Inr x, w') \<Longrightarrow> f x w' = g x w'"
  shows "bindM m f w = bindM m' g w"
  using assms by (auto simp: bindM_def split: prod.splits sum.splits)

lemma bind_from_body:
  assumes "bind_body bc reader approved sel csid (authority_result_init, w) =
      bind_body bc reader' approved sel csid (authority_result_init, w)"
  shows "bind_protected_authority bc reader approved sel csid w = bind_protected_authority bc reader' approved sel csid w"
  using assms by (simp add: bind_protected_authority_def with_local_def catch_chain_def catchM_def)

text \<open>The part of the binding that does not need the protected objects.\<close>

definition approvable :: "(string \<Rightarrow> bytes) \<Rightarrow> approved_authority_binding \<Rightarrow> fixture_case \<Rightarrow> string \<Rightarrow> bool" where
  "approvable H approved sel csid \<longleftrightarrow>
     sel \<in> set (frozen_cases H) \<and> csid \<noteq> [] \<and> csid = sid_controller (ap_created_sids approved) \<and>
     ap_selected_case_id approved = c_id sel \<and> ap_state_directory_identity approved \<noteq> [] \<and>
     distinct_sids (ap_created_sids approved) \<and> reviewed_hashes (ap_reviewed_images approved) \<and>
     ap_rendered_p10_sha256 approved =
       hex_bytes (H (p10_text H (ap_created_sids approved) (ap_reviewed_images approved)))"

text \<open>\<^bold>\<open>C15.\<close> Nothing protected is read for an unapproved request: when the selected case is not the frozen
  one, the controller SID is not the approved one, or the approved record does not match its own
  rendering, the outcome does not depend on the reader at all: neither P10 nor P11 is touched.\<close>

theorem no_protected_read_unless_approved:
  assumes "bcrypt_computes bc H" and "\<not> approvable H approved sel csid"
  shows "bind_protected_authority bc reader approved sel csid w = bind_protected_authority bc reader' approved sel csid w"
proof (rule bind_from_body)
  have "approve_p10 bc approved sel csid v \<noteq> (Inr p, v')" for v p v'
    using approve_p10_ok [OF assms(1), of approved sel csid v p v'] assms(2) unfolding approvable_def by blast
  then show "bind_body bc reader approved sel csid (authority_result_init, w) =
      bind_body bc reader' approved sel csid (authority_result_init, w)"
    unfolding bind_body_def by (intro bindM_cong_run refl) (simp_all add: run_iff)
qed

text \<open>\<^bold>\<open>C16.\<close> The A3 head is read only after P10 has been bound: when the P10 reader never returns the
  approved canonical text, the outcome does not depend on the head port, which is never called.\<close>

theorem head_read_only_after_p10:
  assumes "bcrypt_computes bc H"
    and "\<And>v v'. par_read_verified_p10 reader v \<noteq>
       (Inr (p10_text H (ap_created_sids approved) (ap_reviewed_images approved)), v')"
  shows "bind_protected_authority bc (reader\<lparr>par_read_authenticated_fixture_head := head\<rparr>) approved sel csid w =
    bind_protected_authority bc reader approved sel csid w"
proof (rule bind_from_body)
  have no: "bind_p10 bc approved sel p x lw \<noteq> (Inr y, lw')"
    if "approve_p10 bc approved sel csid v = (Inr p, v')" "par_read_verified_p10 reader u = (Inr x, u')" for p x lw y lw' v v' u u'
  proof -
    have "p = p10_text H (ap_created_sids approved) (ap_reviewed_images approved)"
      using approve_p10_ok [OF assms(1) that(1)] by blast
    then have "x \<noteq> p" using assms(2) that(2) by blast
    then show ?thesis unfolding bind_p10_def by (simp add: run_iff)
  qed
  show "bind_body bc (reader\<lparr>par_read_authenticated_fixture_head := head\<rparr>) approved sel csid (authority_result_init, w) =
      bind_body bc reader approved sel csid (authority_result_init, w)"
    unfolding bind_body_def
  proof (intro bindM_cong_run; (simp; fail)?)
    fix p lw1 x lw2 y lw3 u lw0
    assume "outerM (approve_p10 bc approved sel csid) lw0 = (Inr p, lw1)"
      "outerM (guarded_read (par_read_verified_p10 (reader\<lparr>par_read_authenticated_fixture_head := head\<rparr>)) ''P10''
         p10_profile ''read-verified-p10'' ''non-standard C++ exception from P10 reader'') lw1 = (Inr x, lw2)"
      "bind_p10 bc approved sel p x lw2 = (Inr y, lw3)"
    then have False using no by (auto simp: run_iff) (metis prod.collapse)
    then show "outerM (guarded_read (par_read_authenticated_fixture_head
         (reader\<lparr>par_read_authenticated_fixture_head := head\<rparr>)) ''P11'' p11_profile ''read-fixture-head''
         ''non-standard C++ exception from P11 reader'') lw3 =
       outerM (guarded_read (par_read_authenticated_fixture_head reader) ''P11'' p11_profile ''read-fixture-head''
         ''non-standard C++ exception from P11 reader'') lw3" ..
  qed
qed

section \<open>Approved content is bound\<close>

lemma digest_cases_returns:
  assumes "available bc H" and "digest32 H" and "set cs \<subseteq> set frozen_case_data"
  shows "returns (digest_cases bc cs) (map (with_digests H) cs)"
  using assms(3)
proof (induction cs)
  case (Cons c cs)
  have "returns (mutable_digest bc files) (hex_bytes (H (manifest_of H files)))"
    if "files = c_old_files c \<or> files = c_latest_files c" for files
    using that Cons.prems frozen_files_good [of c files] frozen_manifest_small [OF assms(2), of c files]
    by (intro mutable_digest_returns [OF assms(1)]) (simp add: hashable_def)
  then have "returns (mutable_digest bc (c_old_files c)) (hex_bytes (H (manifest_of H (c_old_files c))))"
    "returns (mutable_digest bc (c_latest_files c)) (hex_bytes (H (manifest_of H (c_latest_files c))))"
    by blast+
  with Cons show ?case by (auto simp: with_digests_def intro!: returns_intros)
qed (auto intro: returns_intros)

lemma fixture_cases_returns:
  "available bc H \<Longrightarrow> digest32 H \<Longrightarrow> returns (fixture_cases bc) (frozen_cases H)"
  unfolding fixture_cases_def frozen_cases_def by (rule digest_cases_returns) auto

lemma render_p10_returns:
  assumes "bcrypt_computes bc H" and "available bc H" and "distinct_sids sids" and "reviewed_hashes hashes"
  shows "returns (render_p10 bc sids hashes) (p10_text H sids hashes)"
proof -
  have "digest32 H" using assms(1) by (simp add: bcrypt_computes_def)
  then have "returns (fixture_cases bc) (frozen_cases H)" by (rule fixture_cases_returns [OF assms(2)])
  then have "\<exists>t. returns (p10_template bc) t"
    unfolding p10_template_def by (intro exI) (rule returns_intros | assumption)+
  then show ?thesis
    unfolding returns_def using render_p10_run [OF assms(1,3,4)] by metis
qed

lemma checked_hash_returns:
  "available bc H \<Longrightarrow> length bs \<le> ulong_max \<Longrightarrow> returns (checked_hash bc bs ob step) (hex_bytes (H bs))"
  unfolding checked_hash_def by (auto simp: available_def intro: returns_intros)

lemma guarded_read_returns: "returns m x \<Longrightarrow> returns (guarded_read m ob pr st msg) x"
  unfolding guarded_read_def catch_chain_def by (rule returns_catchM)

lemma find_by_key: "distinct (map f xs) \<Longrightarrow> x \<in> set xs \<Longrightarrow> find (\<lambda>y. f y = f x) xs = Some x"
  by (induction xs) auto

lemma frozen_ids: "map c_id (frozen_cases H) = [''spent-budget-active'', ''spent-budget-terminal'']"
  by (simp add: frozen_cases_def frozen_case_data_def with_digests_def)

lemma find_frozen: "sel \<in> set (frozen_cases H) \<Longrightarrow> find (\<lambda>item. c_id item = c_id sel) (frozen_cases H) = Some sel"
  by (rule find_by_key) (simp_all add: frozen_ids)

lemma approve_p10_returns:
  assumes "bcrypt_computes bc H" and "available bc H" and "approvable H approved sel csid"
    and "length (p10_text H (ap_created_sids approved) (ap_reviewed_images approved)) \<le> ulong_max"
  shows "returns (approve_p10 bc approved sel csid) (p10_text H (ap_created_sids approved) (ap_reviewed_images approved))"
proof -
  let ?p10 = "p10_text H (ap_created_sids approved) (ap_reviewed_images approved)"
  have a: "sel \<in> set (frozen_cases H)" "distinct_sids (ap_created_sids approved)"
    "reviewed_hashes (ap_reviewed_images approved)" "ap_rendered_p10_sha256 approved = hex_bytes (H ?p10)"
    and g: "\<not> (ap_selected_case_id approved \<noteq> c_id sel \<or> ap_state_directory_identity approved = [])"
    "\<not> (csid = [] \<or> csid \<noteq> sid_controller (ap_created_sids approved))"
    using assms(3) by (auto simp: approvable_def)
  have "digest32 H" using assms(1) by (simp add: bcrypt_computes_def)
  then have cases: "returns (fixture_cases bc) (frozen_cases H)" by (rule fixture_cases_returns [OF assms(2)])
  have same: "\<not> case_differs (find (\<lambda>item. c_id item = c_id sel) (frozen_cases H)) sel"
    by (simp add: find_frozen [OF a(1)] case_differs_def)
  show ?thesis
    unfolding approve_p10_def
    by (rule returns_bindM [OF returns_guardM [OF g(1)]], rule returns_bindM [OF returns_catch_std [OF cases]],
        rule returns_bindM [OF returns_guardM [OF same]], rule returns_bindM [OF returns_guardM [OF g(2)]],
        rule returns_bindM [OF returns_catch_std [OF render_p10_returns [OF assms(1,2) a(2,3)]]],
        rule returns_bindM [OF checked_hash_returns [OF assms(2,4)]], rule returns_bindM [OF returns_guardM])
      (simp_all add: a(4) returns_returnM)
qed

lemma binding_completes:
  assumes bc: "bcrypt_computes bc H" "available bc H" and app: "approvable H approved sel csid"
    and p10: "p10 = p10_text H (ap_created_sids approved) (ap_reviewed_images approved)" "length p10 \<le> ulong_max"
    and p11: "render_p11 sel (hex_bytes (H p10)) = Inr p11" "length p11 \<le> ulong_max"
      "ap_selected_p11_sha256 approved = hex_bytes (H p11)"
    and reads: "returns (par_read_verified_p10 reader) p10" "returns (par_read_authenticated_fixture_head reader) p11"
  shows "returns (bind_protected_authority bc reader approved sel csid) (bound_result approved sel p11)"
proof -
  have h: "ap_rendered_p10_sha256 approved = hex_bytes (H p10)" using app p10(1) by (simp add: approvable_def)
  let ?r0 = "authority_result_init\<lparr>ar_evidence := authority_evidence_init\<lparr>ae_case_id := c_id sel\<rparr>\<rparr>"
  let ?r1 = "authority_result_init\<lparr>ar_evidence := authority_evidence_init\<lparr>ae_case_id := c_id sel,
      ae_p10_sha256 := hex_bytes (H p10)\<rparr>\<rparr>"
  have b10: "takes (bind_p10 bc approved sel p10 p10) ?r0 p11 ?r1"
    unfolding bind_p10_def
    apply (rule takes_bindM [OF takes_guardM], simp, rule takes_bindM [OF takes_outerM [OF checked_hash_returns [OF bc(2) p10(2)]]])
    apply (rule takes_bindM [OF takes_localM], rule takes_bindM [OF takes_guardM], simp add: h,
        rule takes_bindM [OF takes_catch_std [OF takes_liftM [OF p11(1)]]])
    apply (rule takes_bindM [OF takes_outerM [OF checked_hash_returns [OF bc(2) p11(2)]]], rule takes_bindM [OF takes_guardM],
        simp add: p11(3))
    using takes_returnM [of p11 ?r1] by (simp add: authority_result_init_def)
  have b11: "takes (bind_p11 bc approved sel p11 p11) ?r1 () (bound_result approved sel p11)"
    unfolding bind_p11_def
    apply (rule takes_bindM [OF takes_guardM], simp, rule takes_bindM [OF takes_outerM [OF checked_hash_returns [OF bc(2) p11(2)]]])
    apply (rule takes_bindM [OF takes_localM], rule takes_bindM [OF takes_guardM], simp add: p11(3), rule takes_bindM [OF takes_localM])
    using takes_localM by (simp add: takes_def run_simps bound_result_def authority_result_init_def authority_evidence_init_def h p11(3))
  have start: "takes (set_evidence (\<lambda>e. e\<lparr>ae_case_id := c_id sel\<rparr>)) authority_result_init () ?r0"
    by (simp add: takes_def run_simps authority_result_init_def)
  have ap: "returns (approve_p10 bc approved sel csid) p10"
    using approve_p10_returns [OF bc app] p10 by simp
  have "takes (bind_body bc reader approved sel csid) authority_result_init () (bound_result approved sel p11)"
    unfolding bind_body_def
    by (rule takes_bindM [OF start], rule takes_bindM [OF takes_outerM [OF ap]],
        rule takes_bindM [OF takes_outerM [OF guarded_read_returns [OF reads(1)]]], rule takes_bindM [OF b10],
        rule takes_bindM [OF takes_outerM [OF guarded_read_returns [OF reads(2)]]], rule b11)
  then show ?thesis
    unfolding bind_protected_authority_def catch_chain_def by (intro returns_with_local takes_catchM)
qed

text \<open>\<^bold>\<open>C17.\<close> The binding accepts approved content: for an approvable record, an available hash provider
  and a reader that returns the canonical P10 and P11, the result is ready and carries the
  comparison input for this case.\<close>

theorem authority_binding_accepts:
  assumes "bcrypt_computes bc H" and "available bc H" and "approvable H approved sel csid"
    and "p10 = p10_text H (ap_created_sids approved) (ap_reviewed_images approved)" and "length p10 \<le> ulong_max"
    and "render_p11 sel (hex_bytes (H p10)) = Inr p11" and "length p11 \<le> ulong_max"
    and "ap_selected_p11_sha256 approved = hex_bytes (H p11)"
    and "returns (par_read_verified_p10 reader) p10" and "returns (par_read_authenticated_fixture_head reader) p11"
  shows "\<exists>w'. bind_protected_authority bc reader approved sel csid w = (Inr (bound_result approved sel p11), w')"
  using binding_completes [OF assms] by (auto simp: returns_def)

section \<open>Witnesses\<close>

abbreviation sample_case :: fixture_case where
  "sample_case \<equiv> with_digests pad_digest active_case"

definition sample_p10 :: string where
  "sample_p10 = p10_text pad_digest sample_sids sample_hashes"

definition sample_head :: string where
  "sample_head = p11_text sample_case (hex_bytes (pad_digest sample_p10))"

definition sample_approved :: approved_authority_binding where
  "sample_approved = \<lparr>ap_created_sids = sample_sids, ap_reviewed_images = sample_hashes,
     ap_rendered_p10_sha256 = hex_bytes (pad_digest sample_p10), ap_selected_case_id = c_id sample_case,
     ap_selected_p11_sha256 = hex_bytes (pad_digest sample_head), ap_state_directory_identity = ''dir''\<rparr>"

definition text_reader :: "string \<Rightarrow> string \<Rightarrow> 'w protected_authority_reader" where
  "text_reader p10 p11 = \<lparr>par_read_verified_p10 = returnM p10, par_read_authenticated_fixture_head = returnM p11\<rparr>"

lemma sample_case_frozen: "sample_case \<in> set (frozen_cases pad_digest)"
  by (simp add: frozen_cases_def frozen_case_data_def)

lemma sample_approvable: "approvable pad_digest sample_approved sample_case ''S-1-5-2''"
  using sample_case_frozen sample_sids_good sample_hashes_good
  by (simp add: approvable_def sample_approved_def sample_p10_def) (simp add: sample_sids_def)

lemma p10_texts_small:
  "length p10_text_0 \<le> 2000" "length p10_text_1 \<le> 100" "length p10_text_2 \<le> 100" "length p10_text_3 \<le> 100"
  "length p10_text_4 \<le> 100" "length p10_text_5 \<le> 100" "length p10_text_6 \<le> 100" "length p10_text_7 \<le> 100"
  by code_simp+

lemma sample_p10_length: "length sample_p10 \<le> 10000"
proof -
  have "length (frozen_tail pad_digest) \<le> 1000"
    using frozen_digests_hex64 [OF pad_digest32 frozen_cases_nth(1)] frozen_digests_hex64 [OF pad_digest32 frozen_cases_nth(2)]
    by (simp add: p10_tail_def hex64_def)
  then show ?thesis
    using p10_texts_small
    by (simp add: sample_p10_def p10_text_def p10_pieces_def sample_sids_def sample_hashes_def)
qed

lemma sample_p10_small: "length sample_p10 \<le> ulong_max"
  using sample_p10_length by (simp add: ulong_max_def)

lemma sample_head_rendered: "render_p11 sample_case (hex_bytes (pad_digest sample_p10)) = Inr sample_head"
  unfolding sample_head_def
  by (rule render_p11_frozen [OF pad_digest32 sample_case_frozen])
    (use pad_digest32 in \<open>simp add: hex64_def hex_bytes_chars digest32_def\<close>)

lemma sample_head_small: "length sample_head \<le> ulong_max"
proof -
  have "frozen_cases pad_digest ! 0 = sample_case" by (simp add: frozen_cases_def frozen_case_data_def)
  moreover have "hex64 (hex_bytes (pad_digest sample_p10))"
    using pad_digest32 by (simp add: hex64_def hex_bytes_chars digest32_def)
  ultimately show ?thesis
    using p11_text_length_active [OF pad_digest32] by (simp add: sample_head_def ulong_max_def)
qed

lemma sample_binding:
  "\<exists>w'. bind_protected_authority (bcrypt_of pad_digest) (text_reader sample_p10 sample_head) sample_approved sample_case
     ''S-1-5-2'' w = (Inr (bound_result sample_approved sample_case sample_head), w')"
  using binding_completes [OF pad_digest_computes available_bcrypt_of sample_approvable _ sample_p10_small
      sample_head_rendered sample_head_small, of "text_reader sample_p10 sample_head"]
  by (auto simp: returns_def [of "bind_protected_authority _ _ _ _ _"] sample_approved_def sample_p10_def text_reader_def
      returns_returnM)

theorem authority_binding_accepts_witness:
  "\<exists>w'. bind_protected_authority (bcrypt_of pad_digest) (text_reader sample_p10 sample_head) sample_approved sample_case
     ''S-1-5-2'' [] = (Inr (bound_result sample_approved sample_case sample_head), w')"
proof -
  have "sample_p10 = p10_text pad_digest (ap_created_sids sample_approved) (ap_reviewed_images sample_approved)"
    "ap_selected_p11_sha256 sample_approved = hex_bytes (pad_digest sample_head)"
    by (simp_all add: sample_approved_def sample_p10_def)
  moreover have "returns (par_read_verified_p10 (text_reader sample_p10 sample_head)) sample_p10"
    "returns (par_read_authenticated_fixture_head (text_reader sample_p10 sample_head)) sample_head"
    by (simp_all add: text_reader_def returns_returnM)
  ultimately show ?thesis
    using authority_binding_accepts [OF pad_digest_computes available_bcrypt_of sample_approvable _ sample_p10_small
        sample_head_rendered sample_head_small] by blast
qed

theorem authority_binding_sound_witness:
  "\<exists>p10 p11. authority_bound pad_digest sample_approved sample_case ''S-1-5-2'' p10 p11"
proof -
  obtain w' where "bind_protected_authority (bcrypt_of pad_digest) (text_reader sample_p10 sample_head) sample_approved
      sample_case ''S-1-5-2'' [] = (Inr (bound_result sample_approved sample_case sample_head), w')"
    using sample_binding by blast
  from authority_binding_sound [OF pad_digest_computes this] show ?thesis
    by (auto simp: bound_result_def)
qed

definition throwing_reader :: "'w protected_authority_reader" where
  "throwing_reader = \<lparr>par_read_verified_p10 = throwM Foreign, par_read_authenticated_fixture_head = throwM Foreign\<rparr>"

theorem authority_binding_fail_closed_witness:
  "\<exists>r w'. bind_protected_authority (bcrypt_of pad_digest) throwing_reader sample_approved sample_case ''S-1-5-2'' [] =
     (Inr r, w') \<and> (ae_ready_for_snapshot (ar_evidence r) \<longleftrightarrow> ar_comparison_input r \<noteq> None) \<and>
     (\<not> ae_ready_for_snapshot (ar_evidence r) \<longrightarrow> ae_error (ar_evidence r) \<noteq> Err_none)"
proof -
  let ?reader = "throwing_reader :: string protected_authority_reader"
  have "raises_only defined (par_read_verified_p10 ?reader)"
    "raises_only defined (par_read_authenticated_fixture_head ?reader)"
    "\<not> kindless (par_read_verified_p10 ?reader)" "\<not> kindless (par_read_authenticated_fixture_head ?reader)"
    by (simp_all add: throwing_reader_def raises_only_def throwM_def kindless_def)
  with authority_binding_fail_closed [of ?reader] show ?thesis by blast
qed

theorem no_protected_read_unless_approved_witness:
  "bind_protected_authority (bcrypt_of pad_digest) (text_reader sample_p10 sample_head) sample_approved sample_case ''S-1-5-9'' [] =
   bind_protected_authority (bcrypt_of pad_digest) throwing_reader sample_approved sample_case ''S-1-5-9'' []"
  by (rule no_protected_read_unless_approved [OF pad_digest_computes])
    (simp add: approvable_def sample_approved_def sample_sids_def)

theorem head_read_only_after_p10_witness:
  "bind_protected_authority (bcrypt_of pad_digest) ((text_reader [] sample_head)\<lparr>par_read_authenticated_fixture_head := throwM Undefined\<rparr>)
     sample_approved sample_case ''S-1-5-2'' [] =
   bind_protected_authority (bcrypt_of pad_digest) (text_reader [] sample_head) sample_approved sample_case ''S-1-5-2'' []"
proof (rule head_read_only_after_p10 [OF pad_digest_computes])
  fix v v'
  have "p10_text pad_digest sids hashes \<noteq> []" for sids hashes
    by (simp add: p10_text_def p10_pieces_def p10_text_0_def)
  then show "par_read_verified_p10 (text_reader [] sample_head) v \<noteq>
      (Inr (p10_text pad_digest (ap_created_sids sample_approved) (ap_reviewed_images sample_approved)), v')"
    by (auto simp: text_reader_def returnM_def dest: sym)
qed

end
