(* ===== verification/P10_Reader.thy ===== *)
theory P10_Reader
  imports Protected_Samples
begin

text \<open>
  The reader of the protected configuration P10 (\<^verbatim>\<open>windows_p10_reader.hpp\<close> and
  \<^verbatim>\<open>windows_p10_reader.cpp\<close>): its configuration, the system backend with its bounded content read, and
  \<^verbatim>\<open>read_verified_p10\<close> as an instance of the sealed read.  The lemmas are those of the locales
  \<open>sealed_reader\<close> and \<open>logged_sealed_reader\<close>, interpreted here.
\<close>

section \<open>Configuration\<close>

record p10_reader_config =
  pr_root :: metadata
  pr_p1 :: metadata
  pr_p3 :: metadata
  pr_p10 :: metadata
  pr_canonical_bytes :: string
  pr_sha256 :: string

definition p10_read_profile :: string where
  "p10_read_profile = ''protected-P10/handle-bound-identity-read''"

definition max_p10_bytes :: nat where "max_p10_bytes = 65536"

definition p3_name :: wstring where "p3_name = wide ''config''"

definition p10_name :: wstring where "p10_name = wide ''binding.json''"

definition p10_file_read_spec :: open_spec where
  "p10_file_read_spec = \<lparr>os_access = FILE_READ_DATA OR FILE_READ_ATTRIBUTES OR READ_CONTROL OR SYNCHRONIZE,
     os_share = FILE_SHARE_READ OR FILE_SHARE_WRITE, os_disposition = FILE_OPEN,
     os_options = FILE_NON_DIRECTORY_FILE OR FILE_OPEN_REPARSE_POINT OR FILE_SYNCHRONOUS_IO_NONALERT,
     os_object_attributes = OBJ_CASE_INSENSITIVE OR OBJ_DONT_REPARSE\<rparr>"

definition p10_site :: read_site where
  "p10_site = \<lparr>st_profile = p10_read_profile, st_object = ''P10'', st_folder_object = ''P3'', st_folder_name = p3_name,
     st_file_name = p10_name, st_file_spec = p10_file_read_spec, st_bytes_differ = ''P10 bytes differ from G2 seal'',
     st_digest_differs = ''P10 digest differs from G2 seal'',
     st_content_changed = ''P10 content changed during read window''\<rparr>"

definition p10_chain :: "p10_reader_config \<Rightarrow> sealed_chain" where
  "p10_chain config = \<lparr>sl_root = pr_root config, sl_p1 = pr_p1 config, sl_folder = pr_p3 config, sl_file = pr_p10 config\<rparr>"

section \<open>The system backend\<close>

definition p10_read_content :: "'w win32 \<Rightarrow> handle \<Rightarrow> nat \<Rightarrow> ('w, string) cpp" where
  "p10_read_content sys handle max_bytes =
     bindM (or_throw (wn_standard_info sys handle)
       (\<lambda>err. Observation (win32_failure Err_incomplete ''P10'' p10_read_profile ''read-size'' err))) (\<lambda>info.
     bindM (guardM (\<not> (si_directory info \<or> si_end_of_file info < 0))
       (fail p10_read_profile Err_incomplete ''P10'' ''read-size'' ''invalid file size or directory'')) (\<lambda>_.
     bindM (guardM (\<not> int max_bytes < si_end_of_file info)
       (fail p10_read_profile Err_oversized ''P10'' ''read-size'' ''P10 exceeds approved byte count'')) (\<lambda>_.
     bindM (or_throw (wn_set_pointer_begin sys handle)
       (\<lambda>err. Observation (win32_failure Err_incomplete ''P10'' p10_read_profile ''read-seek'' err))) (\<lambda>_.
     let expected = nat (si_end_of_file info) in
     bindM (read_chunks sys handle 16384
       (\<lambda>err. Observation (win32_failure Err_incomplete ''P10'' p10_read_profile ''read-content'' err))
       (\<lambda>got count. count < got) (fail p10_read_profile Err_incomplete ''P10'' ''read-content'' ''incomplete read'')
       (replicate expected (CHR 0x00)) 0) (\<lambda>bs.
     bindM (or_throw (wn_read_file sys handle 1)
       (\<lambda>err. Observation (win32_failure Err_incomplete ''P10'' p10_read_profile ''read-eof'' err))) (\<lambda>(got, data).
     bindM (liftM (fill [CHR 0x00] 0 data)) (\<lambda>_.
     bindM (guardM (got = 0)
       (fail p10_read_profile Err_identity_drift ''P10'' ''read-eof'' ''content grew during read'')) (\<lambda>_.
     bindM (or_throw (wn_standard_info sys handle)
       (\<lambda>err. Observation (win32_failure Err_incomplete ''P10'' p10_read_profile ''read-final-size'' err))) (\<lambda>final.
     bindM (guardM (\<not> (si_directory final \<or> si_end_of_file final \<noteq> si_end_of_file info))
       (fail p10_read_profile Err_identity_drift ''P10'' ''read-final-size'' ''content size drift'')) (\<lambda>_.
     returnM bs))))))))))"

definition system_p10_calls :: "'w win32 \<Rightarrow> text_calls \<Rightarrow> 'w protected_calls" where
  "system_p10_calls sys tc = (let base = system_native_calls sys tc in
     \<lparr>pc_open_root = nc_open_root base,
      pc_open_relative = (\<lambda>parent component spec ob. nc_open_relative base parent component spec ob p10_read_profile),
      pc_inspect = (\<lambda>handle ob step. nc_inspect base handle ob p10_read_profile step),
      pc_read_content = p10_read_content sys,
      pc_close = nc_close base\<rparr>)"

section \<open>The reader\<close>

text \<open>The checks of the trusted configuration, before any handle is opened.  \<open>has_calls\<close> is the test
  that the calls are not a null pointer.\<close>

definition prepare_p10 :: "'w bcrypt \<Rightarrow> p10_reader_config \<Rightarrow> bool \<Rightarrow> ('w, string) cpp" where
  "prepare_p10 bc config has_calls =
     bindM (guardM (\<not> (\<not> has_calls \<or> pr_canonical_bytes config = [] \<or> max_p10_bytes < length (pr_canonical_bytes config) \<or>
         pr_sha256 config = [] \<or> \<not> chain_paths (p10_chain config) p10_site))
       (fail p10_read_profile Err_binding_failure ''P10'' ''trusted-config'' ''incomplete or inconsistent G2 P10 binding'')) (\<lambda>_.
     bindM (checked_sha256 p10_read_profile bc ''P10'' (pr_canonical_bytes config) ''trusted-config-hash'') (\<lambda>digest.
     bindM (guardM (\<not> digest \<noteq> pr_sha256 config)
       (fail p10_read_profile Err_binding_failure ''P10'' ''trusted-config-hash'' ''G2 P10 bytes and digest disagree'')) (\<lambda>_.
     returnM (pr_canonical_bytes config))))"

definition read_verified_p10 ::
  "(nat \<Rightarrow> bool) \<Rightarrow> 'w bcrypt \<Rightarrow> p10_reader_config \<Rightarrow> 'w protected_calls option \<Rightarrow> ('w, string) cpp"
where
  "read_verified_p10 room bc config calls =
     reader_handlers p10_site ''non-standard C++ exception''
       (bindM (prepare_p10 bc config (calls \<noteq> None)) (\<lambda>canonical.
        with_held (the calls) (held_read p10_site room bc (the calls) (p10_chain config) canonical (pr_sha256 config))))"

section \<open>The contract\<close>

lemma prepare_p10_ok [run_iff]:
  "prepare_p10 bc config has_calls w = (Inr s, w') \<longleftrightarrow>
     has_calls \<and> s = pr_canonical_bytes config \<and> s \<noteq> [] \<and> length s \<le> max_p10_bytes \<and> pr_sha256 config \<noteq> [] \<and>
     chain_paths (p10_chain config) p10_site \<and> sha256 bc s w = (Inr (pr_sha256 config), w')"
  by (auto simp: prepare_p10_def run_iff not_less)

lemma prepare_p10_raises: "raises_only sane_exn (prepare_p10 bc config has_calls)"
  unfolding prepare_p10_def by (auto intro!: raises_intros)

lemma prepare_p10_log: "prepare_p10 (log_bcrypt bc) config has_calls = outerM (prepare_p10 bc config has_calls)"
  unfolding prepare_p10_def checked_sha256_def sha256_log_bcrypt outerM_catchM
  by (rule ext) (auto simp: bindM_def guardM_def outerM_def returnM_def throwM_def split: prod.splits sum.splits)

interpretation p10: sealed_reader p10_site "''non-standard C++ exception''" "\<lambda>bc config. prepare_p10 bc config True"
  p10_chain pr_sha256 "\<lambda>room bc config calls. read_verified_p10 room bc config (Some calls)"
  by unfold_locales (simp_all add: read_verified_p10_def sealed_read_def prepare_p10_raises)

interpretation p10_logged: logged_sealed_reader p10_site "''non-standard C++ exception''"
  "\<lambda>bc config. prepare_p10 bc config True" p10_chain pr_sha256
  "\<lambda>room bc config calls. read_verified_p10 room bc config (Some calls)"
  by unfold_locales (auto simp: prepare_p10_log outerM_def split: prod.splits)

text \<open>Without calls the reader refuses and touches nothing.\<close>

lemma read_verified_p10_null: "read_verified_p10 room bc config None w = (Inl e, w') \<Longrightarrow> w' = w"
  by (auto simp: read_verified_p10_def reader_handlers_def catch_chain_def prepare_p10_def bindM_def guardM_def
      catchM_def throwM_def returnM_def fail_def observe_def)

lemma read_verified_p10_calls:
  "read_verified_p10 room bc config calls w = (Inr s, w') \<Longrightarrow> \<exists>c. calls = Some c"
  by (cases calls) (auto simp: read_verified_p10_def run_iff)

section \<open>The verified read\<close>

lemma sha256_seal: "bcrypt_computes bc H \<Longrightarrow> sha256 bc s w = (Inr d, w') \<Longrightarrow> d = hex_bytes (H s)"
  using bcrypt_hash.hash_value by metis

lemma p10_sealed:
  assumes "bcrypt_computes bc H" and "read_verified_p10 room bc config calls w = (Inr s, w')"
  shows "\<exists>c w0. calls = Some c \<and> s = pr_canonical_bytes config \<and> s \<noteq> [] \<and> length s \<le> max_p10_bytes \<and>
    pr_sha256 config = hex_bytes (H s) \<and> chain_paths (p10_chain config) p10_site \<and>
    sound_chain p10_site (p10_chain config) \<and> has_seen p10_site bc c (p10_chain config) s (pr_sha256 config) w0 w'"
proof -
  from read_verified_p10_calls [OF assms(2)] obtain c where c: "calls = Some c" ..
  with assms(2) have "read_verified_p10 room bc config (Some c) w = (Inr s, w')" by simp
  from this [unfolded p10.read_iff] c sha256_seal [OF assms(1)] show ?thesis by (auto simp: run_iff)
qed

text \<open>\<^bold>\<open>C33.\<close> The P10 that the reader returns is the sealed one: the returned text is the canonical text of the
  trusted configuration, its SHA-256 is the sealed digest, and the calls answered in the order of the
  code: every node of the chain, opened under its parent, showed exactly its sealed identity (no
  reparse point, no device, the right type, a protected descriptor), the content was read twice with the same
  result, every node showed the same identity again, and then the handles were closed in reverse order.\<close>

theorem p10_read_sealed:
  assumes "bcrypt_computes bc H" and "read_verified_p10 room bc config calls w = (Inr s, w')"
  shows "\<exists>c w0. calls = Some c \<and> s = pr_canonical_bytes config \<and> s \<noteq> [] \<and> length s \<le> max_p10_bytes \<and>
    pr_sha256 config = hex_bytes (H s) \<and> chain_paths (p10_chain config) p10_site \<and>
    sound_chain p10_site (p10_chain config) \<and> has_seen p10_site bc c (p10_chain config) s (pr_sha256 config) w0 w'"
  by (rule p10_sealed [OF assms])

definition sample_p10_config :: "string \<Rightarrow> p10_reader_config" where
  "sample_p10_config text = (let sealed = sample_chain p10_site in
     \<lparr>pr_root = sl_root sealed, pr_p1 = sl_p1 sealed, pr_p3 = sl_folder sealed, pr_p10 = sl_file sealed,
      pr_canonical_bytes = text, pr_sha256 = hex_bytes (pad_digest text)\<rparr>)"

lemma sample_p10_chain: "p10_chain (sample_p10_config text) = sample_chain p10_site"
  by (simp add: p10_chain_def sample_p10_config_def Let_def)

lemma sample_p10_read:
  assumes "returns (sha256 bc text) (hex_bytes (pad_digest text))" and "text \<noteq> []" and "length text \<le> max_p10_bytes"
  shows "returns (read_verified_p10 (\<lambda>n. True) bc (sample_p10_config text)
    (Some (sample_calls (sample_chain p10_site) text))) text"
proof (rule p10.read_stable)
  show "stable_site p10_site (sample_calls (sample_chain p10_site) text) (p10_chain (sample_p10_config text)) text"
    unfolding sample_p10_chain by (rule sample_calls_stable)
  show "sound_chain p10_site (p10_chain (sample_p10_config text))"
    unfolding sample_p10_chain by (rule sample_chain_sound)
  show "returns (sha256 bc text) (pr_sha256 (sample_p10_config text))"
    using assms(1) by (simp add: sample_p10_config_def Let_def)
  have "hex_bytes (pad_digest text) \<noteq> []" by (simp add: pad_digest_def hex_bytes_def hex_byte_def)
  then show "returns (prepare_p10 bc (sample_p10_config text) True) text"
    using assms sample_chain_paths [of p10_site] unfolding returns_def prepare_p10_ok sample_p10_chain
    by (simp add: sample_p10_config_def Let_def max_p10_bytes_def)
qed simp

lemma pad_digest_returns: "returns (sha256 (bcrypt_of pad_digest) ''sealed'') (hex_bytes (pad_digest ''sealed''))"
  by (simp add: returns_def run_simps ulong_max_def)

theorem p10_read_sealed_witness:
  "\<exists>w'. read_verified_p10 (\<lambda>n. True) (bcrypt_of pad_digest) (sample_p10_config ''sealed'')
      (Some (sample_calls (sample_chain p10_site) ''sealed'')) [] = (Inr ''sealed'', w') \<and>
    pr_sha256 (sample_p10_config ''sealed'') = hex_bytes (pad_digest ''sealed'')"
proof -
  from sample_p10_read [OF pad_digest_returns] obtain w' where
    w: "read_verified_p10 (\<lambda>n. True) (bcrypt_of pad_digest) (sample_p10_config ''sealed'')
      (Some (sample_calls (sample_chain p10_site) ''sealed'')) [] = (Inr ''sealed'', w')"
    unfolding returns_def by (auto simp: max_p10_bytes_def)
  from p10_read_sealed [OF pad_digest_computes w] w show ?thesis by blast
qed

text \<open>\<^bold>\<open>C35.\<close> The P10 reader leaks no handle: whatever the calls answer or throw, and even when the vector of held
  handles cannot grow, after the read every handle that was opened has been closed exactly once, the
  last opened first, and no handle was used before it was opened or after it was closed.\<close>

theorem p10_handles_closed:
  assumes "read_verified_p10 room (log_bcrypt bc) config (Some (logged_calls calls)) ([], w) = (r, (log, w'))"
  shows "log_holds [] log \<and> (\<forall>h. valid_handle h \<longrightarrow> closed_count h log = opened_count h log)"
  using p10_logged.read_closes [OF assms log_holds_empty] closed_as_opened by blast

theorem p10_handles_closed_witness:
  "\<exists>r log w'. read_verified_p10 (\<lambda>n. n < 2) (log_bcrypt (bcrypt_of pad_digest)) (sample_p10_config ''sealed'')
      (Some (logged_calls (sample_calls (sample_chain p10_site) ''sealed''))) ([], []) = (r, (log, w')) \<and>
    log_holds [] log \<and> closed_count 24 log = opened_count 24 log"
proof -
  obtain r log w' where w: "read_verified_p10 (\<lambda>n. n < 2) (log_bcrypt (bcrypt_of pad_digest)) (sample_p10_config ''sealed'')
      (Some (logged_calls (sample_calls (sample_chain p10_site) ''sealed''))) ([], []) = (r, (log, w'))"
    by (metis surj_pair)
  from p10_handles_closed [OF w] w show ?thesis
    by (intro exI [of _ r] exI [of _ log] exI [of _ w']) (simp add: valid_handle_def null_handle_def invalid_handle_value_def)
qed

section \<open>The system backend\<close>

lemma fail_typed [simp]: "typed_exn (fail pr k ob st msg) \<longleftrightarrow> k \<noteq> Err_none"
  by (simp add: fail_def)

lemma p10_read_content_raises:
  assumes "fills_within sys"
  shows "raises_only typed_exn (p10_read_content sys h max_bytes)"
  unfolding p10_read_content_def Let_def
  by (auto intro!: raises_intros raises_only_bindM_dep raises_only_liftM read_chunks_raises assms
      simp: raise_iff run_iff dest!: read_eof_fits [OF assms] split: prod.splits)

lemma system_p10_sane:
  assumes "fills_within sys"
  shows "sane_calls (system_p10_calls sys tc)"
  unfolding sane_calls_def system_p10_calls_def system_native_calls_def Let_def
  by (auto intro!: raises_only_mono [OF _ typed_sane] open_root_raises open_relative_raises inspect_raises
      p10_read_content_raises assms)

lemma p10_system_typed:
  "fills_within sys \<Longrightarrow> raises_only typed_exn (read_verified_p10 room bc config (Some (system_p10_calls sys tc)))"
  by (rule p10.read_typed [OF system_p10_sane])

lemma p10_read_content_serves:
  assumes "serves_file sys h c at" and "length c \<le> max_bytes" and "at n w"
  shows "\<exists>w'. p10_read_content sys h max_bytes w = (Inr c, w') \<and> at (length c) w'"
  unfolding p10_read_content_def Let_def
  by (rule served_read [OF assms(1,3), of 16384 "\<lambda>got count. count < got"
        "\<lambda>err. Observation (win32_failure Err_incomplete ''P10'' p10_read_profile ''read-content'' err)"
        "fail p10_read_profile Err_incomplete ''P10'' ''read-content'' ''incomplete read''"])
    (use assms(2) in \<open>auto simp: run_iff\<close>)

lemma p10_read_content_oversized:
  assumes "serves_file sys h c at" and "max_bytes < length c" and "at n w"
  shows "\<exists>w'. p10_read_content sys h max_bytes w =
    (Inl (fail p10_read_profile Err_oversized ''P10'' ''read-size'' ''P10 exceeds approved byte count''), w')"
proof -
  obtain w1 where "wn_standard_info sys h w = (Inr \<lparr>si_end_of_file = int (length c), si_directory = False\<rparr>, w1)"
    using serves_fileD(1) [OF assms(1,3)] by blast
  then show ?thesis unfolding p10_read_content_def using assms(2) by (auto simp: raise_iff run_iff)
qed

end
