(* ===== verification/P11_Custody.thy ===== *)
theory P11_Custody
  imports P10_Reader Snapshot_Runs
begin

text \<open>
  The custody reader of the protected head P11 (\<^verbatim>\<open>windows_p11_custody.hpp\<close> and
  \<^verbatim>\<open>windows_p11_custody.cpp\<close>): its configuration, the system backend, and \<^verbatim>\<open>read_verified_p11\<close>.  Where the
  P10 reader is given the sealed text, this one renders it from the frozen case and the digest of P10.
  The theorems on the content reads of both readers are at the end.
\<close>

section \<open>Configuration\<close>

type_synonym 'w p11_custody_calls = "'w protected_calls"

record p11_custody_config =
  cu_root :: metadata
  cu_p1 :: metadata
  cu_p4 :: metadata
  cu_p11 :: metadata
  cu_selected_case :: fixture_case
  cu_rendered_p10_sha256 :: string
  cu_p11_sha256 :: string

definition p11_custody_profile :: string where
  "p11_custody_profile = ''A3/P11/handle-bound-protected-read''"

definition max_p11_bytes :: nat where "max_p11_bytes = 4096"

definition p4_name :: wstring where "p4_name = wide ''store''"

definition p11_name :: wstring where "p11_name = wide ''authority.db''"

definition p11_file_read_spec :: open_spec where
  "p11_file_read_spec = \<lparr>os_access = FILE_READ_DATA OR FILE_READ_ATTRIBUTES OR READ_CONTROL OR SYNCHRONIZE,
     os_share = FILE_SHARE_READ OR FILE_SHARE_WRITE, os_disposition = FILE_OPEN,
     os_options = FILE_NON_DIRECTORY_FILE OR FILE_OPEN_REPARSE_POINT OR FILE_SYNCHRONOUS_IO_NONALERT,
     os_object_attributes = OBJ_CASE_INSENSITIVE OR OBJ_DONT_REPARSE\<rparr>"

definition p11_site :: read_site where
  "p11_site = \<lparr>st_profile = p11_custody_profile, st_object = ''P11'', st_folder_object = ''P4'', st_folder_name = p4_name,
     st_file_name = p11_name, st_file_spec = p11_file_read_spec, st_bytes_differ = ''P11 differs from selected case'',
     st_digest_differs = ''P11 digest differs from G2 seal'', st_content_changed = ''P11 content changed''\<rparr>"

definition p11_chain :: "p11_custody_config \<Rightarrow> sealed_chain" where
  "p11_chain config = \<lparr>sl_root = cu_root config, sl_p1 = cu_p1 config, sl_folder = cu_p4 config, sl_file = cu_p11 config\<rparr>"

section \<open>The system backend\<close>

definition p11_read_content :: "'w win32 \<Rightarrow> handle \<Rightarrow> nat \<Rightarrow> ('w, string) cpp" where
  "p11_read_content sys handle maximum =
     bindM (or_throw (wn_standard_info sys handle)
       (\<lambda>err. Observation (win32_failure Err_incomplete ''P11'' p11_custody_profile ''read-size'' err))) (\<lambda>first.
     bindM (guardM (\<not> (si_directory first \<or> si_end_of_file first < 0))
       (fail p11_custody_profile Err_incomplete ''P11'' ''read-size'' ''invalid file size or type'')) (\<lambda>_.
     bindM (guardM (\<not> int maximum < si_end_of_file first)
       (fail p11_custody_profile Err_oversized ''P11'' ''read-size'' ''P11 exceeds sealed byte count'')) (\<lambda>_.
     bindM (or_throw (wn_set_pointer_begin sys handle)
       (\<lambda>err. Observation (win32_failure Err_incomplete ''P11'' p11_custody_profile ''read-seek'' err))) (\<lambda>_.
     bindM (read_chunks sys handle 4096
       (\<lambda>err. Observation (win32_failure Err_incomplete ''P11'' p11_custody_profile ''read-content'' err))
       (\<lambda>got ask. ask < got) (fail p11_custody_profile Err_incomplete ''P11'' ''read-content'' ''incomplete read'')
       (replicate (nat (si_end_of_file first)) (CHR 0x00)) 0) (\<lambda>result.
     bindM (or_throw (wn_read_file sys handle 1)
       (\<lambda>err. Observation (win32_failure Err_incomplete ''P11'' p11_custody_profile ''read-eof'' err))) (\<lambda>(got, data).
     bindM (liftM (fill [CHR 0x00] 0 data)) (\<lambda>_.
     bindM (guardM (got = 0)
       (fail p11_custody_profile Err_identity_drift ''P11'' ''read-eof'' ''content grew during read'')) (\<lambda>_.
     bindM (or_throw (wn_standard_info sys handle)
       (\<lambda>err. Observation (win32_failure Err_incomplete ''P11'' p11_custody_profile ''read-final-size'' err))) (\<lambda>final.
     bindM (guardM (\<not> (si_directory final \<or> si_end_of_file final \<noteq> si_end_of_file first))
       (fail p11_custody_profile Err_identity_drift ''P11'' ''read-final-size'' ''content size drift'')) (\<lambda>_.
     returnM result))))))))))"

definition system_p11_calls :: "'w win32 \<Rightarrow> text_calls \<Rightarrow> 'w p11_custody_calls" where
  "system_p11_calls sys tc = (let base = system_native_calls sys tc in
     \<lparr>pc_open_root = nc_open_root base,
      pc_open_relative = (\<lambda>parent component spec ob. nc_open_relative base parent component spec ob p11_custody_profile),
      pc_inspect = (\<lambda>handle ob step. nc_inspect base handle ob p11_custody_profile step),
      pc_read_content = p11_read_content sys,
      pc_close = nc_close base\<rparr>)"

section \<open>The reader\<close>

text \<open>The comparison of a frozen case with the selected one in \<^verbatim>\<open>find_if\<close>.\<close>

definition same_case :: "fixture_case \<Rightarrow> fixture_case \<Rightarrow> bool" where
  "same_case selected item \<longleftrightarrow> c_id item = c_id selected \<and> c_latest_digest item = c_latest_digest selected \<and>
     c_generation item = c_generation selected \<and> c_worker_runs item = c_worker_runs selected \<and>
     c_status item = c_status selected \<and> c_state item = c_state selected \<and> c_old_digest item = c_old_digest selected \<and>
     c_old_files item = c_old_files selected \<and> c_latest_files item = c_latest_files selected"

definition find_frozen :: "fixture_case \<Rightarrow> fixture_case list \<Rightarrow> ('w, fixture_case) cpp" where
  "find_frozen selected cases = (case find (same_case selected) cases of
       None \<Rightarrow> throwM (fail p11_custody_profile Err_binding_failure ''P11'' ''trusted-case'' ''selected case is not frozen'')
     | Some found \<Rightarrow> returnM found)"

definition seal_mismatch :: "'w bcrypt \<Rightarrow> string \<Rightarrow> string \<Rightarrow> ('w, bool) cpp" where
  "seal_mismatch bc expected sha =
     (if expected = [] \<or> max_p11_bytes < length expected then returnM True
      else bindM (checked_sha256 p11_custody_profile bc ''P11'' expected ''trusted-config-hash'')
        (\<lambda>digest. returnM (digest \<noteq> sha)))"

text \<open>The checks of the trusted configuration and the rendering of the sealed text.\<close>

definition prepare_p11 :: "'w bcrypt \<Rightarrow> p11_custody_config \<Rightarrow> bool \<Rightarrow> ('w, string) cpp" where
  "prepare_p11 bc config has_calls =
     bindM (guardM (\<not> (\<not> has_calls \<or> \<not> chain_paths (p11_chain config) p11_site))
       (fail p11_custody_profile Err_binding_failure ''P11'' ''trusted-config'' ''invalid G2 P11 identity chain'')) (\<lambda>_.
     bindM (fixture_cases bc) (\<lambda>cases.
     bindM (find_frozen (cu_selected_case config) cases) (\<lambda>found.
     bindM (catchM (liftM (render_p11 found (cu_rendered_p10_sha256 config)))
         (\<lambda>_. throwM (fail p11_custody_profile Err_binding_failure ''P11'' ''trusted-case'' ''invalid rendered P10 digest'')))
       (\<lambda>expected.
     bindM (seal_mismatch bc expected (cu_p11_sha256 config)) (\<lambda>mismatch.
     bindM (guardM (\<not> mismatch)
       (fail p11_custody_profile Err_binding_failure ''P11'' ''trusted-config-hash''
          ''P11 seal does not match canonical case bytes'')) (\<lambda>_.
     returnM expected))))))"

definition read_verified_p11 ::
  "(nat \<Rightarrow> bool) \<Rightarrow> 'w bcrypt \<Rightarrow> p11_custody_config \<Rightarrow> 'w p11_custody_calls option \<Rightarrow> ('w, string) cpp"
where
  "read_verified_p11 room bc config calls =
     reader_handlers p11_site ''non-standard C++ reader exception''
       (bindM (prepare_p11 bc config (calls \<noteq> None)) (\<lambda>expected.
        with_held (the calls) (held_read p11_site room bc (the calls) (p11_chain config) expected (cu_p11_sha256 config))))"

section \<open>The contract\<close>

lemma same_case_eq: "same_case selected item \<longleftrightarrow> item = selected"
  by (auto simp: same_case_def)

lemma find_same_case: "find (same_case c) cs = (if c \<in> set cs then Some c else None)"
  by (induction cs) (auto simp: same_case_eq)

lemma find_frozen_ok [run_iff]:
  "find_frozen selected cases w = (Inr x, w') \<longleftrightarrow> x = selected \<and> selected \<in> set cases \<and> w' = w"
  by (auto simp: find_frozen_def run_iff find_same_case)

lemma seal_mismatch_ok [run_iff]:
  "seal_mismatch bc expected sha w = (Inr False, w') \<longleftrightarrow>
     expected \<noteq> [] \<and> length expected \<le> max_p11_bytes \<and> sha256 bc expected w = (Inr sha, w')"
  by (auto simp: seal_mismatch_def run_iff)

lemma not_ex_bool: "(\<exists>b. P b \<and> \<not> b) \<longleftrightarrow> P False"
  by (metis (full_types))

lemma prepare_p11_ok:
  "prepare_p11 bc config has_calls w = (Inr s, w') \<longleftrightarrow>
     has_calls \<and> chain_paths (p11_chain config) p11_site \<and> s \<noteq> [] \<and> length s \<le> max_p11_bytes \<and>
     render_p11 (cu_selected_case config) (cu_rendered_p10_sha256 config) = Inr s \<and>
     (\<exists>cases w1. fixture_cases bc w = (Inr cases, w1) \<and> cu_selected_case config \<in> set cases \<and>
        sha256 bc s w1 = (Inr (cu_p11_sha256 config), w'))"
  unfolding prepare_p11_def
  by (auto simp: run_iff not_ex_bool)

lemma prepare_p11_raises: "raises_only sane_exn (prepare_p11 bc config has_calls)"
proof -
  have c: "raises_only sane_exn (fixture_cases bc)" by (rule raises_only_mono [OF fixture_cases_raises]) auto
  have r: "raises_only sane_exn (catchM (liftM (render_p11 f d)) (\<lambda>_. throwM (fail pr Err_binding_failure ob st msg)))"
    for f d pr ob st msg
    by (rule raises_only_catchM [where Q = std_only, OF raises_only_liftM [OF render_p11_raises]]) (auto intro!: raises_intros)
  show ?thesis unfolding prepare_p11_def find_frozen_def seal_mismatch_def
    by (auto intro!: raises_intros c r split: option.splits)
qed

text \<open>The preparation only hashes.\<close>

lemma outerM_bindM: "bindM (outerM m) (\<lambda>x. outerM (f x)) = outerM (bindM m f)"
  by (rule ext) (auto simp: bindM_def outerM_def split: prod.splits sum.splits)

lemma outerM_pure:
  "returnM x = outerM (returnM x)" "throwM e = outerM (throwM e)" "guardM b e = outerM (guardM b e)"
  "liftM r = outerM (liftM r)"
  by (auto simp: fun_eq_iff outerM_def returnM_def throwM_def guardM_def liftM_def split: prod.splits)

lemma manifest_loop_log: "manifest_loop (log_bcrypt bc) m files = outerM (manifest_loop bc m files)"
proof (induction bc m files rule: manifest_loop.induct)
  case (1 bc m)
  show ?case by (simp add: outerM_pure(1))
next
  case (2 bc m name bs files)
  then show ?case
    by (simp add: sha256_log_bcrypt outerM_bindM) (subst outerM_pure(3), simp only: outerM_bindM)
qed

lemma mutable_digest_log: "mutable_digest (log_bcrypt bc) files = outerM (mutable_digest bc files)"
  unfolding mutable_digest_def manifest_loop_log sha256_log_bcrypt [abs_def] by (rule outerM_bindM)

lemma digest_cases_log: "digest_cases (log_bcrypt bc) cs = outerM (digest_cases bc cs)"
proof (induction cs)
  case Nil
  show ?case by (simp add: outerM_pure(1))
next
  case (Cons c cs)
  show ?case unfolding digest_cases.simps mutable_digest_log Cons outerM_pure(1) outerM_bindM ..
qed

lemma find_frozen_log: "find_frozen selected cases = outerM (find_frozen selected cases)"
  by (simp add: find_frozen_def outerM_pure(1,2) split: option.split)

lemma checked_sha256_log: "checked_sha256 pr (log_bcrypt bc) ob bs step = outerM (checked_sha256 pr bc ob bs step)"
  by (simp add: checked_sha256_def sha256_log_bcrypt outerM_catchM)

lemma seal_mismatch_log: "seal_mismatch (log_bcrypt bc) expected sha = outerM (seal_mismatch bc expected sha)"
  unfolding seal_mismatch_def checked_sha256_log outerM_pure(1) outerM_bindM by simp

lemma prepare_p11_log: "prepare_p11 (log_bcrypt bc) config has_calls = outerM (prepare_p11 bc config has_calls)"
  unfolding prepare_p11_def fixture_cases_def digest_cases_log find_frozen_log seal_mismatch_log outerM_pure(1,3,4)
    outerM_catchM outerM_bindM ..

interpretation p11: sealed_reader p11_site "''non-standard C++ reader exception''"
  "\<lambda>bc config. prepare_p11 bc config True" p11_chain cu_p11_sha256
  "\<lambda>room bc config calls. read_verified_p11 room bc config (Some calls)"
  by unfold_locales (simp_all add: read_verified_p11_def sealed_read_def prepare_p11_raises)

interpretation p11_logged: logged_sealed_reader p11_site "''non-standard C++ reader exception''"
  "\<lambda>bc config. prepare_p11 bc config True" p11_chain cu_p11_sha256
  "\<lambda>room bc config calls. read_verified_p11 room bc config (Some calls)"
  by unfold_locales (auto simp: prepare_p11_log outerM_def split: prod.splits)

lemma read_verified_p11_calls:
  "read_verified_p11 room bc config calls w = (Inr s, w') \<Longrightarrow> \<exists>c. calls = Some c"
  by (cases calls) (auto simp: read_verified_p11_def run_iff prepare_p11_ok)

section \<open>The verified read\<close>

text \<open>\<^bold>\<open>C34.\<close> The head that the custody reader returns is the sealed one: the selected case is one of the frozen
  cases with their digests, the returned text is its canonical rendering for the digest of P10, its
  SHA-256 is the sealed digest, and the calls answered in the order of the code: every node of the chain showed
  exactly its sealed identity before and after the content was read twice with the same result, and
  the handles were closed in reverse order.\<close>

theorem p11_read_sealed:
  assumes "bcrypt_computes bc H" and "read_verified_p11 room bc config calls w = (Inr s, w')"
  shows "\<exists>c w0. calls = Some c \<and> cu_selected_case config \<in> set (frozen_cases H) \<and>
    render_p11 (cu_selected_case config) (cu_rendered_p10_sha256 config) = Inr s \<and> length s \<le> max_p11_bytes \<and>
    cu_p11_sha256 config = hex_bytes (H s) \<and> chain_paths (p11_chain config) p11_site \<and>
    sound_chain p11_site (p11_chain config) \<and> has_seen p11_site bc c (p11_chain config) s (cu_p11_sha256 config) w0 w'"
proof -
  from read_verified_p11_calls [OF assms(2)] obtain c where c: "calls = Some c" ..
  with assms(2) have run: "read_verified_p11 room bc config (Some c) w = (Inr s, w')" by simp
  from run [unfolded p11.read_iff prepare_p11_ok] obtain cases w1 w0 where
    "fixture_cases bc w = (Inr cases, w1)" "cu_selected_case config \<in> set cases"
    "sha256 bc s w1 = (Inr (cu_p11_sha256 config), w0)"
    "has_seen p11_site bc c (p11_chain config) s (cu_p11_sha256 config) w0 w'" by blast
  with run [unfolded p11.read_iff prepare_p11_ok] c sha256_seal [OF assms(1)] fixture_cases_value [OF assms(1)]
  show ?thesis by (intro exI [of _ c] exI [of _ w0]) auto
qed

text \<open>\<^bold>\<open>C36.\<close> The custody reader leaks no handle: whatever the calls answer or throw, after the read every handle
  that was opened has been closed exactly once, the last opened first, and no handle was used before
  it was opened or after it was closed.\<close>

theorem p11_handles_closed:
  assumes "read_verified_p11 room (log_bcrypt bc) config (Some (logged_calls calls)) ([], w) = (r, (log, w'))"
  shows "log_holds [] log \<and> (\<forall>h. valid_handle h \<longrightarrow> closed_count h log = opened_count h log)"
  using p11_logged.read_closes [OF assms log_holds_empty] closed_as_opened by blast

definition sample_p11_config :: p11_custody_config where
  "sample_p11_config = (let sealed = sample_chain p11_site in
     \<lparr>cu_root = sl_root sealed, cu_p1 = sl_p1 sealed, cu_p4 = sl_folder sealed, cu_p11 = sl_file sealed,
      cu_selected_case = with_digests pad_digest active_case, cu_rendered_p10_sha256 = sample_p10_hash,
      cu_p11_sha256 = hex_bytes (pad_digest sample_p11)\<rparr>)"

lemma sample_p11_chain: "p11_chain sample_p11_config = sample_chain p11_site"
  by (simp add: p11_chain_def sample_p11_config_def Let_def)

lemma sample_p11_length: "length sample_p11 = 299"
proof -
  have "frozen_cases pad_digest ! 0 = with_digests pad_digest active_case"
    by (simp add: frozen_cases_def frozen_case_data_def)
  then show ?thesis using p11_text_length_active [OF pad_digest32 sample_p10_hex64] by (simp add: sample_p11_def)
qed

lemma sample_p11_read:
  "returns (read_verified_p11 (\<lambda>n. True) (bcrypt_of pad_digest) sample_p11_config
     (Some (sample_calls (sample_chain p11_site) sample_p11))) sample_p11"
proof (rule p11.read_stable)
  have h: "returns (sha256 (bcrypt_of pad_digest) sample_p11) (hex_bytes (pad_digest sample_p11))"
    by (simp add: returns_def run_simps ulong_max_def sample_p11_length)
  show "stable_site p11_site (sample_calls (sample_chain p11_site) sample_p11) (p11_chain sample_p11_config) sample_p11"
    unfolding sample_p11_chain by (rule sample_calls_stable)
  show "sound_chain p11_site (p11_chain sample_p11_config)" unfolding sample_p11_chain by (rule sample_chain_sound)
  show "returns (sha256 (bcrypt_of pad_digest) sample_p11) (cu_p11_sha256 sample_p11_config)"
    using h by (simp add: sample_p11_config_def Let_def)
  have "with_digests pad_digest active_case \<in> set (frozen_cases pad_digest)"
    using active_frozen by (simp add: frozen_cases_def)
  moreover have "\<exists>w'. fixture_cases (bcrypt_of pad_digest) w = (Inr (frozen_cases pad_digest), w')" for w
    by (rule fixture_cases_bcrypt_of [OF pad_digest32])
  moreover have "sample_p11 \<noteq> []" using sample_p11_length by auto
  ultimately show "returns (prepare_p11 (bcrypt_of pad_digest) sample_p11_config True) sample_p11"
    using h sample_chain_paths [of p11_site] unfolding returns_def prepare_p11_ok sample_p11_chain
    by (simp add: sample_p11_config_def Let_def sample_p11_rendered max_p11_bytes_def sample_p11_length) metis
qed simp

theorem p11_read_sealed_witness:
  "\<exists>w'. read_verified_p11 (\<lambda>n. True) (bcrypt_of pad_digest) sample_p11_config
      (Some (sample_calls (sample_chain p11_site) sample_p11)) [] = (Inr sample_p11, w') \<and>
    cu_p11_sha256 sample_p11_config = hex_bytes (pad_digest sample_p11)"
proof -
  from sample_p11_read obtain w' where
    w: "read_verified_p11 (\<lambda>n. True) (bcrypt_of pad_digest) sample_p11_config
      (Some (sample_calls (sample_chain p11_site) sample_p11)) [] = (Inr sample_p11, w')"
    unfolding returns_def by blast
  from p11_read_sealed [OF pad_digest_computes w] w show ?thesis by blast
qed

theorem p11_handles_closed_witness:
  "\<exists>r log w'. read_verified_p11 (\<lambda>n. n < 3) (log_bcrypt (bcrypt_of pad_digest)) sample_p11_config
      (Some (logged_calls (sample_calls (sample_chain p11_site) sample_p11))) ([], []) = (r, (log, w')) \<and>
    log_holds [] log \<and> closed_count 28 log = opened_count 28 log"
proof -
  obtain r log w' where w: "read_verified_p11 (\<lambda>n. n < 3) (log_bcrypt (bcrypt_of pad_digest)) sample_p11_config
      (Some (logged_calls (sample_calls (sample_chain p11_site) sample_p11))) ([], []) = (r, (log, w'))"
    by (metis surj_pair)
  from p11_handles_closed [OF w] w show ?thesis
    by (intro exI [of _ r] exI [of _ log] exI [of _ w']) (simp add: valid_handle_def null_handle_def invalid_handle_value_def)
qed

section \<open>The system backends of both readers\<close>

lemma p11_read_content_raises:
  assumes "fills_within sys"
  shows "raises_only typed_exn (p11_read_content sys h maximum)"
  unfolding p11_read_content_def
  by (auto intro!: raises_intros raises_only_bindM_dep raises_only_liftM read_chunks_raises assms
      simp: raise_iff run_iff dest!: read_eof_fits [OF assms] split: prod.splits)

lemma system_p11_sane:
  assumes "fills_within sys"
  shows "sane_calls (system_p11_calls sys tc)"
  unfolding sane_calls_def system_p11_calls_def system_native_calls_def Let_def
  by (auto intro!: raises_only_mono [OF _ typed_sane] open_root_raises open_relative_raises inspect_raises
      p11_read_content_raises assms)

lemma p11_read_content_serves:
  assumes "serves_file sys h c at" and "length c \<le> maximum" and "at n w"
  shows "\<exists>w'. p11_read_content sys h maximum w = (Inr c, w') \<and> at (length c) w'"
  unfolding p11_read_content_def
  by (rule served_read [OF assms(1,3), of 4096 "\<lambda>got ask. ask < got"
        "\<lambda>err. Observation (win32_failure Err_incomplete ''P11'' p11_custody_profile ''read-content'' err)"
        "fail p11_custody_profile Err_incomplete ''P11'' ''read-content'' ''incomplete read''"])
    (use assms(2) in \<open>auto simp: run_iff\<close>)

lemma p11_read_content_oversized:
  assumes "serves_file sys h c at" and "maximum < length c" and "at n w"
  shows "\<exists>w'. p11_read_content sys h maximum w =
    (Inl (fail p11_custody_profile Err_oversized ''P11'' ''read-size'' ''P11 exceeds sealed byte count''), w')"
proof -
  obtain w1 where "wn_standard_info sys h w = (Inr \<lparr>si_end_of_file = int (length c), si_directory = False\<rparr>, w1)"
    using serves_fileD(1) [OF assms(1,3)] by blast
  then show ?thesis unfolding p11_read_content_def using assms(2) by (auto simp: raise_iff run_iff)
qed

text \<open>The content reads of the two protected readers: of a file within the bound they return exactly its
  bytes, however the system splits the reads; a larger file is refused as oversized.\<close>

theorem protected_content_exact:
  assumes "serves_file sys h c at" and "at n w"
  shows "if length c \<le> maximum
    then (\<exists>w'. p10_read_content sys h maximum w = (Inr c, w')) \<and> (\<exists>w'. p11_read_content sys h maximum w = (Inr c, w'))
    else (\<exists>f w'. p10_read_content sys h maximum w = (Inl (Observation f), w') \<and> f_kind f = Err_oversized) \<and>
      (\<exists>f w'. p11_read_content sys h maximum w = (Inl (Observation f), w') \<and> f_kind f = Err_oversized)"
proof (cases "length c \<le> maximum")
  case True
  with p10_read_content_serves [OF assms(1) True assms(2)] p11_read_content_serves [OF assms(1) True assms(2)]
  show ?thesis by auto
next
  case False
  then have "maximum < length c" by simp
  from p10_read_content_oversized [OF assms(1) this assms(2)] p11_read_content_oversized [OF assms(1) this assms(2)] False
  show ?thesis by (auto simp: fail_def observe_def observation_failure_of_def observation_failure_full_def)
qed

theorem protected_content_exact_witness:
  "fst (p10_read_content (sample_win32 ''a longer text'') 20 13 7) = Inr ''a longer text'' \<and>
   fst (p11_read_content (sample_win32 ''a longer text'') 20 13 7) = Inr ''a longer text''"
  using protected_content_exact [OF sample_win32_serves refl, of "''a longer text''" 13 20 7] by auto

text \<open>\<^bold>\<open>C37.\<close> The production readers fail only with typed observation failures: over a system that never writes
  past a buffer, whatever else it answers, neither reader reads or writes outside an object, both end,
  and every failure is an observation failure with a real error kind.\<close>

theorem protected_readers_typed:
  assumes "fills_within sys"
  shows "raises_only typed_exn (read_verified_p10 room bc p10_config (Some (system_p10_calls sys tc))) \<and>
    raises_only typed_exn (read_verified_p11 room bc p11_config (Some (system_p11_calls sys tc)))"
  using p10.read_typed [OF system_p10_sane [OF assms]] p11.read_typed [OF system_p11_sane [OF assms]] by blast

definition failing_bcrypt :: "'w bcrypt" where
  "failing_bcrypt = \<lparr>bc_open_algorithm = (\<lambda>w. ((- 1, 0), w)), bc_create_hash = (\<lambda>alg w. ((- 1, 0), w)),
     bc_hash_data = (\<lambda>h bs w. (- 1, w)), bc_finish_hash = (\<lambda>h w. ((- 1, []), w)),
     bc_destroy_hash = (\<lambda>h w. w), bc_close_algorithm = (\<lambda>alg w. w)\<rparr>"

theorem protected_readers_typed_witness:
  "raises_only typed_exn (read_verified_p10 (\<lambda>n. True) failing_bcrypt (sample_p10_config ''sealed'')
     (Some (system_p10_calls (sample_win32 ''sealed'') ascii_text_calls))) \<and>
   fst (read_verified_p10 (\<lambda>n. True) failing_bcrypt (sample_p10_config ''sealed'')
     (Some (system_p10_calls (sample_win32 ''sealed'') ascii_text_calls)) 0) =
   Inl (fail p10_read_profile Err_hash_failure ''P10'' ''trusted-config-hash'' ''BCrypt SHA-256 failed'')"
proof -
  have "sha256 failing_bcrypt bs w = (Inl (Std Runtime_error ''BCryptOpenAlgorithmProvider''), w)"
    if "length bs \<le> ulong_max" for bs and w :: nat
    using that by (simp add: sha256_def failing_bcrypt_def)
  then have "checked_sha256 pr failing_bcrypt ob ''sealed'' st w = (Inl (fail pr Err_hash_failure ob st ''BCrypt SHA-256 failed''), w)"
    for pr ob st and w :: nat
    by (simp add: checked_sha256_def catchM_def run_simps ulong_max_def)
  moreover have "hex_bytes (pad_digest ''sealed'') \<noteq> []" by (simp add: pad_digest_def hex_bytes_def hex_byte_def)
  ultimately have "prepare_p10 failing_bcrypt (sample_p10_config ''sealed'') True (0 :: nat) =
      (Inl (fail p10_read_profile Err_hash_failure ''P10'' ''trusted-config-hash'' ''BCrypt SHA-256 failed''), 0)"
    using sample_chain_paths [of p10_site] unfolding prepare_p10_def sample_p10_chain
    by (simp add: bindM_def run_simps sample_p10_config_def Let_def max_p10_bytes_def)
  then have "fst (read_verified_p10 (\<lambda>n. True) failing_bcrypt (sample_p10_config ''sealed'')
     (Some (system_p10_calls (sample_win32 ''sealed'') ascii_text_calls)) 0) =
   Inl (fail p10_read_profile Err_hash_failure ''P10'' ''trusted-config-hash'' ''BCrypt SHA-256 failed'')"
    by (simp add: read_verified_p10_def reader_handlers_def catch_chain_def catchM_def bindM_def fail_def observe_def run_simps)
  with protected_readers_typed [OF sample_win32_fills] show ?thesis by blast
qed

end
