(* ===== verification/Token_Sid.thy ===== *)
theory Token_Sid
  imports Protected_Read
begin

text \<open>
  The SID of the current process token (\<^verbatim>\<open>windows_controller_token_sid.hpp\<close> and \<^verbatim>\<open>.cpp\<close>): the port that
  opens the token, asks for the size of the TokenUser information, reads it into a buffer, checks that
  the SID it points to lies inside the buffer, and converts it to text.

  The interface \<^verbatim>\<open>TokenSidNativeCalls\<close> is the record \<open>token_sid_native_calls\<close>; the calls of the system and
  of the C++ runtime that the port makes itself are the record \<open>sid_system\<close>.  A buffer is its
  address with its bytes; an access outside its bytes is undefined behaviour.
\<close>

section \<open>Interfaces\<close>

definition controller_token_sid_profile :: string where
  "controller_token_sid_profile = ''A2/current-process-token/SID''"

text \<open>The sizes of the Windows headers on a 64-bit system.\<close>

definition sizeof_token_user :: nat where "sizeof_token_user = 16"

definition min_sid_bytes :: nat where "min_sid_bytes = 8"

definition max_token_user_bytes :: nat where "max_token_user_bytes = 84"

definition SID_REVISION :: u8 where "SID_REVISION = 1"

definition SID_MAX_SUB_AUTHORITIES :: nat where "SID_MAX_SUB_AUTHORITIES = 15"

definition SECURITY_MAX_SID_STRING_CHARACTERS :: nat where "SECURITY_MAX_SID_STRING_CHARACTERS = 187"

definition TOKEN_QUERY :: u32 where "TOKEN_QUERY = 8"

text \<open>What a query leaves: its result, the two output parameters, and the bytes written to the buffer.\<close>

record token_query =
  tq_success :: bool
  tq_returned_length :: u32
  tq_win32_error :: u32
  tq_written :: bytes

text \<open>The buffer of a query is its address, \<open>None\<close> for a null pointer.\<close>

record 'w token_sid_native_calls =
  tk_open_current_process_token :: "u32 \<Rightarrow> ('w, handle \<times> u32) cpp"
  tk_query_token_user :: "handle \<Rightarrow> u64 option \<Rightarrow> u32 \<Rightarrow> ('w, token_query) cpp"
  tk_close :: "handle \<Rightarrow> 'w \<Rightarrow> 'w"

text \<open>\<^verbatim>\<open>new std::byte[n]\<close> with its address and the matching \<^verbatim>\<open>delete[]\<close>, \<^verbatim>\<open>IsValidSid\<close> and \<^verbatim>\<open>GetLengthSid\<close> on
  the bytes of a SID, \<^verbatim>\<open>ConvertSidToStringSidW\<close> (result, pointer and text, last error), \<^verbatim>\<open>LocalFree\<close>,
  \<^verbatim>\<open>OpenProcessToken\<close> of the current process, \<^verbatim>\<open>GetTokenInformation\<close> for TokenUser (result, returned length,
  bytes, last error) and \<^verbatim>\<open>CloseHandle\<close>.\<close>

record 'w sid_system =
  sd_new_bytes :: "nat \<Rightarrow> ('w, u64) cpp"
  sd_delete_bytes :: "u64 \<Rightarrow> 'w \<Rightarrow> 'w"
  sd_is_valid_sid :: "bytes \<Rightarrow> bool"
  sd_get_length_sid :: "bytes \<Rightarrow> u32"
  sd_convert_sid :: "bytes \<Rightarrow> ('w, bool \<times> (u64 \<times> wstring) option \<times> u32) sys"
  sd_local_free :: "u64 \<Rightarrow> 'w \<Rightarrow> 'w"
  sd_open_process_token :: "u32 \<Rightarrow> ('w, u32 + handle) sys"
  sd_get_token_information :: "handle \<Rightarrow> u64 option \<Rightarrow> u32 \<Rightarrow> ('w, bool \<times> u32 \<times> bytes \<times> u32) sys"
  sd_close_handle :: "handle \<Rightarrow> 'w \<Rightarrow> 'w"

definition stop :: "error_kind \<Rightarrow> string \<Rightarrow> string \<Rightarrow> u32 \<Rightarrow> bool \<Rightarrow> exn" where
  "stop kind step message error has_error =
     Observation (observation_failure_full kind ''A2-token'' controller_token_sid_profile step message 0 False error has_error)"

section \<open>The system backend\<close>

definition system_token_sid_calls :: "'w sid_system \<Rightarrow> 'w token_sid_native_calls" where
  "system_token_sid_calls sys = \<lparr>
     tk_open_current_process_token = (\<lambda>access.
       bindM (sysM (sd_open_process_token sys access)) (\<lambda>r.
       case r of Inl err \<Rightarrow> returnM (null_handle, err) | Inr token \<Rightarrow> returnM (token, ERROR_SUCCESS))),
     tk_query_token_user = (\<lambda>token buffer capacity.
       bindM (sysM (sd_get_token_information sys token buffer capacity)) (\<lambda>(success, returned, written, last_error).
       returnM \<lparr>tq_success = success, tq_returned_length = returned,
         tq_win32_error = (if success then ERROR_SUCCESS else last_error), tq_written = written\<rparr>)),
     tk_close = sd_close_handle sys\<rparr>"

section \<open>Holders\<close>

text \<open>\<^verbatim>\<open>HeldToken\<close> closes the token, \<^verbatim>\<open>LocalSidText\<close> frees the text that was allocated, on every path.\<close>

definition held_token :: "'w token_sid_native_calls \<Rightarrow> handle \<Rightarrow> ('w, 'a) cpp \<Rightarrow> ('w, 'a) cpp" where
  "held_token calls token m = scopeM m (tk_close calls token)"

definition local_sid_text :: "'w sid_system \<Rightarrow> (u64 \<times> wstring) option \<Rightarrow> ('w, 'a) cpp \<Rightarrow> ('w, 'a) cpp" where
  "local_sid_text sys text m = scopeM m (case text of None \<Rightarrow> (\<lambda>w. w) | Some (p, t) \<Rightarrow> sd_local_free sys p)"

section \<open>Decoding the TokenUser bytes\<close>

text \<open>The copy of the \<^verbatim>\<open>TOKEN_USER\<close> structure: its first field is the address of the SID.\<close>

definition load_token_user :: "bytes \<Rightarrow> u64 option" where
  "load_token_user buffer = do {
     user \<leftarrow> load buffer 0 sizeof_token_user;
     low \<leftarrow> get32 user 0;
     high \<leftarrow> get32 user 4;
     Some (ucast low OR push_bit 32 (ucast high)) }"

definition load_byte :: "bytes \<Rightarrow> nat \<Rightarrow> u8 option" where
  "load_byte buffer off = map_option hd (load buffer off 1)"

definition sid_char :: "u16 \<Rightarrow> bool" where
  "sid_char c \<longleftrightarrow> (wide_char (CHR ''0'') \<le> c \<and> c \<le> wide_char (CHR ''9'')) \<or> c = wide_char (CHR ''S'') \<or> c = wide_char (CHR ''-'')"

text \<open>The loop over the characters of the text.\<close>

fun sid_chars :: "wstring \<Rightarrow> string \<Rightarrow> exn + string" where
  "sid_chars [] result = Inr result"
| "sid_chars (c # cs) result =
     bindE (guardE (sid_char c)
       (stop Err_malformed ''ConvertSidToStringSidW/text'' ''SID text contains an invalid character'' 0 False)) (\<lambda>_.
     sid_chars cs (result @ [char_of (unat c)]))"

text \<open>The checks of the converted text; \<^verbatim>\<open>wcsnlen_s\<close> counts up to the terminator, at most one past the limit.\<close>

definition sid_text :: "wstring \<Rightarrow> exn + string" where
  "sid_text text =
     (let s = takeWhile (\<lambda>c. c \<noteq> 0) text;
          len = min (length s) (SECURITY_MAX_SID_STRING_CHARACTERS + 1) in
      bindE (guardE (\<not> (len < 5 \<or> SECURITY_MAX_SID_STRING_CHARACTERS < len \<or> s ! 0 \<noteq> wide_char (CHR ''S'') \<or>
          s ! 1 \<noteq> wide_char (CHR ''-'')))
        (stop Err_malformed ''ConvertSidToStringSidW/text'' ''noncanonical SID text'' 0 False)) (\<lambda>_.
      sid_chars (take len s) []))"

definition convert_sid :: "'w sid_system \<Rightarrow> bytes \<Rightarrow> ('w, string) cpp" where
  "convert_sid sys raw =
     bindM (sysM (sd_convert_sid sys raw)) (\<lambda>(converted, text, last_error).
     local_sid_text sys text
       (bindM (guardM converted
          (stop Err_native_failure ''ConvertSidToStringSidW'' ''SID conversion failed'' last_error True)) (\<lambda>_.
        case text of
          None \<Rightarrow> throwM (stop Err_incomplete ''ConvertSidToStringSidW'' ''conversion succeeded without text'' 0 False)
        | Some (p, t) \<Rightarrow> liftM (sid_text t))))"

definition decode_token_user_sid :: "'w sid_system \<Rightarrow> u64 \<Rightarrow> bytes \<Rightarrow> u32 \<Rightarrow> ('w, string) cpp" where
  "decode_token_user_sid sys base buffer returned_length =
     bindM (guardM (\<not> (base = 0 \<or> unat returned_length < sizeof_token_user + min_sid_bytes \<or>
         max_token_user_bytes < unat returned_length))
       (stop Err_incomplete ''TokenUser/length'' ''TokenUser result length is incomplete or out of bounds'' 0 False)) (\<lambda>_.
     bindM (liftM (or_undefined (load_token_user buffer))) (\<lambda>sid_address.
     bindM (guardM (\<not> (sid_address = 0 \<or> sid_address < base \<or> unat (sid_address - base) < sizeof_token_user \<or>
         unat returned_length - min_sid_bytes < unat (sid_address - base)))
       (stop Err_malformed ''TokenUser/SidPointer'' ''SID pointer is outside the returned TokenUser buffer'' 0 False)) (\<lambda>_.
     let offset = unat (sid_address - base); available = unat returned_length - offset in
     bindM (liftM (or_undefined (load_byte buffer offset))) (\<lambda>revision.
     bindM (guardM (\<not> revision \<noteq> SID_REVISION)
       (stop Err_malformed ''TokenUser/SidHeader'' ''SID revision or subauthority count is invalid'' 0 False)) (\<lambda>_.
     bindM (liftM (or_undefined (load_byte buffer (offset + 1)))) (\<lambda>count.
     bindM (guardM (\<not> SID_MAX_SUB_AUTHORITIES < unat count)
       (stop Err_malformed ''TokenUser/SidHeader'' ''SID revision or subauthority count is invalid'' 0 False)) (\<lambda>_.
     let sid_length = min_sid_bytes + unat count * 4 in
     bindM (guardM (\<not> available < sid_length)
       (stop Err_incomplete ''TokenUser/SidLength'' ''SID extends beyond returned TokenUser bytes'' 0 False)) (\<lambda>_.
     bindM (liftM (or_undefined (load buffer offset sid_length))) (\<lambda>raw.
     bindM (guardM (\<not> (\<not> sd_is_valid_sid sys raw \<or> unat (sd_get_length_sid sys raw) \<noteq> sid_length))
       (stop Err_malformed ''TokenUser/SidValidation'' ''SID failed Windows validation'' 0 False)) (\<lambda>_.
     convert_sid sys raw))))))))))"

section \<open>The port\<close>

text \<open>The second query, into the buffer of the required size.\<close>

definition read_token_user ::
  "'w sid_system \<Rightarrow> 'w token_sid_native_calls \<Rightarrow> handle \<Rightarrow> u32 \<Rightarrow> u64 \<Rightarrow> ('w, string) cpp"
where
  "read_token_user sys calls token required base =
     bindM (tk_query_token_user calls token (Some base) required) (\<lambda>q.
     bindM (liftM (fill (replicate (unat required) 0) 0 (tq_written q))) (\<lambda>buffer.
     bindM (guardM (tq_success q)
       (stop (if tq_win32_error q = ERROR_INSUFFICIENT_BUFFER then Err_incomplete else Err_native_failure)
          ''TokenUser/read'' ''TokenUser read failed without retry'' (tq_win32_error q) True)) (\<lambda>_.
     bindM (guardM (\<not> required < tq_returned_length q)
       (stop Err_incomplete ''TokenUser/length'' ''TokenUser returned length exceeds allocated buffer'' 0 False)) (\<lambda>_.
     decode_token_user_sid sys base buffer (tq_returned_length q)))))"

text \<open>The work between the opening and the closing of the token.\<close>

definition with_token :: "'w sid_system \<Rightarrow> 'w token_sid_native_calls \<Rightarrow> handle \<Rightarrow> ('w, string) cpp" where
  "with_token sys calls token =
     bindM (tk_query_token_user calls token None 0) (\<lambda>q.
     bindM (liftM (fill [] 0 (tq_written q))) (\<lambda>_.
     bindM (guardM (\<not> (tq_success q \<or> tq_win32_error q \<noteq> ERROR_INSUFFICIENT_BUFFER))
       (stop (if tq_success q then Err_incomplete else Err_native_failure) ''TokenUser/size-query''
          ''TokenUser sizing query did not return the required bound'' (tq_win32_error q) (\<not> tq_success q))) (\<lambda>_.
     let required = tq_returned_length q in
     bindM (guardM (\<not> unat required < sizeof_token_user + min_sid_bytes)
       (stop Err_incomplete ''TokenUser/size-query'' ''TokenUser required length is too small'' 0 False)) (\<lambda>_.
     bindM (guardM (\<not> max_token_user_bytes < unat required)
       (stop Err_oversized ''TokenUser/size-query'' ''TokenUser required length exceeds SDK SID bound'' 0 False)) (\<lambda>_.
     bindM (sd_new_bytes sys (unat required)) (\<lambda>base.
     scopeM (read_token_user sys calls token required base) (sd_delete_bytes sys base)))))))"

definition open_token :: "'w token_sid_native_calls \<Rightarrow> ('w, handle) cpp" where
  "open_token calls =
     bindM (tk_open_current_process_token calls TOKEN_QUERY) (\<lambda>(token, err).
     bindM (guardM (\<not> (token = null_handle \<or> token = invalid_handle_value))
       (stop (if err = ERROR_SUCCESS then Err_incomplete else Err_native_failure) ''OpenProcessToken''
          ''current process token open failed'' err (err \<noteq> ERROR_SUCCESS))) (\<lambda>_.
     returnM token))"

definition token_failure :: "string \<Rightarrow> exn" where
  "token_failure message = observe Err_incomplete ''A2-token'' controller_token_sid_profile ''token-reader-exception'' message"

definition read_current_process_sid :: "'w sid_system \<Rightarrow> 'w token_sid_native_calls option \<Rightarrow> ('w, string) cpp" where
  "read_current_process_sid sys calls = catch_chain
     (bindM (guardM (calls \<noteq> None)
        (stop Err_incomplete ''token-backend'' ''token backend is absent'' 0 False)) (\<lambda>_.
      bindM (open_token (the calls)) (\<lambda>token.
      held_token (the calls) token (with_token sys (the calls) token))))
     (\<lambda>f. throwM (Observation f))
     (\<lambda>what. throwM (token_failure what))
     (throwM (token_failure ''non-standard C++ token-reader exception''))"

section \<open>Outcomes\<close>

text \<open>What the injected calls may do: raise any C++ exception, and write at most the announced capacity.\<close>

definition token_calls_within :: "'w token_sid_native_calls \<Rightarrow> bool" where
  "token_calls_within calls \<longleftrightarrow> (\<forall>access. raises_only defined (tk_open_current_process_token calls access)) \<and>
     (\<forall>token buffer capacity. raises_only defined (tk_query_token_user calls token buffer capacity)) \<and>
     (\<forall>token buffer capacity w q w'. tk_query_token_user calls token buffer capacity w = (Inr q, w') \<longrightarrow>
        length (tq_written q) \<le> unat capacity)"

lemma token_calls_withinD:
  assumes "token_calls_within calls"
  shows "raises_only defined (tk_open_current_process_token calls access)"
    "raises_only defined (tk_query_token_user calls token buffer capacity)"
    "tk_query_token_user calls token buffer capacity w = (Inr q, w') \<Longrightarrow> length (tq_written q) \<le> unat capacity"
  using assms unfolding token_calls_within_def by blast+

text \<open>A call or the allocation can raise an \<^verbatim>\<open>ObservationFailure\<close> of its own that names no error.\<close>

definition token_kindless :: "'w sid_system \<Rightarrow> 'w token_sid_native_calls \<Rightarrow> bool" where
  "token_kindless sys calls \<longleftrightarrow> (\<exists>access. kindless (tk_open_current_process_token calls access)) \<or>
     (\<exists>token buffer capacity. kindless (tk_query_token_user calls token buffer capacity)) \<or>
     (\<exists>n. kindless (sd_new_bytes sys n))"

lemma token_calls_lawful:
  assumes "token_calls_within calls" and "\<And>n. raises_only defined (sd_new_bytes sys n)" and "token_kindless sys calls \<Longrightarrow> K"
  shows "raises_only (lawful K) (tk_open_current_process_token calls access)"
    "raises_only (lawful K) (tk_query_token_user calls token buffer capacity)"
    "raises_only (lawful K) (sd_new_bytes sys n)"
  by (rule raises_lawful, rule token_calls_withinD [OF assms(1)] assms(2), rule assms(3), auto simp: token_kindless_def)+

lemma sane_lawful: "raises_only sane_exn m \<Longrightarrow> raises_only (lawful K) m"
  by (erule raises_only_mono) (auto simp: sane_exn_def lawful_def)

lemma stop_lawful [simp]: "lawful K (stop k st msg err has) \<longleftrightarrow> (k = Err_none \<longrightarrow> K)"
  by (simp add: stop_def lawful_def observation_failure_full_def)

lemma stop_sane [simp]: "sane_exn (stop k st msg err has) \<longleftrightarrow> k \<noteq> Err_none"
  by (simp add: stop_def sane_exn_def observation_failure_full_def)

lemma sid_chars_ok [run_iff]:
  "sid_chars cs result = Inr s \<longleftrightarrow> list_all sid_char cs \<and> s = result @ map (\<lambda>c. char_of (unat c)) cs"
  by (induction cs result rule: sid_chars.induct) (auto simp: run_iff)

lemma sid_chars_raises: "sid_chars cs result = Inl e \<Longrightarrow> sane_exn e"
  by (induction cs result rule: sid_chars.induct) (auto simp: raise_iff run_iff)

lemma sid_text_raises: "sid_text t = Inl e \<Longrightarrow> sane_exn e"
  by (auto simp: sid_text_def raise_iff run_iff Let_def dest: sid_chars_raises)

lemma convert_sid_raises [raises_intros]: "raises_only sane_exn (convert_sid sys raw)"
  unfolding convert_sid_def local_sid_text_def
  by (auto intro!: raises_intros raises_only_sysM raises_only_liftM dest: sid_text_raises split: prod.splits option.splits)

lemma load_byte_defined: "off < length buffer \<Longrightarrow> load_byte buffer off = Some (buffer ! off)"
  by (simp add: load_byte_def load_defined take_Suc hd_drop_conv_nth)

lemma load_token_user_defined:
  assumes "sizeof_token_user \<le> length buffer"
  shows "load_token_user buffer \<noteq> None"
proof -
  have "get32 (take 16 buffer) 0 \<noteq> None" "get32 (take 16 buffer) 4 \<noteq> None"
    using assms by (auto simp: sizeof_token_user_def get32_def load_def)
  with assms show ?thesis by (auto simp: load_token_user_def sizeof_token_user_def load_defined)
qed

lemma raises_only_defined: "r \<noteq> None \<Longrightarrow> raises_only P (liftM (or_undefined r))"
  by (rule raises_only_liftM) (auto simp: or_undefined_def split: option.splits)

lemma decode_raises:
  assumes "unat returned \<le> length buffer"
  shows "raises_only sane_exn (decode_token_user_sid sys base buffer returned)"
  unfolding decode_token_user_sid_def Let_def
  using assms load_token_user_defined [of buffer]
  by (intro raises_only_bindM_dep raises_only_guardM raises_only_defined convert_sid_raises)
    (auto simp: run_iff sizeof_token_user_def min_sid_bytes_def load_byte_defined load_defined not_less)

lemma read_token_user_raises:
  assumes "token_calls_within calls" and "\<And>n. raises_only defined (sd_new_bytes sys n)" and "token_kindless sys calls \<Longrightarrow> K"
  shows "raises_only (lawful K) (read_token_user sys calls token required base)"
proof -
  have decode: "raises_only (lawful K) (decode_token_user_sid sys base buffer returned)"
    if "fill (replicate (unat required) 0) 0 data = Inr buffer" "\<not> required < returned" for data buffer returned
  proof (rule sane_lawful, rule decode_raises)
    have "length buffer = unat required" using that(1) by (auto simp: fill_def split: if_splits)
    moreover have "unat returned \<le> unat required" using that(2) by (simp add: not_less word_le_nat_alt)
    ultimately show "unat returned \<le> length buffer" by simp
  qed
  show ?thesis unfolding read_token_user_def
    by (intro raises_only_bindM_dep raises_only_guardM token_calls_lawful(2) [of calls sys K, OF assms] raises_only_liftM decode)
      (auto simp: run_iff fill_def split: if_splits dest!: token_calls_withinD(3) [OF assms(1)])
qed

lemma with_token_raises:
  assumes "token_calls_within calls" and "\<And>n. raises_only defined (sd_new_bytes sys n)" and "token_kindless sys calls \<Longrightarrow> K"
  shows "raises_only (lawful K) (with_token sys calls token)"
  unfolding with_token_def Let_def
  by (intro raises_only_bindM_dep raises_only_guardM raises_only_scopeM raises_only_liftM
      token_calls_lawful [of calls sys K, OF assms] read_token_user_raises [of calls sys K, OF assms])
    (auto simp: fill_def split: if_splits dest!: token_calls_withinD(3) [OF assms(1)])

lemma open_token_raises:
  assumes "token_calls_within calls" and "\<And>n. raises_only defined (sd_new_bytes sys n)" and "token_kindless sys calls \<Longrightarrow> K"
  shows "raises_only (lawful K) (open_token calls)"
  unfolding open_token_def
  using token_calls_lawful(1) [of calls sys K, OF assms] by (auto intro!: raises_intros split: prod.splits if_splits)

lemma read_sid_raises:
  assumes "\<And>c. calls = Some c \<Longrightarrow> token_calls_within c" and "\<And>n. raises_only defined (sd_new_bytes sys n)"
  shows "raises_only (known (\<exists>c. calls = Some c \<and> token_kindless sys c)) (read_current_process_sid sys calls)"
    (is "raises_only (known ?K) _")
  unfolding read_current_process_sid_def
proof (rule raises_only_catch_chain)
  have c: "raises_only (lawful (token_kindless sys c)) (open_token c)"
    "raises_only (lawful (token_kindless sys c)) (with_token sys c token)" if "calls = Some c" for c token
    using open_token_raises [of c sys] with_token_raises [of c sys] assms that by blast+
  show "raises_only (lawful ?K) (bindM (guardM (calls \<noteq> None)
        (stop Err_incomplete ''token-backend'' ''token backend is absent'' 0 False)) (\<lambda>_.
      bindM (open_token (the calls)) (\<lambda>token. held_token (the calls) token (with_token sys (the calls) token))))"
    by (rule raises_only_bindM_dep) (auto intro!: raises_intros c simp: run_iff held_token_def)
qed (auto intro!: raises_intros simp: lawful_def known_def token_failure_def observe_def observation_failure_of_def
    observation_failure_full_def)

subsection \<open>The text\<close>

definition canonical_sid_text :: "string \<Rightarrow> bool" where
  "canonical_sid_text s \<longleftrightarrow> 5 \<le> length s \<and> length s \<le> SECURITY_MAX_SID_STRING_CHARACTERS \<and> take 2 s = ''S-'' \<and>
     list_all (\<lambda>c. c \<in> set ''0123456789S-'') s"

lemma sid_char_cases:
  assumes "sid_char c"
  shows "char_of (unat c) \<in> set ''0123456789S-'' \<and> wide_char (char_of (unat c)) = c"
proof -
  have bound: "(48 \<le> unat c \<and> unat c \<le> 57) \<or> unat c = 83 \<or> unat c = 45"
    using assms by (auto simp: sid_char_def wide_char_def of_char_def word_le_nat_alt)
  have "wide_char (char_of (unat c)) = of_nat (of_char (char_of (unat c)) :: nat)"
    by (simp only: wide_char_def of_nat_of_char)
  also have "\<dots> = of_nat (unat c mod 256)" by (simp only: of_char_of)
  also have "unat c mod 256 = unat c" using bound by (intro mod_less) linarith
  finally have wide: "wide_char (char_of (unat c)) = c" by simp
  from bound have "unat c = 48 \<or> unat c = 49 \<or> unat c = 50 \<or> unat c = 51 \<or> unat c = 52 \<or> unat c = 53 \<or> unat c = 54 \<or>
    unat c = 55 \<or> unat c = 56 \<or> unat c = 57 \<or> unat c = 83 \<or> unat c = 45"
    by presburger
  then have "char_of (unat c) \<in> set ''0123456789S-''"
    by (elim disjE) (simp_all add: char_of_def bit_Suc_0_iff)
  with wide show ?thesis by simp
qed

lemma take_two: "2 \<le> length xs \<Longrightarrow> take 2 xs = [xs ! 0, xs ! 1]"
  by (cases xs; cases "tl xs") auto

lemma sid_text_ok:
  assumes "sid_text t = Inr s"
  shows "canonical_sid_text s \<and> wide s = takeWhile (\<lambda>c. c \<noteq> 0) t"
proof -
  let ?u = "takeWhile (\<lambda>c. c \<noteq> 0) t"
  from assms have u: "5 \<le> length ?u" "length ?u \<le> SECURITY_MAX_SID_STRING_CHARACTERS" "?u ! 0 = wide_char (CHR ''S'')"
      "?u ! 1 = wide_char (CHR ''-'')" "list_all sid_char ?u" "s = map (\<lambda>c. char_of (unat c)) ?u"
    by (auto simp: sid_text_def run_iff Let_def min_def not_less split: if_splits)
  have "wide s = map (\<lambda>c. wide_char (char_of (unat c))) ?u" by (simp add: u(6) wide_def comp_def)
  also have "\<dots> = map (\<lambda>c. c) ?u"
    using u(5) sid_char_cases by (intro map_cong refl) (auto simp: list_all_iff)
  finally have wide: "wide s = ?u" by simp
  have s: "s ! i = char_of (unat (?u ! i))" if "i < 2" for i using that u(1) by (simp add: u(6))
  have "take 2 s = [s ! 0, s ! 1]" using u(1) by (intro take_two) (simp add: u(6))
  also have "\<dots> = ''S-''"
    using s [of 0] s [of 1] u(3,4) by (simp add: wide_char_def char_of_def of_char_def bit_Suc_0_iff)
  finally have "take 2 s = ''S-''" .
  moreover have "list_all (\<lambda>c. c \<in> set ''0123456789S-'') s"
    using u(5) sid_char_cases unfolding u(6) by (auto simp: list_all_iff)
  ultimately have "canonical_sid_text s" using u(1,2) by (simp add: canonical_sid_text_def u(6))
  with wide show ?thesis by simp
qed

lemma convert_sid_ok:
  assumes "convert_sid sys raw w = (Inr s, w')"
  shows "\<exists>p t err w1. sd_convert_sid sys raw w = ((True, Some (p, t), err), w1) \<and> canonical_sid_text s \<and>
    wide s = takeWhile (\<lambda>c. c \<noteq> 0) t \<and> w' = sd_local_free sys p w1"
  using assms unfolding convert_sid_def local_sid_text_def
  by (auto simp: run_iff sysM_ok dest!: sid_text_ok split: option.splits)

text \<open>The SID that a successful read converted: where it lies in the returned bytes, and its checks.\<close>

definition sid_in_buffer :: "'w sid_system \<Rightarrow> u64 \<Rightarrow> bytes \<Rightarrow> u32 \<Rightarrow> bytes \<Rightarrow> bool" where
  "sid_in_buffer sys base buffer returned raw \<longleftrightarrow>
     (\<exists>sid_address off. load_token_user buffer = Some sid_address \<and> off = unat (sid_address - base) \<and> base \<le> sid_address \<and>
        sizeof_token_user \<le> off \<and> off + length raw \<le> unat returned \<and> raw = take (length raw) (drop off buffer) \<and>
        raw ! 0 = SID_REVISION \<and> length raw = min_sid_bytes + 4 * unat (raw ! 1) \<and> unat (raw ! 1) \<le> SID_MAX_SUB_AUTHORITIES \<and>
        sd_is_valid_sid sys raw \<and> unat (sd_get_length_sid sys raw) = length raw)"

lemma load_byte_ok: "load_byte buffer off = Some b \<longleftrightarrow> off < length buffer \<and> b = buffer ! off"
  by (cases "off < length buffer") (auto simp: load_byte_defined, auto simp: load_byte_def load_def)

lemma or_undefined_ok [run_iff]: "or_undefined r = Inr x \<longleftrightarrow> r = Some x"
  by (auto simp: or_undefined_def split: option.splits)

lemma decode_ok:
  assumes "decode_token_user_sid sys base buffer returned w = (Inr s, w')" and "unat returned \<le> length buffer"
  shows "\<exists>raw. sid_in_buffer sys base buffer returned raw \<and> convert_sid sys raw w = (Inr s, w')"
proof -
  from assms(1) obtain sid_address count raw where *: "\<not> unat returned < sizeof_token_user + min_sid_bytes"
    "load_token_user buffer = Some sid_address" "base \<le> sid_address" "sizeof_token_user \<le> unat (sid_address - base)"
    "unat (sid_address - base) \<le> unat returned - min_sid_bytes"
    "load_byte buffer (unat (sid_address - base)) = Some SID_REVISION"
    "load_byte buffer (unat (sid_address - base) + 1) = Some count" "unat count \<le> SID_MAX_SUB_AUTHORITIES"
    "min_sid_bytes + unat count * 4 \<le> unat returned - unat (sid_address - base)"
    "load buffer (unat (sid_address - base)) (min_sid_bytes + unat count * 4) = Some raw"
    "sd_is_valid_sid sys raw" "unat (sd_get_length_sid sys raw) = min_sid_bytes + unat count * 4"
    "convert_sid sys raw w = (Inr s, w')"
    unfolding decode_token_user_sid_def Let_def by (auto simp: run_iff not_less)
  let ?off = "unat (sid_address - base)"
  have raw: "length raw = min_sid_bytes + unat count * 4" "raw = take (length raw) (drop ?off buffer)"
    using *(10) by (auto simp: load_ok)
  have "raw ! 0 = buffer ! ?off" "raw ! 1 = buffer ! (?off + 1)"
    using *(6,7) raw(1) by (subst raw(2), simp add: load_byte_ok min_sid_bytes_def)+
  with *(6,7) have "raw ! 0 = SID_REVISION" "raw ! 1 = count" by (simp_all add: load_byte_ok)
  with * raw have "sid_in_buffer sys base buffer returned raw"
    unfolding sid_in_buffer_def by (intro exI [of _ sid_address] exI [of _ ?off]) (auto simp: min_sid_bytes_def sizeof_token_user_def)
  with *(13) show ?thesis by blast
qed

text \<open>The run of a successful read, call by call: the token, the sizing query, the buffer of the required
  size at \<open>base\<close>, the second query with the bytes it left in that buffer, the SID inside the bytes it
  returned, its conversion, and the three releases in order.\<close>

definition sid_run ::
  "'w sid_system \<Rightarrow> 'w token_sid_native_calls \<Rightarrow> 'w \<Rightarrow> string \<Rightarrow> 'w \<Rightarrow> bool"
where
  "sid_run sys calls w s w' \<longleftrightarrow>
     (\<exists>token err w1 q1 w2 base w3 q2 w4 buffer raw p t err' w5.
        tk_open_current_process_token calls TOKEN_QUERY w = (Inr (token, err), w1) \<and> valid_handle token \<and>
        tk_query_token_user calls token None 0 w1 = (Inr q1, w2) \<and>
        unat (tq_returned_length q1) \<le> max_token_user_bytes \<and>
        sd_new_bytes sys (unat (tq_returned_length q1)) w2 = (Inr base, w3) \<and>
        tk_query_token_user calls token (Some base) (tq_returned_length q1) w3 = (Inr q2, w4) \<and> tq_success q2 \<and>
        fill (replicate (unat (tq_returned_length q1)) 0) 0 (tq_written q2) = Inr buffer \<and>
        tq_returned_length q2 \<le> tq_returned_length q1 \<and>
        sid_in_buffer sys base buffer (tq_returned_length q2) raw \<and>
        sd_convert_sid sys raw w4 = ((True, Some (p, t), err'), w5) \<and> wide s = takeWhile (\<lambda>c. c \<noteq> 0) t \<and>
        w' = tk_close calls token (sd_delete_bytes sys base (sd_local_free sys p w5)))"

lemma read_token_user_ok:
  assumes "read_token_user sys calls token required base w = (Inr s, w')"
  shows "\<exists>q w1 buffer raw. tk_query_token_user calls token (Some base) required w = (Inr q, w1) \<and> tq_success q \<and>
    fill (replicate (unat required) 0) 0 (tq_written q) = Inr buffer \<and> tq_returned_length q \<le> required \<and>
    sid_in_buffer sys base buffer (tq_returned_length q) raw \<and> convert_sid sys raw w1 = (Inr s, w')"
proof -
  from assms obtain q w1 buffer where q: "tk_query_token_user calls token (Some base) required w = (Inr q, w1)" "tq_success q"
    and buffer: "fill (replicate (unat required) 0) 0 (tq_written q) = Inr buffer"
    and bound: "\<not> required < tq_returned_length q"
    and decode: "decode_token_user_sid sys base buffer (tq_returned_length q) w1 = (Inr s, w')"
    unfolding read_token_user_def by (auto simp: run_iff)
  have "length buffer = unat required" using buffer by (auto simp: fill_def split: if_splits)
  then have "unat (tq_returned_length q) \<le> length buffer" using bound by (simp add: not_less word_le_nat_alt)
  from decode_ok [OF decode this] q buffer bound show ?thesis by (auto simp: not_less)
qed

lemma read_sid_ok:
  assumes "read_current_process_sid sys calls w = (Inr s, w')"
  shows "canonical_sid_text s \<and> (\<exists>c. calls = Some c \<and> sid_run sys c w s w')"
proof -
  from assms obtain c token err w1 q1 w2 base w3 w4 where c: "calls = Some c"
    and token: "tk_open_current_process_token c TOKEN_QUERY w = (Inr (token, err), w1)" "valid_handle token"
    and sizing: "tk_query_token_user c token None 0 w1 = (Inr q1, w2)" "unat (tq_returned_length q1) \<le> max_token_user_bytes"
    and new: "sd_new_bytes sys (unat (tq_returned_length q1)) w2 = (Inr base, w3)"
    and read: "read_token_user sys c token (tq_returned_length q1) base w3 = (Inr s, w4)"
    and w': "w' = tk_close c token (sd_delete_bytes sys base w4)"
    unfolding read_current_process_sid_def held_token_def with_token_def open_token_def Let_def
    by (auto simp: run_iff not_less valid_handle_def)
  from read_token_user_ok [OF read] obtain q2 w5 buffer raw where
    q: "tk_query_token_user c token (Some base) (tq_returned_length q1) w3 = (Inr q2, w5)" "tq_success q2"
      "fill (replicate (unat (tq_returned_length q1)) 0) 0 (tq_written q2) = Inr buffer"
      "tq_returned_length q2 \<le> tq_returned_length q1" "sid_in_buffer sys base buffer (tq_returned_length q2) raw"
      "convert_sid sys raw w5 = (Inr s, w4)" by blast
  from convert_sid_ok [OF q(6)] obtain p t err' w6 where
    t: "sd_convert_sid sys raw w5 = ((True, Some (p, t), err'), w6)" "canonical_sid_text s"
      "wide s = takeWhile (\<lambda>c. c \<noteq> 0) t" "w4 = sd_local_free sys p w6" by blast
  have "sid_run sys c w s w'"
    unfolding sid_run_def using token sizing new q t w' by blast
  with c t(2) show ?thesis by blast
qed

text \<open>\<^bold>\<open>C38.\<close> Every outcome of the token port: over calls that raise any C++ exception but never write past a
  buffer, the port never reads outside its buffer and every failure is an observation failure, of a real
  kind unless a call or the allocation can itself raise one of kind \<^verbatim>\<open>none\<close>.  A text it returns consists of
  \<^verbatim>\<open>S-\<close> followed by digits, dashes and S, at least 5 and at most 187 characters long, and comes from one run
  of the calls: the token opened for query, the sizing query, a buffer of the size it named, at most 84
  bytes, the second query into that buffer, a SID that lies wholly inside the bytes this query reported
  and passed the header checks and the validation of Windows, and the system's conversion of that SID;
  the text, the buffer and the token are then released.\<close>

theorem token_sid_outcome:
  assumes "\<And>c. calls = Some c \<Longrightarrow> token_calls_within c" and "\<And>n. raises_only defined (sd_new_bytes sys n)"
  shows "case read_current_process_sid sys calls w of
      (Inl e, w') \<Rightarrow> \<exists>f. e = Observation f \<and>
        (f_kind f = Err_none \<longrightarrow> (\<exists>c. calls = Some c \<and> token_kindless sys c))
    | (Inr s, w') \<Rightarrow> canonical_sid_text s \<and> (\<exists>c. calls = Some c \<and> sid_run sys c w s w')"
proof (cases "read_current_process_sid sys calls w")
  case (Pair r w')
  then show ?thesis
    using raises_onlyD [OF read_sid_raises [of calls sys, OF assms]] read_sid_ok [of sys calls w _ w']
    by (cases r) (auto simp: known_def)
qed

section \<open>The token is closed\<close>

text \<open>The calls and the system with a log of the handle operations.\<close>

definition logged_token_calls :: "'w token_sid_native_calls \<Rightarrow> (handle_event list \<times> 'w) token_sid_native_calls" where
  "logged_token_calls calls = \<lparr>
     tk_open_current_process_token = (\<lambda>access.
        logged [] (\<lambda>(h, err). [Opened h]) (tk_open_current_process_token calls access)),
     tk_query_token_user = (\<lambda>token buffer capacity.
        logged [Used token] (\<lambda>_. []) (tk_query_token_user calls token buffer capacity)),
     tk_close = (\<lambda>h (log, w). (log @ [Closed h], tk_close calls h w))\<rparr>"

definition quiet :: "('w \<Rightarrow> 'w) \<Rightarrow> 'l \<times> 'w \<Rightarrow> 'l \<times> 'w" where
  "quiet f = (\<lambda>(l, w). (l, f w))"

definition logged_sid_system :: "'w sid_system \<Rightarrow> (handle_event list \<times> 'w) sid_system" where
  "logged_sid_system sys = \<lparr>
     sd_new_bytes = (\<lambda>n. outerM (sd_new_bytes sys n)),
     sd_delete_bytes = (\<lambda>p. quiet (sd_delete_bytes sys p)),
     sd_is_valid_sid = sd_is_valid_sid sys, sd_get_length_sid = sd_get_length_sid sys,
     sd_convert_sid = (\<lambda>raw (log, w). case sd_convert_sid sys raw w of (r, w') \<Rightarrow> (r, (log, w'))),
     sd_local_free = (\<lambda>p. quiet (sd_local_free sys p)),
     sd_open_process_token = (\<lambda>access (log, w). case sd_open_process_token sys access w of (r, w') \<Rightarrow> (r, (log, w'))),
     sd_get_token_information = (\<lambda>h p n (log, w). case sd_get_token_information sys h p n w of (r, w') \<Rightarrow> (r, (log, w'))),
     sd_close_handle = (\<lambda>h. quiet (sd_close_handle sys h))\<rparr>"

text \<open>Inside the scope of the token the log shows it as the only open handle.\<close>

abbreviation token_open :: "handle \<Rightarrow> handle_event list \<times> 'w \<Rightarrow> bool" where
  "token_open token \<equiv> \<lambda>s. log_holds [token] (fst s)"

lemma preserves_scopeM [preserves_intros]:
  "preserves I m \<Longrightarrow> (\<And>s. I s \<Longrightarrow> I (d s)) \<Longrightarrow> preserves I (scopeM m d)"
  by (rule preservesI) (auto simp: scopeM_def split: prod.splits dest: preservesD)

lemma token_open_query [preserves_intros]:
  "preserves (token_open token) (tk_query_token_user (logged_token_calls calls) token buffer capacity)"
  by (rule preservesI)
    (auto simp: logged_token_calls_def logged_def intro!: log_holds_used split: prod.splits sum.splits)

lemma quiet_fst [simp]: "fst (quiet f s) = fst s"
  by (simp add: quiet_def split: prod.splits)

lemma convert_sid_quiet [preserves_intros]: "preserves (\<lambda>s. I (fst s)) (convert_sid (logged_sid_system sys) raw)"
  unfolding convert_sid_def local_sid_text_def
proof (rule preserves_bindM)
  show "preserves (\<lambda>s. I (fst s)) (sysM (sd_convert_sid (logged_sid_system sys) raw))"
    by (rule preservesI) (auto simp: sysM_def logged_sid_system_def split: prod.splits)
qed (auto intro!: preserves_intros simp: logged_sid_system_def split: prod.splits option.splits)

lemma decode_quiet [preserves_intros]:
  "preserves (\<lambda>s. I (fst s)) (decode_token_user_sid (logged_sid_system sys) base buffer returned)"
  unfolding decode_token_user_sid_def Let_def by (auto intro!: preserves_intros)

lemma logged_sid_system_sel [simp]:
  "sd_new_bytes (logged_sid_system sys) n = outerM (sd_new_bytes sys n)"
  "sd_delete_bytes (logged_sid_system sys) p = quiet (sd_delete_bytes sys p)"
  by (simp_all add: logged_sid_system_def)

lemma with_token_open: "preserves (token_open token) (with_token (logged_sid_system sys) (logged_token_calls calls) token)"
  unfolding with_token_def read_token_user_def Let_def
  by (auto intro!: preserves_intros)

lemma open_token_holds:
  "triple (\<lambda>s. log_holds [] (fst s)) (open_token (logged_token_calls calls)) token_open (\<lambda>s. log_holds [] (fst s))"
  unfolding open_token_def
proof (rule triple_bindM)
  show "triple (\<lambda>s. log_holds [] (fst s)) (tk_open_current_process_token (logged_token_calls calls) TOKEN_QUERY)
      (\<lambda>(h, err) s. if valid_handle h then token_open h s else log_holds [] (fst s)) (\<lambda>s. log_holds [] (fst s))"
    by (rule tripleI) (auto simp: logged_token_calls_def logged_def dest: log_holds_opened log_holds_invalid
        split: prod.splits sum.splits)
qed (rule tripleI; auto simp: run_iff raise_iff valid_handle_def split: if_splits)

lemma logged_token_close: "tk_close (logged_token_calls calls) h s = (fst s @ [Closed h], tk_close calls h (snd s))"
  by (simp add: logged_token_calls_def split: prod.splits)

lemma read_sid_holds:
  "preserves (\<lambda>s. log_holds [] (fst s))
     (read_current_process_sid (logged_sid_system sys) (map_option logged_token_calls calls))"
proof (cases calls)
  case None
  then show ?thesis unfolding read_current_process_sid_def catch_chain_def
    by (auto intro!: preserves_intros preserves_bindM_dep simp: run_iff split: exn.splits)
next
  case (Some c)
  have scope: "triple (token_open token) (held_token (logged_token_calls c) token
      (with_token (logged_sid_system sys) (logged_token_calls c) token)) (\<lambda>_ s. log_holds [] (fst s)) (\<lambda>s. log_holds [] (fst s))" for token
    by (rule tripleI)
      (auto simp: held_token_def run_iff raise_iff logged_token_close dest!: preservesD [OF with_token_open]
        intro!: log_holds_closed [of "[]", simplified])
  show ?thesis unfolding read_current_process_sid_def catch_chain_def Some
    by (rule preserves_catchM, unfold preserves_triple option.map option.sel,
        rule triple_bindM [OF _ triple_bindM [OF open_token_holds scope]]) (auto intro!: triple_intros split: exn.splits)
qed

text \<open>\<^bold>\<open>C39.\<close> The port leaks no token: whatever the calls and the system answer or throw, a token that was opened
  is used only while it is open and has been closed exactly once when the port returns or throws.\<close>

theorem token_closed_once:
  assumes "read_current_process_sid (logged_sid_system sys) (map_option logged_token_calls calls) ([], w) = (r, (log, w'))"
  shows "log_holds [] log \<and> (\<forall>h. valid_handle h \<longrightarrow> closed_count h log = opened_count h log)"
  using preservesD [OF read_sid_holds assms] closed_as_opened by simp

section \<open>A sample system\<close>

text \<open>A system whose token belongs to a SID with one subauthority that converts to the given text.\<close>

definition sample_sid :: bytes where
  "sample_sid = [1, 1, 0, 0, 0, 0, 0, 5, 18, 0, 0, 0]"

definition sample_sid_system :: "string \<Rightarrow> 'w sid_system" where
  "sample_sid_system text = \<lparr>sd_new_bytes = (\<lambda>n. returnM 0x1000), sd_delete_bytes = (\<lambda>p w. w),
     sd_is_valid_sid = (\<lambda>raw. True), sd_get_length_sid = (\<lambda>raw. of_nat (length raw)),
     sd_convert_sid = (\<lambda>raw w. ((True, Some (0x2000, wide text @ [0]), 0), w)), sd_local_free = (\<lambda>p w. w),
     sd_open_process_token = (\<lambda>access w. (Inr 40, w)),
     sd_get_token_information = (\<lambda>token buffer capacity w.
       (case buffer of None \<Rightarrow> (False, 28, [], ERROR_INSUFFICIENT_BUFFER)
        | Some p \<Rightarrow> (if capacity < 28 then (False, 28, [], ERROR_INSUFFICIENT_BUFFER)
                    else (True, 28, le32 (ucast p + 16) @ replicate 12 0 @ sample_sid, 0)), w)),
     sd_close_handle = (\<lambda>h w. w)\<rparr>"

lemma sample_token_within: "token_calls_within (system_token_sid_calls (sample_sid_system text))"
  unfolding token_calls_within_def system_token_sid_calls_def sample_sid_system_def
  by (auto intro!: raises_intros raises_only_sysM split: option.splits sum.splits
      simp: run_iff sysM_ok le32_def sample_sid_def word_less_nat_alt split: if_splits)

definition sample_token_user :: bytes where
  "sample_token_user = le32 0x1010 @ replicate 12 0 @ sample_sid"

lemma sample_token_user_value: "sample_token_user = [16, 16, 0, 0, 0, 0, 0, 0, 0, 0, 0, 0, 0, 0, 0, 0, 1, 1, 0, 0, 0, 0, 0, 5, 18, 0, 0, 0]"
  by code_simp

lemma sample_text:
  "sid_text (wide ''S-1-5-18'' @ [0]) = Inr ''S-1-5-18''" "sid_text (wide ''S-1-5-2'' @ [0]) = Inr ''S-1-5-2''"
  by code_simp+

lemma sample_address: "load_token_user sample_token_user = Some 0x1010"
  by code_simp

lemma sample_decode:
  assumes "sid_text (wide text @ [0]) = Inr text"
  shows "decode_token_user_sid (sample_sid_system text) 0x1000 sample_token_user 28 w = (Inr text, w)"
  using assms unfolding decode_token_user_sid_def sample_address
  by (simp add: bindM_def scopeM_def run_simps convert_sid_def local_sid_text_def sysM_def or_undefined_def sizeof_token_user_def min_sid_bytes_def
     max_token_user_bytes_def SID_REVISION_def SID_MAX_SUB_AUTHORITIES_def sample_sid_system_def load_byte_defined load_defined
     sample_token_user_value)

lemma sample_fill: "fill (replicate 28 0) 0 (le32 0x1010 @ replicate 12 0 @ sample_sid) = Inr sample_token_user"
  by (simp add: fill_def sample_token_user_def le32_def sample_sid_def)

lemma sample_read_sid:
  assumes "sid_text (wide text @ [0]) = Inr text"
  shows "read_current_process_sid (sample_sid_system text) (Some (system_token_sid_calls (sample_sid_system text))) w = (Inr text, w)"
  unfolding read_current_process_sid_def catch_chain_def
  by (simp add: catchM_def bindM_def scopeM_def run_simps open_token_def held_token_def with_token_def read_token_user_def Let_def
      system_token_sid_calls_def sysM_def sample_fill sample_decode [OF assms, unfolded sample_sid_system_def] sizeof_token_user_def min_sid_bytes_def fill_def [of "[]"]
     max_token_user_bytes_def null_handle_def invalid_handle_value_def ERROR_INSUFFICIENT_BUFFER_def sample_sid_system_def)

theorem token_sid_outcome_witness:
  "read_current_process_sid (sample_sid_system ''S-1-5-18'') (Some (system_token_sid_calls (sample_sid_system ''S-1-5-18''))) () = (Inr ''S-1-5-18'', ()) \<and>
   canonical_sid_text ''S-1-5-18'' \<and> sid_run (sample_sid_system ''S-1-5-18'') (system_token_sid_calls (sample_sid_system ''S-1-5-18'')) () ''S-1-5-18'' ()"
proof -
  have new: "raises_only defined (sd_new_bytes (sample_sid_system ''S-1-5-18'' :: unit sid_system) n)" for n
    by (simp add: sample_sid_system_def raises_intros)
  have within: "token_calls_within c" if "Some (system_token_sid_calls (sample_sid_system ''S-1-5-18'')) = Some c" for c :: "unit token_sid_native_calls"
    using that sample_token_within by auto
  show ?thesis using token_sid_outcome [where calls = "Some (system_token_sid_calls (sample_sid_system ''S-1-5-18''))", OF within new, where w = "()"] unfolding sample_read_sid [OF sample_text(1)] by auto
qed

theorem token_closed_once_witness:
  "\<exists>r log w'. read_current_process_sid (logged_sid_system (sample_sid_system ''S-1-5-18''))
      (map_option logged_token_calls (Some (system_token_sid_calls (sample_sid_system ''S-1-5-18'')))) ([], ()) = (r, (log, w')) \<and>
    closed_count 40 log = opened_count 40 log"
proof -
  obtain r log w' where run: "read_current_process_sid (logged_sid_system (sample_sid_system ''S-1-5-18''))
      (map_option logged_token_calls (Some (system_token_sid_calls (sample_sid_system ''S-1-5-18'')))) ([], ()) = (r, (log, w'))"
    by (metis surj_pair)
  from token_closed_once [OF run] run show ?thesis
    by (intro exI [of _ r] exI [of _ log] exI [of _ w']) (simp add: valid_handle_def null_handle_def invalid_handle_value_def)
qed

end
