(* ===== verification/Composition.thy ===== *)
theory Composition
  imports Authority_Binding P11_Custody Token_Sid
begin

text \<open>
  The controller composition (\<^verbatim>\<open>controller_authority_composition.hpp\<close> and \<^verbatim>\<open>.cpp\<close>): the SID of the current
  process is read first; then the internal reader is made from the P10 reader and the authenticated
  head port; then the accepted binder runs on it.  Each of the three steps has its own handlers, so
  the composition returns a result whatever its parts throw.

  The two ports are records of their one operation.  The allocations of \<^verbatim>\<open>std::make_unique\<close> and
  \<^verbatim>\<open>std::make_shared\<close> in the construction of the reader are the computation \<open>allocate\<close>, which may throw.
\<close>

section \<open>Ports and the internal reader\<close>

record 'w controller_sid_port =
  sp_read_current_process_sid :: "('w, string) cpp"

record 'w authenticated_head_port =
  ah_read_fixture_head :: "('w, string) cpp"

definition token_profile :: string where
  "token_profile = ''A2/current-process-token/SID''"

definition internal_protected_reader ::
  "(nat \<Rightarrow> bool) \<Rightarrow> 'w bcrypt \<Rightarrow> p10_reader_config \<Rightarrow> 'w protected_calls option \<Rightarrow> 'w authenticated_head_port \<Rightarrow>
   'w protected_authority_reader"
where
  "internal_protected_reader room bc config calls a3 = \<lparr>
     par_read_verified_p10 = read_verified_p10 room bc config calls,
     par_read_authenticated_fixture_head = ah_read_fixture_head a3\<rparr>"

definition token_stop :: "fixture_case \<Rightarrow> observation_failure \<Rightarrow> authority_binding_result" where
  "token_stop selected_case failure = authority_result_init\<lparr>ar_evidence := authority_evidence_init\<lparr>
     ae_case_id := c_id selected_case, ae_error := f_kind failure, ae_object := f_object failure,
     ae_profile := f_profile failure, ae_step := f_step failure, ae_detail := f_message failure,
     ae_ntstatus := f_ntstatus failure, ae_has_ntstatus := f_has_ntstatus failure,
     ae_win32_error := f_win32_error failure, ae_has_win32_error := f_has_win32_error failure\<rparr>\<rparr>"

text \<open>The port of the production controller.\<close>

definition windows_controller_sid_port :: "'w sid_system \<Rightarrow> 'w token_sid_native_calls option \<Rightarrow> 'w controller_sid_port" where
  "windows_controller_sid_port sys calls = \<lparr>sp_read_current_process_sid = read_current_process_sid sys calls\<rparr>"

section \<open>The composition\<close>

text \<open>One step with its three handlers: \<open>Inl\<close> is the result that a handler returns from the function.\<close>

definition guarded_step ::
  "fixture_case \<Rightarrow> string \<Rightarrow> string \<Rightarrow> string \<Rightarrow> string \<Rightarrow> ('w, 'a) cpp \<Rightarrow> ('w, authority_binding_result + 'a) cpp"
where
  "guarded_step selected_case ob profile step foreign m = catch_chain
     (bindM m (\<lambda>x. returnM (Inr x)))
     (\<lambda>failure. returnM (Inl (token_stop selected_case failure)))
     (\<lambda>what. returnM (Inl (token_stop selected_case (observation_failure_of Err_incomplete ob profile step what))))
     (returnM (Inl (token_stop selected_case (observation_failure_of Err_incomplete ob profile step foreign))))"

definition bind_internal ::
  "'w bcrypt \<Rightarrow> 'w controller_sid_port \<Rightarrow> approved_authority_binding \<Rightarrow> fixture_case \<Rightarrow>
   ('w, 'w protected_authority_reader) cpp \<Rightarrow> ('w, authority_binding_result) cpp"
where
  "bind_internal bc token approved selected_case make_reader =
     bindM (guarded_step selected_case ''A2-token'' token_profile ''read-current-sid''
        ''non-standard C++ token-port exception'' (sp_read_current_process_sid token)) (\<lambda>r.
     case r of Inl stopped \<Rightarrow> returnM stopped
     | Inr sid_text_value \<Rightarrow>
     bindM (guarded_step selected_case ''P10'' p10_read_profile ''construct-reader''
        ''non-standard C++ reader construction exception'' make_reader) (\<lambda>r.
     case r of Inl stopped \<Rightarrow> returnM stopped
     | Inr reader \<Rightarrow>
     bindM (guarded_step selected_case ''P10/P11'' ''protected-authority-binding'' ''bind-protected-authority''
        ''unexpected non-standard C++ binder exception''
        (bind_protected_authority bc reader approved selected_case sid_text_value)) (\<lambda>r.
     case r of Inl stopped \<Rightarrow> returnM stopped | Inr result \<Rightarrow> returnM result)))"

text \<open>The production entry point, with the system backend of the P10 reader, and the synthetic one.\<close>

definition bind_controller_precomparison ::
  "(nat \<Rightarrow> bool) \<Rightarrow> 'w bcrypt \<Rightarrow> 'w win32 \<Rightarrow> text_calls \<Rightarrow> ('w, unit) cpp \<Rightarrow> 'w controller_sid_port \<Rightarrow>
   'w authenticated_head_port \<Rightarrow> p10_reader_config \<Rightarrow> approved_authority_binding \<Rightarrow> fixture_case \<Rightarrow>
   ('w, authority_binding_result) cpp"
where
  "bind_controller_precomparison room bc sys tc allocate token a3 trusted_g2_p10 approved selected_case =
     bind_internal bc token approved selected_case
       (bindM allocate (\<lambda>_. returnM (internal_protected_reader room bc trusted_g2_p10 (Some (system_p10_calls sys tc)) a3)))"

definition bind_controller_precomparison_seam ::
  "(nat \<Rightarrow> bool) \<Rightarrow> 'w bcrypt \<Rightarrow> ('w, unit) cpp \<Rightarrow> 'w controller_sid_port \<Rightarrow> 'w authenticated_head_port \<Rightarrow>
   p10_reader_config \<Rightarrow> 'w protected_calls option \<Rightarrow> approved_authority_binding \<Rightarrow> fixture_case \<Rightarrow>
   ('w, authority_binding_result) cpp"
where
  "bind_controller_precomparison_seam room bc allocate token a3 synthetic_p10 synthetic_calls approved selected_case =
     bind_internal bc token approved selected_case
       (bindM allocate (\<lambda>_. returnM (internal_protected_reader room bc synthetic_p10 synthetic_calls a3)))"

section \<open>The composition always returns\<close>

lemma token_stop_closed: "closed_unless K (token_stop sel f) \<longleftrightarrow> (f_kind f = Err_none \<longrightarrow> K)"
  by (auto simp: closed_unless_def token_stop_def authority_result_init_def authority_evidence_init_def)

lemma kind_of_incomplete [simp]: "f_kind (observation_failure_of k ob pr st msg) = k"
  by (simp add: observation_failure_of_def observation_failure_full_def)

text \<open>A guarded step never throws, and a handler's result is closed.\<close>

lemma guarded_step_total:
  assumes "raises_only defined m" and "kindless m \<Longrightarrow> K"
  obtains r w' where "guarded_step sel ob pr st foreign m w = (Inr r, w')"
    "case r of Inl stopped \<Rightarrow> closed_unless K stopped \<and> (\<exists>e. m w = (Inl e, w')) | Inr x \<Rightarrow> m w = (Inr x, w')"
proof (cases "m w")
  case (Pair x w')
  show ?thesis
  proof (cases x)
    case (Inl e)
    with Pair have "e \<noteq> Undefined" and "\<And>f. e = Observation f \<Longrightarrow> f_kind f = Err_none \<Longrightarrow> K"
      using raises_onlyD [OF assms(1)] assms(2) [OF kindlessI] by blast+
    with Pair Inl that show ?thesis
      by (cases e) (auto simp: guarded_step_def catch_chain_def catchM_def bindM_def returnM_def token_stop_closed)
  next
    case (Inr y)
    with Pair show ?thesis by (intro that [of "Inr y" w']) (simp_all add: guarded_step_def catch_chain_def catchM_def bindM_def returnM_def)
  qed
qed

text \<open>The whole: a result is ready only when the three steps ran in order.\<close>

definition bound_by ::
  "'w bcrypt \<Rightarrow> ('w, string) cpp \<Rightarrow> ('w, 'w protected_authority_reader) cpp \<Rightarrow> approved_authority_binding \<Rightarrow>
   fixture_case \<Rightarrow> authority_binding_result \<Rightarrow> 'w \<Rightarrow> 'w \<Rightarrow> bool"
where
  "bound_by bc read_sid make_reader approved sel r w w' \<longleftrightarrow> (\<exists>csid reader w1 w2.
     read_sid w = (Inr csid, w1) \<and> make_reader w1 = (Inr reader, w2) \<and>
     bind_protected_authority bc reader approved sel csid w2 = (Inr r, w'))"

lemma token_stop_not_ready: "\<not> ae_ready_for_snapshot (ar_evidence (token_stop sel f))"
  by (simp add: token_stop_def authority_result_init_def authority_evidence_init_def)

lemma guarded_step_ok:
  "guarded_step sel ob pr st foreign m w = (Inr r, w') \<longleftrightarrow>
     (case r of Inr x \<Rightarrow> m w = (Inr x, w')
      | Inl stopped \<Rightarrow> \<exists>e. m w = (Inl e, w') \<and> e \<noteq> Undefined \<and> stopped = token_stop sel (case e of
           Observation f \<Rightarrow> f | Std c msg \<Rightarrow> observation_failure_of Err_incomplete ob pr st msg
         | _ \<Rightarrow> observation_failure_of Err_incomplete ob pr st foreign))"
  unfolding guarded_step_def catch_chain_def catchM_ok
  by (cases "m w"; cases "fst (m w)") (auto simp: run_iff raise_iff split: sum.splits exn.splits)

lemma ready_step:
  assumes "bindM (guarded_step sel ob pr st foreign m) (\<lambda>r. case r of Inl stopped \<Rightarrow> returnM stopped | Inr x \<Rightarrow> f x) w = (Inr r, w')"
    and "ae_ready_for_snapshot (ar_evidence r)"
  obtains x w1 where "m w = (Inr x, w1)" "f x w1 = (Inr r, w')"
proof -
  from assms(1) obtain y w1 where y: "guarded_step sel ob pr st foreign m w = (Inr y, w1)"
    and rest: "(case y of Inl stopped \<Rightarrow> returnM stopped | Inr x \<Rightarrow> f x) w1 = (Inr r, w')"
    by (auto simp: run_iff)
  show ?thesis
  proof (cases y)
    case (Inl stopped)
    with y rest have "\<exists>g. r = token_stop sel g" by (auto simp: guarded_step_ok run_iff)
    with assms(2) token_stop_not_ready show ?thesis by auto
  next
    case (Inr x)
    with y rest that show ?thesis by (simp add: guarded_step_ok)
  qed
qed

lemma bind_internal_ready:
  assumes "bind_internal bc token approved sel make_reader w = (Inr r, w')" and ready: "ae_ready_for_snapshot (ar_evidence r)"
  shows "bound_by bc (sp_read_current_process_sid token) make_reader approved sel r w w'"
  using assms(1) unfolding bind_internal_def
  by (elim ready_step [OF _ ready]) (auto simp: bound_by_def run_iff)

lemma bind_internal_total:
  assumes sid: "raises_only defined (sp_read_current_process_sid token)" "kindless (sp_read_current_process_sid token) \<Longrightarrow> K"
    and make: "raises_only defined make_reader" "kindless make_reader \<Longrightarrow> K"
    and reader: "\<And>w reader w'. make_reader w = (Inr reader, w') \<Longrightarrow>
      raises_only defined (par_read_verified_p10 reader) \<and> (kindless (par_read_verified_p10 reader) \<longrightarrow> K) \<and>
      raises_only defined (par_read_authenticated_fixture_head reader) \<and>
      (kindless (par_read_authenticated_fixture_head reader) \<longrightarrow> K)"
  shows "\<exists>r w'. bind_internal bc token approved sel make_reader w = (Inr r, w') \<and> closed_unless K r \<and>
    (\<forall>e w1. sp_read_current_process_sid token w = (Inl e, w1) \<longrightarrow> w' = w1)"
proof -
  obtain r1 w1 where s1: "guarded_step sel ''A2-token'' token_profile ''read-current-sid''
        ''non-standard C++ token-port exception'' (sp_read_current_process_sid token) w = (Inr r1, w1)"
    and c1: "case r1 of Inl stopped \<Rightarrow> closed_unless K stopped \<and> (\<exists>e. sp_read_current_process_sid token w = (Inl e, w1))
      | Inr x \<Rightarrow> sp_read_current_process_sid token w = (Inr x, w1)"
    by (rule guarded_step_total [where m = "sp_read_current_process_sid token" and K = K, OF sid])
  show ?thesis
  proof (cases r1)
    case (Inl stopped)
    with s1 c1 show ?thesis by (intro exI [of _ stopped] exI [of _ w1]) (auto simp: bind_internal_def bindM_def returnM_def)
  next
    case (Inr csid)
    obtain r2 w2 where s2: "guarded_step sel ''P10'' p10_read_profile ''construct-reader''
          ''non-standard C++ reader construction exception'' make_reader w1 = (Inr r2, w2)"
      and c2: "case r2 of Inl stopped \<Rightarrow> closed_unless K stopped \<and> (\<exists>e. make_reader w1 = (Inl e, w2))
        | Inr x \<Rightarrow> make_reader w1 = (Inr x, w2)"
      by (rule guarded_step_total [where m = make_reader and K = K, OF make])
    have start: "\<not> (\<exists>e w1. sp_read_current_process_sid token w = (Inl e, w1))" using c1 Inr by simp
    show ?thesis
    proof (cases r2)
      case (Inl stopped)
      with s1 Inr s2 c2 start show ?thesis
        by (intro exI [of _ stopped] exI [of _ w2]) (auto simp: bind_internal_def bindM_def returnM_def)
    next
      case reader2: (Inr rd)
      with c2 have "make_reader w1 = (Inr rd, w2)" by simp
      from binding_total [of rd K bc approved sel csid w2] reader [OF this] obtain r w3
        where "bind_protected_authority bc rd approved sel csid w2 = (Inr r, w3)" "closed_unless K r" by blast
      with s1 Inr s2 reader2 start show ?thesis
        by (intro exI [of _ r] exI [of _ w3])
          (auto simp: bind_internal_def bindM_def returnM_def guarded_step_def [of _ "''P10/P11''"] catch_chain_def catchM_def)
    qed
  qed
qed

lemma p10_reader_sane:
  "fills_within sys \<Longrightarrow> raises_only typed_exn (read_verified_p10 room bc config (Some (system_p10_calls sys tc)))"
  by (rule p10.read_typed) (rule system_p10_sane)

text \<open>\<^bold>\<open>C8.\<close> The composition fails closed: over a system that never writes past a buffer it is given, and whatever
  the two ports and the allocation of the reader throw short of undefined behaviour, standard exceptions
  or not, the production composition returns a result and never throws; a comparison input is present
  exactly when the result is ready, and a ready result records no error.  A result that is not ready
  records an error, unless a port or the allocation can raise an \<^verbatim>\<open>ObservationFailure\<close> whose kind is \<^verbatim>\<open>none\<close>,
  which the handlers copy; the P10 reader raises none.  When the SID cannot be read nothing else is
  touched: the world is left as the token port left it.\<close>

theorem composition_fail_closed:
  assumes "fills_within sys" and "raises_only defined (sp_read_current_process_sid token)"
    and "raises_only defined (ah_read_fixture_head a3)" and "raises_only defined allocate"
  shows "\<exists>r w'. bind_controller_precomparison room bc sys tc allocate token a3 config approved sel w = (Inr r, w') \<and>
    (ae_ready_for_snapshot (ar_evidence r) \<longleftrightarrow> ar_comparison_input r \<noteq> None) \<and>
    (ae_ready_for_snapshot (ar_evidence r) \<longrightarrow> ae_error (ar_evidence r) = Err_none) \<and>
    (\<not> ae_ready_for_snapshot (ar_evidence r) \<and> ae_error (ar_evidence r) = Err_none \<longrightarrow>
      kindless (sp_read_current_process_sid token) \<or> kindless (ah_read_fixture_head a3) \<or> kindless allocate) \<and>
    (\<forall>e w1. sp_read_current_process_sid token w = (Inl e, w1) \<longrightarrow> w' = w1)"
proof -
  let ?K = "kindless (sp_read_current_process_sid token) \<or> kindless (ah_read_fixture_head a3) \<or> kindless allocate"
  let ?make = "bindM allocate (\<lambda>_. returnM (internal_protected_reader room bc config (Some (system_p10_calls sys tc)) a3))"
  let ?p10 = "read_verified_p10 room bc config (Some (system_p10_calls sys tc))"
  have make: "raises_only defined ?make" "kindless ?make \<Longrightarrow> kindless allocate"
    using assms(4) by (auto intro!: raises_intros simp: kindless_def raise_iff)
  have p10: "raises_only defined ?p10" "\<not> kindless ?p10"
    using p10_reader_sane [OF assms(1), of room bc config tc] by (auto simp: raises_only_def typed_exn_def kindless_def)
  show ?thesis
    unfolding bind_controller_precomparison_def conj_assoc [symmetric]
    using bind_internal_total [where K = ?K and make_reader = ?make, OF assms(2) _ make(1)] make(2) p10 assms(3)
    by (auto simp: closed_unless_def internal_protected_reader_def run_iff)
qed

text \<open>\<^bold>\<open>C7.\<close> What a ready result rests on: the token port converted a SID of the current process, the approved
  controller; the P10 reader returned the sealed canonical text through the sealed chain of handles, which
  is the rendering for the approved SIDs and images with the approved digest; the authenticated head is
  the rendering of the selected frozen case with the approved digest; and the comparison input is exactly
  that.  The production entry point is this one over the system backend.\<close>

theorem composition_sound:
  assumes "bcrypt_computes bc H"
    and "bind_controller_precomparison_seam room bc allocate (windows_controller_sid_port sidsys tokens) a3 config calls
      approved sel w = (Inr r, w')"
    and "ae_ready_for_snapshot (ar_evidence r)"
  shows "\<exists>csid p11 w1. read_current_process_sid sidsys tokens w = (Inr csid, w1) \<and> canonical_sid_text csid \<and>
    authority_bound H approved sel csid (pr_canonical_bytes config) p11 \<and> r = bound_result approved sel p11 \<and>
    pr_sha256 config = ap_rendered_p10_sha256 approved \<and> sound_chain p10_site (p10_chain config) \<and>
    (\<exists>c w2 w3. calls = Some c \<and>
      has_seen p10_site bc c (p10_chain config) (pr_canonical_bytes config) (pr_sha256 config) w2 w3) \<and>
    (\<exists>w4 w5. ah_read_fixture_head a3 w4 = (Inr p11, w5))"
proof -
  let ?reader = "internal_protected_reader room bc config calls a3"
  from bind_internal_ready [OF assms(2) [unfolded bind_controller_precomparison_seam_def] assms(3)] obtain csid w1 w2
    where sid: "read_current_process_sid sidsys tokens w = (Inr csid, w1)"
      and bind: "bind_protected_authority bc ?reader approved sel csid w2 = (Inr r, w')"
    by (auto simp: bound_by_def run_iff windows_controller_sid_port_def)
  from binding_sound [OF assms(1) bind] assms(3) obtain p10 p11 w3 w4 w5 w6 where
    b: "authority_bound H approved sel csid p10 p11" "r = bound_result approved sel p11"
      "read_verified_p10 room bc config calls w3 = (Inr p10, w4)" "ah_read_fixture_head a3 w5 = (Inr p11, w6)"
    by (auto simp: internal_protected_reader_def)
  from p10_sealed [OF assms(1) b(3)] obtain c w7 where p: "calls = Some c" "p10 = pr_canonical_bytes config"
    "pr_sha256 config = hex_bytes (H p10)" "sound_chain p10_site (p10_chain config)"
    "has_seen p10_site bc c (p10_chain config) p10 (pr_sha256 config) w7 w4" by blast
  from read_sid_ok [OF sid] have "canonical_sid_text csid" ..
  moreover from b(1) p(3) have "pr_sha256 config = ap_rendered_p10_sha256 approved" by (simp add: authority_bound_def)
  ultimately show ?thesis using sid b p by blast
qed

text \<open>The production entry point is the synthetic one over the system backend.\<close>

lemma production_is_seam:
  "bind_controller_precomparison room bc sys tc allocate token a3 config approved sel =
   bind_controller_precomparison_seam room bc allocate token a3 config (Some (system_p10_calls sys tc)) approved sel"
  by (simp add: bind_controller_precomparison_def bind_controller_precomparison_seam_def)

section \<open>Witnesses\<close>

definition sample_port :: "'w controller_sid_port" where
  "sample_port = windows_controller_sid_port (sample_sid_system ''S-1-5-2'')
     (Some (system_token_sid_calls (sample_sid_system ''S-1-5-2'')))"

definition failing_port :: "'w controller_sid_port" where
  "failing_port = \<lparr>sp_read_current_process_sid = throwM Foreign\<rparr>"

definition sample_a3 :: "string \<Rightarrow> 'w authenticated_head_port" where
  "sample_a3 text = \<lparr>ah_read_fixture_head = returnM text\<rparr>"

theorem composition_fail_closed_witness:
  "\<exists>r w'. bind_controller_precomparison (\<lambda>n. True) failing_bcrypt (sample_win32 ''x'') ascii_text_calls (returnM ())
      failing_port (sample_a3 []) (sample_p10_config ''x'') sample_approved sample_case 5 = (Inr r, w') \<and> w' = 5"
proof -
  have p: "raises_only defined (sp_read_current_process_sid (failing_port :: nat controller_sid_port))"
    by (simp add: failing_port_def raises_only_def throwM_def)
  have a: "raises_only defined (ah_read_fixture_head (sample_a3 [] :: nat authenticated_head_port))"
    "raises_only defined (returnM () :: (nat, unit) cpp)"
    by (simp_all add: sample_a3_def raises_intros)
  have "sp_read_current_process_sid failing_port (5 :: nat) = (Inl Foreign, 5)"
    by (simp add: failing_port_def throwM_def)
  then show ?thesis
    using composition_fail_closed [OF sample_win32_fills p a, where w = 5] by blast
qed

theorem composition_sound_witness:
  "\<exists>r w' p11. bind_controller_precomparison_seam (\<lambda>n. True) (bcrypt_of pad_digest) (returnM ()) sample_port (sample_a3 sample_head)
      (sample_p10_config sample_p10) (Some (sample_calls (sample_chain p10_site) sample_p10)) sample_approved sample_case [] =
      (Inr r, w') \<and> ae_ready_for_snapshot (ar_evidence r) \<and>
    authority_bound pad_digest sample_approved sample_case ''S-1-5-2'' sample_p10 p11 \<and> r = bound_result sample_approved sample_case p11"
proof -
  let ?calls = "Some (sample_calls (sample_chain p10_site) sample_p10)"
  let ?reader = "internal_protected_reader (\<lambda>n. True) (bcrypt_of pad_digest) (sample_p10_config sample_p10) ?calls (sample_a3 sample_head)"
  have p10: "returns (par_read_verified_p10 ?reader) sample_p10"
    unfolding internal_protected_reader_def
    using sample_p10_read [of "bcrypt_of pad_digest" sample_p10] available_bcrypt_of [of pad_digest] sample_p10_small sample_p10_length
    by (simp add: available_def max_p10_bytes_def sample_p10_def p10_text_def p10_pieces_def p10_text_0_def)
  have a3: "returns (par_read_authenticated_fixture_head ?reader) sample_head"
    by (simp add: internal_protected_reader_def sample_a3_def returns_returnM)
  obtain w' where b: "bind_protected_authority (bcrypt_of pad_digest) ?reader sample_approved sample_case ''S-1-5-2'' [] =
      (Inr (bound_result sample_approved sample_case sample_head), w')"
    using binding_completes [OF pad_digest_computes available_bcrypt_of sample_approvable _ sample_p10_small
      sample_head_rendered sample_head_small _ p10 a3] 
    by (auto simp: returns_def [of "bind_protected_authority _ _ _ _ _"] sample_approved_def sample_p10_def)
  have sid: "sp_read_current_process_sid sample_port w = (Inr ''S-1-5-2'', w)" for w
    using sample_read_sid [OF sample_text(2)] by (simp add: sample_port_def windows_controller_sid_port_def)
  have run: "bind_controller_precomparison_seam (\<lambda>n. True) (bcrypt_of pad_digest) (returnM ()) sample_port (sample_a3 sample_head)
      (sample_p10_config sample_p10) ?calls sample_approved sample_case [] =
      (Inr (bound_result sample_approved sample_case sample_head), w')"
    by (simp add: bind_controller_precomparison_seam_def bind_internal_def bindM_def returnM_def guarded_step_def catch_chain_def
        catchM_def sid b)
  have "ae_ready_for_snapshot (ar_evidence (bound_result sample_approved sample_case sample_head))"
    by (simp add: bound_result_def)
  moreover have "pr_canonical_bytes (sample_p10_config sample_p10) = sample_p10"
    by (simp add: sample_p10_config_def Let_def)
  ultimately show ?thesis
    using composition_sound [OF pad_digest_computes run [unfolded sample_port_def]] run
    by (auto simp: sample_read_sid [OF sample_text(2)])
qed

end
