(* ===== verification/Spec2Isabelle.thy ===== *)
theory Spec2Isabelle
  imports Snapshot_Order Head_Nonce Session_Handles Composition
begin

text \<open>
  The Stage A fixture of the repository (\<^verbatim>\<open>src/remediation/round37/stage_a_fixture/src\<close>), a C++ program for
  Windows.  A controller (A2) decides whether the mutable state of a worker is the one that a protected
  authority recorded.  It reads the SID of its own process token, reads the protected record P10 through
  a chain of held handles, obtains the protected head P11 from the process A3 over a small wire protocol,
  binds both to the approved values, and then takes a double snapshot of the state directory through
  held handles and classifies it: current, deleted, restored old, mismatch, or inconclusive.

  \<^bold>\<open>Parts and theories.\<close>
  \<^item> \<^verbatim>\<open>Cpp_Prelude\<close>: machine types, exceptions (\<^verbatim>\<open>ObservationFailure\<close>, standard, foreign), undefined
    behaviour as an outcome no handler catches, computations on a world, and the rules that invert
    runs (\<open>run_iff\<close>, \<open>raise_iff\<close>), bound exceptions (\<open>raises_intros\<close>) and show returns (\<open>returns_intros\<close>).
    \<^verbatim>\<open>Std_Text\<close>, \<^verbatim>\<open>Std_Map\<close>: the parts of \<^verbatim>\<open>std::string\<close> and \<^verbatim>\<open>std::map\<close> that the sources use; the locale of
    a sorted map is interpreted on association lists.
  \<^item> \<^verbatim>\<open>Contracts\<close> (\<^verbatim>\<open>contracts.hpp/.cpp\<close>): verdicts, evidence, SHA-256 through BCrypt with its handles, the mutable-set
    manifest and digest, the frozen cases, the writer result parser.  \<^verbatim>\<open>Rendering\<close>: the canonical P10
    and P11 texts and the SID scanner.
  \<^item> \<^verbatim>\<open>Head_Codec\<close>, \<^verbatim>\<open>Head_Nonce\<close> (\<^verbatim>\<open>read_fixture_head_codec\<close>, \<^verbatim>\<open>windows_read_fixture_head_nonce\<close>): the wire codec over
    byte buffers, with every access checked, and the nonce.
  \<^item> \<^verbatim>\<open>Snapshot\<close> (\<^verbatim>\<open>snapshot.hpp/.cpp\<close>): the comparison over an abstract source and session; \<^verbatim>\<open>Snapshot_Runs\<close> its
    complete runs; \<^verbatim>\<open>Snapshot_Order\<close> the order of its calls on a logged session.
  \<^item> \<^verbatim>\<open>Authority_Binding\<close> (\<^verbatim>\<open>authority_binding.hpp/.cpp\<close>): the binder of P10 and P11 to the approved record.
  \<^item> \<^verbatim>\<open>Windows_Types\<close>, \<^verbatim>\<open>Dir_Parser\<close>, \<^verbatim>\<open>System_Native\<close> (\<^verbatim>\<open>windows_snapshot.hpp/.cpp\<close>): structures, pure helpers, the
    decoder of a directory page, and the system backend \<^verbatim>\<open>SystemNativeCalls\<close> over a record of Win32 and
    NT calls.
  \<^item> \<^verbatim>\<open>Windows_Session\<close> (same files): \<^verbatim>\<open>WindowsSession\<close> and \<^verbatim>\<open>WindowsSnapshotSource\<close> over any \<^verbatim>\<open>NativeCalls\<close>.
    \<^verbatim>\<open>Session_Custody\<close>: the invariant of a session over its reachable states.  \<^verbatim>\<open>Session_Handles\<close>: its handles.
  \<^item> \<^verbatim>\<open>Handle_Log\<close>: triples, invariants, and the log of handle operations with its replay.
    \<^verbatim>\<open>Protected_Read\<close>: what the two protected readers share (node checks, held handles, the double read),
    as a contract in the locales \<open>sealed_reader\<close> and \<open>logged_sealed_reader\<close>.  \<^verbatim>\<open>P10_Reader\<close> and
    \<^verbatim>\<open>P11_Custody\<close> (\<^verbatim>\<open>windows_p10_reader\<close>, \<^verbatim>\<open>windows_p11_custody\<close>) interpret them.  \<^verbatim>\<open>Protected_Samples\<close>: a sample chain.
  \<^item> \<^verbatim>\<open>Token_Sid\<close> (\<^verbatim>\<open>windows_controller_token_sid\<close>): the SID of the process token.  \<^verbatim>\<open>Composition\<close>
    (\<^verbatim>\<open>controller_authority_composition\<close>): token, readers and binder put together.

  \<^bold>\<open>Correspondence.\<close>  A struct is a record, an enum a datatype, a virtual interface a record of its operations,
  an injected or native call a computation \<open>'w \<Rightarrow> (exn + 'a) \<times> 'w\<close> on an arbitrary world.  Statements are
  chained by \<open>bindM\<close>, \<^verbatim>\<open>if (...) throw\<close> is \<open>guardM\<close>, the handler chains are \<open>catch_std\<close> and \<open>catch_chain\<close>, a
  destructor is \<open>scopeM\<close> or an explicit fold over the held handles, and an object that handlers still see is
  a local component of the world.  The members of a session are the record \<open>session_state\<close>.

  \<^bold>\<open>What the lemmas show.\<close>  Soundness of the verdict, of the binding and of the composition (an accepted
  outcome was observed through the calls, in the order of the code); fail-closed behaviour (every path
  returns a result or a typed failure, and no input survives an error); exact wire and text formats
  (canonicity, replay rejection, round trip of the directory page, grammar of the SID scanner); memory
  safety of every decoder and buffer; custody of handles (none is used early or late, and none is leaked
  except a session's handle whose \<^verbatim>\<open>push_back\<close> throws, which the code loses: \<open>session_handle_leak\<close>);
  the session invariant; completeness of inventories; and liveness on stable objects.  The theorems at
  the end of this theory span components.

  \<^bold>\<open>Hypotheses.\<close>  Code outside the sources is a parameter with documented behaviour as named hypotheses:
  \<open>bcrypt_computes\<close> and \<open>available\<close> (BCrypt computes one function and is available), \<open>fills_within\<close> and
  \<open>token_calls_within\<close> (a call never writes past the announced capacity), \<open>serves_file\<close> (the file behind a
  handle), \<open>opens_valid\<close> (an opening returns a valid handle or fails).  An injected operation may raise any
  exception, written \<open>raises_only defined\<close>; an \<^verbatim>\<open>ObservationFailure\<close> of kind \<^verbatim>\<open>none\<close>, which no interface
  excludes and which the handlers copy into a stop without an error, is named in the conclusions by
  \<open>kindless\<close>.  Only the abstract comparison asks its source and provider for real kinds (\<open>proper_source\<close>,
  \<open>proper_provider\<close>), which the Windows source and BCrypt satisfy.

  \<^bold>\<open>Bounds and termination.\<close>  All definitions are total.  The read loop recurses on the bytes that are
  left, since a count of zero stops it; the page loop on the 16 pages that may still be asked for, as
  the code counts them; the decoder on the offset, which grows by at least a header.

  \<^bold>\<open>Not modelled.\<close>  The Python orchestrator, its adapters and samples, the operator scripts and the tests;
  constructors that only move their arguments; copy and move of strings, whose allocation failures are
  modelled where handles or buffers depend on them (the vectors of held handles of the readers and of a
  session, the buffer of the token port, the buffers of the codec and the construction of the reader).
\<close>

section \<open>The production comparison\<close>

text \<open>\<^bold>\<open>C10.\<close> The production comparison is total and fails closed: over the Windows source with its system backend,
  on any operating system that never writes past a buffer it is given, the comparison always returns
  evidence, for every configuration, every answer of the system and whichever \<^verbatim>\<open>push_back\<close>
  of the session fails; the verdict is inconclusive exactly when the snapshot is not complete, and exactly
  then an error is recorded.\<close>

theorem windows_comparison_total:
  assumes "fills_within sys"
  shows "\<exists>e st. compare_fresh_controller bc (windows_source room tc config (system_native_calls sys tc)) fixture dir p11 p10 pr br (ad, w) =
      (Inr e, st) \<and> (e_verdict e = Stop_inconclusive \<longleftrightarrow> \<not> e_snapshot_complete e) \<and>
    (e_error e \<noteq> Err_none \<longleftrightarrow> \<not> e_snapshot_complete e)"
  unfolding compare_fresh_controller_def
  by (rule compare_impl_total [OF windows_source_proper [OF system_calls_proper [OF assms]] bcrypt_provider_proper])

theorem windows_comparison_total_witness:
  "\<exists>e st. compare_fresh_controller (log_bcrypt failing_bcrypt)
      (windows_source roomy ascii_text_calls sample_config (system_native_calls (sample_win32 ''x'') ascii_text_calls))
      sample_case ''dir'' [] [] True True (\<lparr>ad_audit = \<lparr>au_system_backend = True, au_identities = [], au_inventories = []\<rparr>, ad_sessions = []\<rparr>, 0) =
      (Inr e, st) \<and> (e_error e \<noteq> Err_none \<longleftrightarrow> \<not> e_snapshot_complete e)"
  using windows_comparison_total [OF sample_win32_fills] by blast

section \<open>From the binding to the verdict\<close>

text \<open>\<^bold>\<open>C9.\<close> The input of a ready binding is one the comparison can use: with BCrypt available and a source that
  opens a session on an unchanging directory of expected regular children, the comparison of that input
  does not stop at the head binding but returns complete evidence, with the verdict that the directory's
  contents call for.\<close>

theorem bound_input_compares:
  assumes "bcrypt_computes bc H" and "available bc H"
    and "bind_protected_authority bc reader approved sel csid w = (Inr r, w')" and "ar_comparison_input r = Some input"
    and "length (bi_protected_p11_bytes input) \<le> ulong_max"
    and "returns (so_open source directory_profile) (Some s)"
    and "serves s (bi_state_directory_identity input) es files" and "distinct (map en_name (present es))"
    and "list_all (good_entry (bi_fixture input) (bi_state_directory_identity input)) (present es)" and "hashable H files"
  shows "\<exists>e v'. compare_fresh_controller bc source (bi_fixture input) (bi_state_directory_identity input)
      (bi_protected_p11_bytes input) (bi_rendered_p10_sha256 input) True True v = (Inr e, v') \<and>
    e_snapshot_complete e \<and> e_verdict e = expected_verdict (bi_fixture input) files"
proof -
  from binding_sound [OF assms(1,3)] assms(4) obtain p10 p11 where b: "authority_bound H approved sel csid p10 p11"
    "r = bound_result approved sel p11" by auto
  with assms(4) have i: "bi_fixture input = sel" "bi_protected_p11_bytes input = p11"
    "bi_rendered_p10_sha256 input = hex_bytes (H p10)" "bi_state_directory_identity input \<noteq> []"
    by (auto simp: bound_result_def authority_bound_def)
  from b(1) obtain f where f: "sel = with_digests H f" by (auto simp: authority_bound_def frozen_cases_def)
  have "expected_verdict f files = expected_verdict sel files" by (simp add: f expected_verdict_def with_digests_def)
  moreover have "render_p11 (with_digests H f) (hex_bytes (H p10)) = Inr p11" using b(1) unfolding f authority_bound_def by blast
  ultimately show ?thesis
    using compare_serves [OF assms(2,6), of f "hex_bytes (H p10)" p11 "bi_state_directory_identity input" es files v] assms(5,7-) i
    unfolding f by simp
qed

theorem bound_input_compares_witness:
  "\<exists>r w' input e v'. bind_protected_authority (bcrypt_of pad_digest) (text_reader sample_p10 sample_head) sample_approved sample_case
      ''S-1-5-2'' [] = (Inr r, w') \<and> ar_comparison_input r = Some input \<and>
    compare_fresh_controller (bcrypt_of pad_digest) (dir_source ''dir'' (c_latest_files active_case)) (bi_fixture input)
      (bi_state_directory_identity input) (bi_protected_p11_bytes input) (bi_rendered_p10_sha256 input) True True [] = (Inr e, v') \<and>
    e_verdict e = Accept_current"
proof -
  let ?files = "c_latest_files active_case"
  let ?input = "\<lparr>bi_fixture = sample_case, bi_state_directory_identity = ap_state_directory_identity sample_approved,
    bi_protected_p11_bytes = sample_head, bi_rendered_p10_sha256 = ap_rendered_p10_sha256 sample_approved\<rparr>"
  obtain w' where bind: "bind_protected_authority (bcrypt_of pad_digest) (text_reader sample_p10 sample_head) sample_approved sample_case
      ''S-1-5-2'' [] = (Inr (bound_result sample_approved sample_case sample_head), w')"
    using sample_binding by blast
  have input: "ar_comparison_input (bound_result sample_approved sample_case sample_head) = Some ?input"
    by (simp add: bound_result_def)
  have latest: "?files = c_old_files active_case \<or> ?files = c_latest_files active_case" by simp
  have dir: "ap_state_directory_identity sample_approved = ''dir''" by (simp add: sample_approved_def)
  have source: "returns (so_open (dir_source ''dir'' ?files) directory_profile) (Some (dir_session ''dir'' ?files))"
    by (simp add: dir_source_def returns_returnM)
  let ?es = "map (dir_entry ''dir'') ?files"
  have serve: "serves (dir_session ''dir'' ?files) (bi_state_directory_identity ?input) ?es ?files"
    and good: "list_all (good_entry (bi_fixture ?input) (bi_state_directory_identity ?input)) (present ?es)"
    and small: "length (bi_protected_p11_bytes ?input) \<le> ulong_max"
    using dir_session_serves [OF active_dir(1,2) [OF latest]] active_dir(4) [OF latest] sample_head_small by (simp_all add: dir)
  obtain e v' where run: "compare_fresh_controller (bcrypt_of pad_digest) (dir_source ''dir'' ?files) (bi_fixture ?input)
      (bi_state_directory_identity ?input) (bi_protected_p11_bytes ?input) (bi_rendered_p10_sha256 ?input) True True [] = (Inr e, v')"
    and "e_verdict e = expected_verdict sample_case ?files"
    using bound_input_compares [OF pad_digest_computes available_bcrypt_of bind input small source serve active_dir(3) [OF latest] good
      active_hashable [OF latest], of "[]"] by auto
  moreover have "expected_verdict sample_case ?files = Accept_current"
    using active_files by (simp add: expected_verdict_def with_digests_def)
  ultimately show ?thesis using bind input by metis
qed

end
